(* ===== verification/Prelude.thy ===== *)
theory Prelude
  imports Main "HOL-Library.Word"
begin

text \<open>
  Shared vocabulary of the development.

  \<^item> The outcome of a C++ call: a value, a thrown exception (one constructor per class of
    \<open>shared/include/exceptions.hpp\<close> and per library exception the code can raise), the call of
    \<open>std::terminate\<close> that a throwing \<open>noexcept\<close> function makes, or undefined behaviour.
  \<^item> Raw memory: a block is the list of its bytes, a read outside of it is undefined.
  \<^item> Little-endian integers and object representations (locale \<open>byte_codec\<close>).
  \<^item> Enumerations with a fixed underlying type \<open>char\<close> (locale \<open>char_enum\<close>): every byte is a
    value of such a type, the enumerators only name some of them.
  \<^item> The \<open>std::string\<close> and \<open>std::find_if\<close> operations the code calls.
\<close>

section \<open>Outcomes\<close>

datatype exn =
    Transaction_invalid_state
  | Transaction_read_fail string
  | Transaction_write_fail string
  | Netspace_invalid_addr string
  | Netspace_malformed_url
  | Metaspace_db_fail string
  | Metaspace_query_fail string
  | Metaspace_query_noresult string
  | Dvsp_empty_content
  | Std_out_of_range
  | Std_length_error
  | Std_exception
  | Boost_system_error
  | Boost_bad_address_cast

datatype ub = Oob_read | Oob_write | Null_deref | Empty_container | Bad_iterator
  | Double_free | Use_after_free | Signed_overflow | Bad_unlock | Double_lock

datatype fault = Throw exn | Terminated | Undefined ub

type_synonym 'a result = "fault + 'a"

type_synonym bytes = string

text \<open>The class \<open>exception_base\<close> derives privately from \<open>std::exception\<close>: a handler
  \<open>catch(std::exception&)\<close> sees the library's exceptions only, not the project's.\<close>

fun is_std_exception :: "exn \<Rightarrow> bool" where
  "is_std_exception Std_out_of_range = True"
| "is_std_exception Std_length_error = True"
| "is_std_exception Std_exception = True"
| "is_std_exception Boost_system_error = True"
| "is_std_exception Boost_bad_address_cast = True"
| "is_std_exception _ = False"

text \<open>Sequencing: the first fault ends the call.\<close>

definition bindR :: "'e + 'a \<Rightarrow> ('a \<Rightarrow> 'e + 'b) \<Rightarrow> 'e + 'b" where
  "bindR m f = (case m of Inl e \<Rightarrow> Inl e | Inr x \<Rightarrow> f x)"

definition noexcept_call :: "'a result \<Rightarrow> 'a result" where
  "noexcept_call m = (case m of Inl (Throw _) \<Rightarrow> Inl Terminated | _ \<Rightarrow> m)"

lemma bindR_simps [simp]: "bindR (Inl e) f = Inl e" "bindR (Inr x) f = f x"
  by (simp_all add: bindR_def)

lemma bindR_eq_Inr: "bindR m f = Inr y \<longleftrightarrow> (\<exists>x. m = Inr x \<and> f x = Inr y)"
  by (cases m) auto

lemma bindR_eq_Inl: "bindR m f = Inl e \<longleftrightarrow> m = Inl e \<or> (\<exists>x. m = Inr x \<and> f x = Inl e)"
  by (cases m) auto

lemma bindR_assoc: "bindR (bindR m f) g = bindR m (\<lambda>x. bindR (f x) g)"
  by (cases m) auto

lemma bindR_cong [fundef_cong]:
  "m = m' \<Longrightarrow> (\<And>x. m' = Inr x \<Longrightarrow> f x = f' x) \<Longrightarrow> bindR m f = bindR m' f'"
  by (cases m') auto

lemma noexcept_simps [simp]:
  "noexcept_call (Inr x) = Inr x" "noexcept_call (Inl (Throw e)) = Inl Terminated"
  "noexcept_call (Inl (Undefined u)) = Inl (Undefined u)"
  "noexcept_call (Inl Terminated) = Inl Terminated"
  by (simp_all add: noexcept_call_def)

lemma noexcept_eq_Inr [simp]: "noexcept_call m = Inr x \<longleftrightarrow> m = Inr x"
  by (auto simp: noexcept_call_def split: sum.splits fault.splits)

named_theorems layout \<open>sizes of object representations\<close>

section \<open>Memory blocks\<close>

definition read_mem :: "bytes \<Rightarrow> nat \<Rightarrow> nat \<Rightarrow> bytes result" where
  "read_mem b off n =
     (if off + n \<le> length b then Inr (take n (drop off b)) else Inl (Undefined Oob_read))"

lemma read_mem_ok [simp]: "off + n \<le> length b \<Longrightarrow> read_mem b off n = Inr (take n (drop off b))"
  by (simp add: read_mem_def)

lemma read_mem_oob [simp]: "length b < off + n \<Longrightarrow> read_mem b off n = Inl (Undefined Oob_read)"
  by (simp add: read_mem_def)

lemma read_mem_eq_Inr:
  "read_mem b off n = Inr c \<longleftrightarrow> off + n \<le> length b \<and> c = take n (drop off b)"
  by (auto simp: read_mem_def)

lemma length_read_mem: "read_mem b off n = Inr c \<Longrightarrow> length c = n"
  by (auto simp: read_mem_eq_Inr)

text \<open>\<open>std::string(const char*)\<close> on a buffer: the bytes before the first NUL.\<close>

abbreviation NUL :: char where "NUL \<equiv> CHR 0x00"

definition c_string :: "bytes \<Rightarrow> string result" where
  "c_string buf = (if NUL \<in> set buf then Inr (takeWhile (\<lambda>c. c \<noteq> NUL) buf)
                   else Inl (Undefined Oob_read))"

lemma c_string_terminated: "NUL \<notin> set s \<Longrightarrow> c_string (s @ NUL # rest) = Inr s"
  by (auto simp: c_string_def takeWhile_append)

section \<open>Characters and little-endian integers\<close>

text \<open>\<open>char\<close> is signed on the platforms the node targets.\<close>

definition schar :: "char \<Rightarrow> int" where
  "schar c = (let n = of_char c in if n < 128 then n else n - 256)"

fun le_bytes :: "nat \<Rightarrow> nat \<Rightarrow> bytes" where
  "le_bytes 0 n = []"
| "le_bytes (Suc k) n = char_of n # le_bytes k (n div 256)"

fun le_nat :: "bytes \<Rightarrow> nat" where
  "le_nat [] = 0"
| "le_nat (c # cs) = of_char c + 256 * le_nat cs"

lemma length_le_bytes [simp]: "length (le_bytes k n) = k"
  by (induction k arbitrary: n) auto

lemma le_nat_le_bytes: "le_nat (le_bytes k n) = n mod 256 ^ k"
proof (induction k arbitrary: n)
  case 0
  then show ?case by simp
next
  case (Suc k)
  have "n mod (256 * 256 ^ k) = 256 * (n div 256 mod 256 ^ k) + n mod 256"
    by (rule mod_mult2_eq)
  then show ?case using Suc by simp
qed

lemma le_nat_le_bytes_small [simp]: "n < 256 ^ k \<Longrightarrow> le_nat (le_bytes k n) = n"
  by (simp add: le_nat_le_bytes)

lemma le_bytes_le_nat [simp]: "le_bytes (length cs) (le_nat cs) = cs"
proof (induction cs)
  case Nil
  then show ?case by simp
next
  case (Cons c cs)
  have "(of_char c + 256 * le_nat cs) div 256 = le_nat cs"
    using nat_of_char_less_256 [of c] by simp
  moreover have "char_of (of_char c + 256 * le_nat cs) = c"
  proof -
    have "char_of (of_char c + 256 * le_nat cs) = (char_of ((of_char c + 256 * le_nat cs) mod 256) :: char)"
      by (rule char_of_mod_256 [symmetric])
    also have "(of_char c + 256 * le_nat cs) mod 256 = (of_char c :: nat)"
      using nat_of_char_less_256 [of c] by simp
    finally show ?thesis by simp
  qed
  ultimately show ?case using Cons by simp
qed

lemma le_nat_bound: "le_nat cs < 256 ^ length cs"
proof (induction cs)
  case Nil
  then show ?case by simp
next
  case (Cons c cs)
  then have "Suc (le_nat cs) \<le> 256 ^ length cs" by simp
  then have "256 * Suc (le_nat cs) \<le> 256 * 256 ^ length cs" by (rule mult_le_mono2)
  moreover have "of_char c + 256 * le_nat cs < 256 * Suc (le_nat cs)" by simp
  ultimately have "of_char c + 256 * le_nat cs < 256 * 256 ^ length cs" by (rule less_le_trans [rotated])
  then show ?case by simp
qed

definition word_bytes :: "nat \<Rightarrow> 'a::len word \<Rightarrow> bytes" where
  "word_bytes k w = le_bytes k (unat w)"

definition bytes_word :: "bytes \<Rightarrow> 'a::len word" where
  "bytes_word cs = word_of_nat (le_nat cs)"

lemma length_word_bytes [simp]: "length (word_bytes k w) = k"
  by (simp add: word_bytes_def)

lemma bytes_word_word_bytes:
  "LENGTH('a) \<le> 8 * k \<Longrightarrow> bytes_word (word_bytes k w) = (w :: 'a::len word)"
proof -
  assume k: "LENGTH('a) \<le> 8 * k"
  have "unat w < 2 ^ LENGTH('a)" by (rule unsigned_less)
  also have "(2::nat) ^ LENGTH('a) \<le> 2 ^ (8 * k)" using k by (rule power_increasing) simp
  also have "(2::nat) ^ (8 * k) = 256 ^ k" by (simp add: power_mult)
  finally show ?thesis by (simp add: word_bytes_def bytes_word_def)
qed

lemma bytes_word_32 [simp]: "bytes_word (word_bytes 4 w) = (w :: 32 word)"
  by (rule bytes_word_word_bytes) simp

lemma bytes_word_64 [simp]: "bytes_word (word_bytes 8 w) = (w :: 64 word)"
  by (rule bytes_word_word_bytes) simp

section \<open>Object representations\<close>

text \<open>The bytes of an object read through a \<open>reinterpret_cast\<close> at an offset of a block.\<close>

definition read_obj :: "(bytes \<Rightarrow> 'a) \<Rightarrow> nat \<Rightarrow> bytes \<Rightarrow> nat \<Rightarrow> 'a result" where
  "read_obj dec n buf off = bindR (read_mem buf off n) (\<lambda>c. Inr (dec c))"

text \<open>What the code relies on when it copies structures to and from byte buffers: a fixed
  width, and that reading back the bytes of a value gives the value.\<close>

locale byte_codec =
  fixes enc :: "'a \<Rightarrow> bytes" and dec :: "bytes \<Rightarrow> 'a" and width :: nat
    and ok :: "'a \<Rightarrow> bool"
  assumes enc_length: "ok x \<Longrightarrow> length (enc x) = width"
    and dec_enc: "ok x \<Longrightarrow> dec (enc x) = x"
begin

lemma enc_inject: "ok x \<Longrightarrow> ok y \<Longrightarrow> enc x = enc y \<longleftrightarrow> x = y"
  by (metis dec_enc)

lemma enc_append_inject:
  assumes "ok x" "ok y"
  shows "enc x @ r = enc y @ s \<longleftrightarrow> x = y \<and> r = s"
  using assms by (auto simp: enc_length enc_inject append_eq_append_conv)

lemma read_front: "ok x \<Longrightarrow> read_obj dec width (enc x @ rest) 0 = Inr x"
  by (simp add: read_obj_def enc_length dec_enc)

lemma read_at: "ok x \<Longrightarrow> read_obj dec width (pre @ enc x @ rest) (length pre) = Inr x"
  by (simp add: read_obj_def enc_length dec_enc)

lemma read_short: "length buf < off + width \<Longrightarrow> read_obj dec width buf off = Inl (Undefined Oob_read)"
  by (simp add: read_obj_def)

end

section \<open>Enumerations with a fixed underlying type\<close>

definition enum_of :: "('e::enum \<Rightarrow> 'v) \<Rightarrow> 'v \<Rightarrow> 'e option" where
  "enum_of val v = List.find (\<lambda>e. val e = v) Enum.enum"

locale char_enum =
  fixes val :: "'e::enum \<Rightarrow> 'v"
  assumes val_inj: "val x = val y \<Longrightarrow> x = y"
begin

lemma enum_of_val: "enum_of val (val e) = Some e"
proof (cases "enum_of val (val e)")
  case None
  then have "val e \<notin> val ` set Enum.enum"
    by (auto simp: enum_of_def find_None_iff)
  then show ?thesis by (simp add: UNIV_enum [symmetric])
next
  case (Some e')
  then have "val e' = val e" by (auto simp: enum_of_def find_Some_iff)
  with Some show ?thesis using val_inj by simp
qed

lemma enum_of_Some: "enum_of val v = Some e \<longleftrightarrow> v = val e"
proof
  assume "enum_of val v = Some e"
  then show "v = val e" by (auto simp: enum_of_def find_Some_iff)
qed (simp add: enum_of_val)

lemma enum_of_None: "enum_of val v = None \<longleftrightarrow> (\<forall>e. v \<noteq> val e)"
  by (metis enum_of_Some not_None_eq)

end

section \<open>Library operations\<close>

text \<open>\<open>std::find_if\<close> as an index, the length of the range standing for \<open>end()\<close>.\<close>

fun find_if :: "('a \<Rightarrow> bool) \<Rightarrow> 'a list \<Rightarrow> nat" where
  "find_if P [] = 0"
| "find_if P (x # xs) = (if P x then 0 else Suc (find_if P xs))"

lemma find_if_le: "find_if P xs \<le> length xs"
  by (induction xs) auto

lemma find_if_end: "find_if P xs = length xs \<longleftrightarrow> (\<forall>x \<in> set xs. \<not> P x)"
  by (induction xs) auto

lemma find_if_less: "find_if P xs < length xs \<longleftrightarrow> (\<exists>x \<in> set xs. P x)"
  using find_if_end [of P xs] find_if_le [of P xs] by auto

lemma find_if_sat: "find_if P xs < length xs \<Longrightarrow> P (xs ! find_if P xs)"
  by (induction xs) (auto split: if_splits)

lemma find_if_first: "i < find_if P xs \<Longrightarrow> \<not> P (xs ! i)"
  by (induction xs arbitrary: i) (auto simp: nth_Cons split: if_splits nat.splits)

lemma find_if_append:
  "find_if P (xs @ ys) = (if \<exists>x \<in> set xs. P x then find_if P xs else length xs + find_if P ys)"
  by (induction xs) auto

lemma find_if_cong: "(\<And>x. x \<in> set xs \<Longrightarrow> P x = Q x) \<Longrightarrow> find_if P xs = find_if Q xs"
  by (induction xs) auto

lemma take_find_if: "take (find_if P xs) xs = takeWhile (\<lambda>x. \<not> P x) xs"
  by (induction xs) auto

lemma find_if_eqI: "i < length xs \<Longrightarrow> P (xs ! i) \<Longrightarrow> (\<And>j. j < i \<Longrightarrow> \<not> P (xs ! j)) \<Longrightarrow> find_if P xs = i"
  by (metis find_if_first find_if_less find_if_sat linorder_neqE_nat nth_mem)

text \<open>Positions in a \<open>std::string\<close> are 64-bit, \<open>npos\<close> is the largest one, and adding to it
  wraps round.\<close>

definition npos :: nat where "npos = 2 ^ 64 - 1"

definition pos_add :: "nat \<Rightarrow> nat \<Rightarrow> nat" where "pos_add i k = (i + k) mod 2 ^ 64"

definition str_find :: "char \<Rightarrow> string \<Rightarrow> nat" where
  "str_find c s = (let i = find_if (\<lambda>x. x = c) s in if i < length s then i else npos)"

fun search :: "string \<Rightarrow> string \<Rightarrow> nat option" where
  "search pat [] = (if pat = [] then Some 0 else None)"
| "search pat (c # s) =
     (if take (length pat) (c # s) = pat then Some 0 else map_option Suc (search pat s))"

definition str_find_sub :: "string \<Rightarrow> string \<Rightarrow> nat" where
  "str_find_sub pat s = (case search pat s of Some i \<Rightarrow> i | None \<Rightarrow> npos)"

definition substr :: "string \<Rightarrow> nat \<Rightarrow> nat \<Rightarrow> string result" where
  "substr s pos n =
     (if length s < pos then Inl (Throw Std_out_of_range) else Inr (take n (drop pos s)))"

definition substr_from :: "string \<Rightarrow> nat \<Rightarrow> string result" where
  "substr_from s pos = (if length s < pos then Inl (Throw Std_out_of_range) else Inr (drop pos s))"

lemma substr_ok [simp]: "pos \<le> length s \<Longrightarrow> substr s pos n = Inr (take n (drop pos s))"
  by (simp add: substr_def)

lemma substr_from_ok [simp]: "pos \<le> length s \<Longrightarrow> substr_from s pos = Inr (drop pos s)"
  by (simp add: substr_from_def)

text \<open>\<open>std::to_string\<close> of an unsigned integer.\<close>

fun decimal :: "nat \<Rightarrow> string" where
  "decimal n = (if n < 10 then [char_of (48 + n)] else decimal (n div 10) @ [char_of (48 + n mod 10)])"

declare decimal.simps [simp del]

lemma digit_char [simp]: "n < 10 \<Longrightarrow> of_char (char_of (48 + n) :: char) = 48 + (n::nat)"
  by simp

lemma decimal_digits: "c \<in> set (decimal n) \<Longrightarrow> 48 \<le> (of_char c :: nat) \<and> (of_char c :: nat) < 58"
proof (induction n rule: decimal.induct)
  case (1 n)
  show ?case
  proof (cases "n < 10")
    case True
    with "1.prems" show ?thesis by (simp add: decimal.simps [of n])
  next
    case False
    with "1.prems" consider "c \<in> set (decimal (n div 10))" | "c = char_of (48 + n mod 10)"
      by (auto simp: decimal.simps [of n])
    then show ?thesis
    proof cases
      case 1
      with "1.IH" False show ?thesis by simp
    next
      case 2
      then show ?thesis by simp
    qed
  qed
qed

fun parse_decimal :: "nat \<Rightarrow> string \<Rightarrow> nat" where
  "parse_decimal acc [] = acc"
| "parse_decimal acc (c # s) = parse_decimal (10 * acc + (of_char c - 48)) s"

lemma parse_decimal_append:
  "parse_decimal acc (s @ t) = parse_decimal (parse_decimal acc s) t"
  by (induction s arbitrary: acc) auto

lemma parse_decimal_decimal: "parse_decimal 0 (decimal n) = n"
proof (induction n rule: decimal.induct)
  case (1 n)
  show ?case
  proof (cases "n < 10")
    case True
    then show ?thesis by (simp add: decimal.simps [of n])
  next
    case False
    with 1 have "parse_decimal 0 (decimal (n div 10)) = n div 10" by simp
    with False show ?thesis by (simp add: decimal.simps [of n] parse_decimal_append)
  qed
qed

lemma decimal_inject: "decimal m = decimal n \<longleftrightarrow> m = n"
  by (metis parse_decimal_decimal)

section \<open>Splitting and joining at a separator\<close>

fun join :: "char \<Rightarrow> string list \<Rightarrow> string" where
  "join d [] = []"
| "join d [x] = x"
| "join d (x # y # xs) = x @ d # join d (y # xs)"

fun split_on :: "char \<Rightarrow> string \<Rightarrow> string list" where
  "split_on d [] = [[]]"
| "split_on d (c # s) =
     (if c = d then [] # split_on d s
      else (case split_on d s of [] \<Rightarrow> [[c]] | x # xs \<Rightarrow> (c # x) # xs))"

lemma split_on_not_Nil [simp]: "split_on d s \<noteq> []"
  by (cases s) (auto split: list.splits)

lemma split_on_no_sep: "d \<notin> set s \<Longrightarrow> split_on d s = [s]"
  by (induction s) auto

lemma split_on_append_sep: "d \<notin> set s \<Longrightarrow> split_on d (s @ d # t) = s # split_on d t"
  by (induction s) auto

lemma split_on_join:
  "xs \<noteq> [] \<Longrightarrow> (\<And>x. x \<in> set xs \<Longrightarrow> d \<notin> set x) \<Longrightarrow> split_on d (join d xs) = xs"
proof (induction d xs rule: join.induct)
  case (3 d x y xs)
  then show ?case by (simp add: split_on_append_sep)
qed (auto simp: split_on_no_sep)

lemma join_append: "xs \<noteq> [] \<Longrightarrow> ys \<noteq> [] \<Longrightarrow> join d (xs @ ys) = join d xs @ d # join d ys"
proof (induction d xs rule: join.induct)
  case (2 d x)
  then show ?case by (cases ys) auto
qed auto

lemma join_snoc: "xs \<noteq> [] \<Longrightarrow> join d (xs @ [x]) = join d xs @ d # x"
  by (simp add: join_append)

end
