(* ===== verification/Net_Common.thy ===== *)
theory Net_Common
  imports Prelude
begin

text \<open>
  \<open>shared/include/infrastructure/net_common.hpp\<close>: the enumerations and the address types every
  component shares. An enumeration with underlying type \<open>char\<close> is a datatype of its
  enumerators together with their values; a field of such a type holds a byte, which need not be
  an enumerator. A \<open>boost::asio::ip::address\<close> is an IPv4 or an IPv6 address; its text form is
  Boost's, so it is a parameter (record \<open>asio\<close>), with the one law the code relies on
  (\<open>asio_ok\<close>: parsing what was printed gives the address back).
\<close>

section \<open>Enumerations\<close>

datatype netnode_type = Nt_undefined | Nt_root | Nt_org | Nt_trusted | Nt_georoot | Nt_final

datatype service_protocol = Proto_dvsp | Proto_http

fun netnode_val :: "netnode_type \<Rightarrow> char" where
  "netnode_val Nt_undefined = CHR 0x00"
| "netnode_val Nt_root = CHR 0x01"
| "netnode_val Nt_org = CHR 0x02"
| "netnode_val Nt_trusted = CHR 0x03"
| "netnode_val Nt_georoot = CHR 0x04"
| "netnode_val Nt_final = CHR 0x05"

fun protocol_val :: "service_protocol \<Rightarrow> char" where
  "protocol_val Proto_dvsp = CHR 0x00"
| "protocol_val Proto_http = CHR 0x01"

instantiation netnode_type :: enum
begin

definition "Enum.enum = [Nt_undefined, Nt_root, Nt_org, Nt_trusted, Nt_georoot, Nt_final]"

definition "Enum.enum_all P = (P Nt_undefined \<and> P Nt_root \<and> P Nt_org \<and> P Nt_trusted
  \<and> P Nt_georoot \<and> P Nt_final)"

definition "Enum.enum_ex P = (P Nt_undefined \<or> P Nt_root \<or> P Nt_org \<or> P Nt_trusted
  \<or> P Nt_georoot \<or> P Nt_final)"

instance
proof
  show UNIV: "(UNIV :: netnode_type set) = set Enum.enum"
    by (auto simp: enum_netnode_type_def intro: netnode_type.exhaust)
qed (auto simp: enum_netnode_type_def enum_all_netnode_type_def enum_ex_netnode_type_def,
     (metis netnode_type.exhaust)+)

end

instantiation service_protocol :: enum
begin

definition "Enum.enum = [Proto_dvsp, Proto_http]"

definition "Enum.enum_all P = (P Proto_dvsp \<and> P Proto_http)"

definition "Enum.enum_ex P = (P Proto_dvsp \<or> P Proto_http)"

instance
proof
  show UNIV: "(UNIV :: service_protocol set) = set Enum.enum"
    by (auto simp: enum_service_protocol_def intro: service_protocol.exhaust)
qed (auto simp: enum_service_protocol_def enum_all_service_protocol_def enum_ex_service_protocol_def,
     (metis service_protocol.exhaust)+)

end

interpretation netnode_enum: char_enum netnode_val
proof
  fix x y assume "netnode_val x = netnode_val y"
  then show "x = y" by (cases x; cases y; simp)
qed

interpretation protocol_enum: char_enum protocol_val
proof
  fix x y assume "protocol_val x = protocol_val y"
  then show "x = y" by (cases x; cases y; simp)
qed

section \<open>Addresses\<close>

datatype netspace_ipv4 = Ipv4 char char char char

datatype netspace_addr = V4 netspace_ipv4 | V6 bytes

definition ipv4_zero :: netspace_ipv4 where "ipv4_zero = Ipv4 NUL NUL NUL NUL"

text \<open>A default \<open>netspace_addr()\<close> is the IPv4 address 0.0.0.0.\<close>

definition addr_default :: netspace_addr where "addr_default = V4 ipv4_zero"

definition GSN_SERVICE_PORT :: nat where "GSN_SERVICE_PORT = 55301"

fun ipv4_bytes :: "netspace_ipv4 \<Rightarrow> bytes" where
  "ipv4_bytes (Ipv4 a b c d) = [a, b, c, d]"

definition bytes_ipv4 :: "bytes \<Rightarrow> netspace_ipv4" where
  "bytes_ipv4 s = Ipv4 (s ! 0) (s ! 1) (s ! 2) (s ! 3)"

definition ipv4_to_netspace_addr :: "netspace_ipv4 \<Rightarrow> netspace_addr" where
  "ipv4_to_netspace_addr addr = V4 addr"

fun ipv4_to_string :: "netspace_ipv4 \<Rightarrow> string" where
  "ipv4_to_string (Ipv4 a b c d) =
     decimal (of_char a) @ ''.'' @ decimal (of_char b) @ ''.''
     @ decimal (of_char c) @ ''.'' @ decimal (of_char d)"

text \<open>\<open>address::to_v4().to_bytes()\<close> throws on an IPv6 address.\<close>

fun to_v4 :: "netspace_addr \<Rightarrow> netspace_ipv4 result" where
  "to_v4 (V4 a) = Inr a"
| "to_v4 (V6 _) = Inl (Throw Boost_bad_address_cast)"

record asio =
  from_string :: "string \<Rightarrow> netspace_addr option"
  addr_string :: "netspace_addr \<Rightarrow> string"

definition parse_addr :: "asio \<Rightarrow> string \<Rightarrow> netspace_addr result" where
  "parse_addr io s = (case from_string io s of Some a \<Rightarrow> Inr a | None \<Rightarrow> Inl (Throw Boost_system_error))"

definition asio_ok :: "asio \<Rightarrow> bool" where
  "asio_ok io \<longleftrightarrow> (\<forall>a. from_string io (addr_string io a) = Some a)"

lemma parse_addr_string [simp]: "asio_ok io \<Longrightarrow> parse_addr io (addr_string io a) = Inr a"
  by (simp add: asio_ok_def parse_addr_def)

lemma addr_string_inject: "asio_ok io \<Longrightarrow> addr_string io a = addr_string io b \<longleftrightarrow> a = b"
  by (metis asio_ok_def option.inject)

lemma length_ipv4_bytes [layout, simp]: "length (ipv4_bytes a) = 4"
  by (cases a) simp

lemma bytes_ipv4_bytes [simp]: "bytes_ipv4 (ipv4_bytes a) = a"
  by (cases a) (simp add: bytes_ipv4_def)

interpretation ipv4_codec: byte_codec ipv4_bytes bytes_ipv4 4 "\<lambda>_. True"
  by unfold_locales (auto simp: layout)

section \<open>A reference text form\<close>

text \<open>Dotted decimal, as the code's own \<open>ipv4_to_string\<close> prints it and as Boost reads it, and
  a tagged form for IPv6: it shows that the law \<open>asio_ok\<close> can hold and gives the examples a
  concrete parameter.\<close>

definition digits_below :: "nat \<Rightarrow> string \<Rightarrow> bool" where
  "digits_below n s \<longleftrightarrow> s \<noteq> [] \<and> list_all (\<lambda>c. 48 \<le> (of_char c :: nat) \<and> (of_char c :: nat) < 58) s
     \<and> parse_decimal 0 s < n"

definition parse_ipv4 :: "string \<Rightarrow> netspace_ipv4 option" where
  "parse_ipv4 s = (case split_on CHR ''.'' s of
     [a, b, c, d] \<Rightarrow>
       (if list_all (digits_below 256) [a, b, c, d]
        then Some (Ipv4 (char_of (parse_decimal 0 a)) (char_of (parse_decimal 0 b))
                        (char_of (parse_decimal 0 c)) (char_of (parse_decimal 0 d)))
        else None)
   | _ \<Rightarrow> None)"

definition ref_asio :: asio where
  "ref_asio = \<lparr>
     from_string = (\<lambda>s. case s of [] \<Rightarrow> None
        | c # t \<Rightarrow> if c = CHR '':'' then Some (V6 t) else map_option V4 (parse_ipv4 s)),
     addr_string = (\<lambda>a. case a of V4 x \<Rightarrow> ipv4_to_string x | V6 t \<Rightarrow> CHR '':'' # t)\<rparr>"

lemma decimal_not_Nil: "decimal n \<noteq> []"
  by (subst decimal.simps) simp

lemma decimal_not_in: "(of_char c :: nat) < 48 \<or> 58 \<le> (of_char c :: nat) \<Longrightarrow> c \<notin> set (decimal n)"
  using decimal_digits by fastforce

lemma digits_below_decimal: "n < b \<Longrightarrow> digits_below b (decimal n)"
  using decimal_digits [of _ n]
  by (auto simp: digits_below_def decimal_not_Nil parse_decimal_decimal list_all_iff)

lemma ipv4_to_string_join:
  "ipv4_to_string (Ipv4 a b c d) = join CHR ''.'' (map decimal (map of_char [a, b, c, d]))"
  by simp

lemma split_ipv4_to_string:
  "split_on CHR ''.'' (ipv4_to_string (Ipv4 a b c d)) = map decimal (map of_char [a, b, c, d])"
  unfolding ipv4_to_string_join by (rule split_on_join) (auto dest!: decimal_digits)

lemma parse_ipv4_to_string: "parse_ipv4 (ipv4_to_string a) = Some a"
  by (cases a)
    (simp add: parse_ipv4_def split_ipv4_to_string digits_below_decimal parse_decimal_decimal
      del: ipv4_to_string.simps)

lemma ipv4_to_string_inject: "ipv4_to_string a = ipv4_to_string b \<longleftrightarrow> a = b"
  by (metis parse_ipv4_to_string option.inject)

lemma ipv4_to_string_chars: "c \<in> set (ipv4_to_string a) \<Longrightarrow>
    c = CHR ''.'' \<or> 48 \<le> (of_char c :: nat) \<and> (of_char c :: nat) < 58"
  by (cases a) (auto dest: decimal_digits)

lemma asio_ok_ref: "asio_ok ref_asio"
proof -
  have "from_string ref_asio (addr_string ref_asio a) = Some a" for a
  proof (cases a)
    case (V4 x)
    have ne: "ipv4_to_string x \<noteq> []" by (cases x) (simp add: decimal_not_Nil)
    then have "hd (ipv4_to_string x) \<in> set (ipv4_to_string x)" by simp
    then have "hd (ipv4_to_string x) \<noteq> CHR '':''" by (auto dest!: ipv4_to_string_chars)
    with ne V4 show ?thesis
      by (cases "ipv4_to_string x") (auto simp: ref_asio_def parse_ipv4_to_string [of x, symmetric])
  next
    case (V6 t)
    then show ?thesis by (simp add: ref_asio_def)
  qed
  then show ?thesis by (simp add: asio_ok_def)
qed

end
