(* ===== verification/Netnode.thy ===== *)
theory Netnode
  imports Net_Common
begin

text \<open>
  \<open>shared/infrastructure/netnode.cpp\<close>: a node of the network (record \<open>netspace_node\<close>), its
  constructors and its accessors. The constructor from an entry of text scans for the separator
  \<open>|\<close> with an index; \<open>entry_node_eq\<close> is its closed form.
\<close>

record netspace_node =
  m_type :: char
  m_addr :: netspace_addr
  m_hostname :: string
  m_proto :: char
  m_suid :: string

definition netspace_node_default :: netspace_node where
  "netspace_node_default = \<lparr>m_type = netnode_val Nt_undefined, m_addr = addr_default,
     m_hostname = [], m_proto = protocol_val Proto_dvsp, m_suid = []\<rparr>"

definition netspace_node_typed :: "char \<Rightarrow> char \<Rightarrow> netspace_node" where
  "netspace_node_typed ty proto = \<lparr>m_type = ty, m_addr = addr_default,
     m_hostname = [], m_proto = proto, m_suid = []\<rparr>"

definition netspace_node_text :: "asio \<Rightarrow> char \<Rightarrow> string \<Rightarrow> string \<Rightarrow> char \<Rightarrow> netspace_node result" where
  "netspace_node_text io ty host address proto =
     bindR (parse_addr io address) (\<lambda>a. Inr \<lparr>m_type = ty, m_addr = a,
       m_hostname = host, m_proto = proto, m_suid = []\<rparr>)"

definition netspace_node_addr :: "char \<Rightarrow> string \<Rightarrow> netspace_addr \<Rightarrow> char \<Rightarrow> netspace_node" where
  "netspace_node_addr ty host address proto = \<lparr>m_type = ty, m_addr = address,
     m_hostname = host, m_proto = proto, m_suid = []\<rparr>"

definition netspace_node_copy :: "netspace_node \<Rightarrow> netspace_node" where
  "netspace_node_copy orig = \<lparr>m_type = m_type orig, m_addr = m_addr orig,
     m_hostname = m_hostname orig, m_proto = m_proto orig, m_suid = m_suid orig\<rparr>"

text \<open>The scan: \<open>i\<close> is the loop index, \<open>st\<close> the number of separators handled. Each separator
  advances the index twice (\<open>++i\<close> in the body, \<open>i++\<close> in the loop head).\<close>

function entry_loop ::
  "asio \<Rightarrow> string \<Rightarrow> nat \<Rightarrow> nat \<Rightarrow> nat \<Rightarrow> netspace_node \<Rightarrow> netspace_node result" where
  "entry_loop io entry i offset st n =
     (if i < length entry then
        if entry ! i = CHR ''|'' then
          if st = 0 then
            bindR (substr entry offset i) (\<lambda>s.
              entry_loop io entry (i + 2) (i + 1) (st + 1) (n\<lparr>m_suid := s\<rparr>))
          else if st = 1 then
            bindR (substr entry offset (i - offset)) (\<lambda>h.
            bindR (substr_from entry (i + 1)) (\<lambda>t.
            bindR (parse_addr io t) (\<lambda>a. Inr (n\<lparr>m_hostname := h, m_addr := a\<rparr>))))
          else entry_loop io entry (i + 1) offset (st + 1) n
        else entry_loop io entry (i + 1) offset st n
      else Inr n)"
  by pat_completeness auto
termination
  by (relation "measure (\<lambda>(io, entry, i, offset, st, n). length entry - i)") auto

declare entry_loop.simps [simp del]

definition netspace_node_entry :: "asio \<Rightarrow> string \<Rightarrow> netspace_node result" where
  "netspace_node_entry io entry = entry_loop io entry 0 0 0 netspace_node_default"

definition node_type :: "netspace_node \<Rightarrow> char" where
  "node_type n = m_type n"

definition set_type :: "char \<Rightarrow> netspace_node \<Rightarrow> netspace_node" where
  "set_type t n = n\<lparr>m_type := t\<rparr>"

definition node_address :: "netspace_node \<Rightarrow> netspace_addr" where
  "node_address n = m_addr n"

definition set_address :: "netspace_addr \<Rightarrow> netspace_node \<Rightarrow> netspace_node" where
  "set_address a n = n\<lparr>m_addr := a\<rparr>"

definition node_hostname :: "netspace_node \<Rightarrow> string" where
  "node_hostname n = m_hostname n"

definition set_hostname :: "string \<Rightarrow> netspace_node \<Rightarrow> netspace_node" where
  "set_hostname h n = n\<lparr>m_hostname := h\<rparr>"

definition node_protocol :: "netspace_node \<Rightarrow> char" where
  "node_protocol n = m_proto n"

definition set_protocol :: "char \<Rightarrow> netspace_node \<Rightarrow> netspace_node" where
  "set_protocol p n = n\<lparr>m_proto := p\<rparr>"

definition set_suid :: "string \<Rightarrow> netspace_node \<Rightarrow> netspace_node" where
  "set_suid s n = n\<lparr>m_suid := s\<rparr>"

definition node_suid :: "netspace_node \<Rightarrow> string" where
  "node_suid n = m_suid n"

section \<open>Construction and copying\<close>

lemma node_copy_id [simp]: "netspace_node_copy n = n"
  by (simp add: netspace_node_copy_def)

lemma node_text_roundtrip:
  "asio_ok io \<Longrightarrow> netspace_node_text io ty h (addr_string io a) p = Inr (netspace_node_addr ty h a p)"
  by (simp add: netspace_node_text_def netspace_node_addr_def)

section \<open>The entry scan\<close>

abbreviation bar :: "char \<Rightarrow> bool" where "bar c \<equiv> c = CHR ''|''"

text \<open>Bytes that are not a separator are skipped.\<close>

lemma entry_loop_skip:
  "i + k \<le> length e \<Longrightarrow> (\<And>j. i \<le> j \<Longrightarrow> j < i + k \<Longrightarrow> e ! j \<noteq> CHR ''|'') \<Longrightarrow>
   entry_loop io e i off st n = entry_loop io e (i + k) off st n"
proof (induction k arbitrary: i)
  case 0
  then show ?case by simp
next
  case (Suc k)
  then have "e ! i \<noteq> CHR ''|''" "i < length e" by auto
  then have "entry_loop io e i off st n = entry_loop io e (i + 1) off st n"
    by (subst entry_loop.simps) simp
  also have "\<dots> = entry_loop io e (i + 1 + k) off st n"
    by (rule Suc.IH) (use Suc.prems in auto)
  finally show ?case by simp
qed

lemma entry_loop_find:
  "i \<le> length e \<Longrightarrow> entry_loop io e i off st n = entry_loop io e (i + find_if bar (drop i e)) off st n"
proof (rule entry_loop_skip)
  assume "i \<le> length e"
  then show "i + find_if bar (drop i e) \<le> length e"
    using find_if_le [of bar "drop i e"] by simp
  fix j assume "i \<le> j" "j < i + find_if bar (drop i e)"
  then have "j - i < find_if bar (drop i e)" by simp
  then have "drop i e ! (j - i) \<noteq> CHR ''|''" by (rule find_if_first)
  then show "e ! j \<noteq> CHR ''|''" using \<open>i \<le> j\<close> \<open>i \<le> length e\<close> by simp
qed

lemma entry_loop_end [simp]: "length e \<le> i \<Longrightarrow> entry_loop io e i off st n = Inr n"
  by (subst entry_loop.simps) simp

text \<open>What an entry denotes: everything before the first separator is the \<open>suid\<close>; the byte after it
  is never taken for a separator; the next one ends the host name.\<close>

definition entry_node :: "asio \<Rightarrow> string \<Rightarrow> netspace_node result" where
  "entry_node io e =
     (let i = find_if bar e; r = drop (i + 1) e; k = 1 + find_if bar (drop 1 r) in
      if length e \<le> i then Inr netspace_node_default
      else if length r \<le> k then Inr (netspace_node_default\<lparr>m_suid := take i e\<rparr>)
      else bindR (parse_addr io (drop (k + 1) r)) (\<lambda>a.
             Inr (netspace_node_default\<lparr>m_suid := take i e, m_hostname := take k r, m_addr := a\<rparr>)))"

lemma entry_loop_second:
  assumes i: "i < length e"
  defines "r \<equiv> drop (i + 1) e" and "k \<equiv> 1 + find_if bar (drop (i + 2) e)"
  shows "entry_loop io e (i + 2) (i + 1) 1 n =
    (if length r \<le> k then Inr n
     else bindR (parse_addr io (drop (k + 1) r)) (\<lambda>a. Inr (n\<lparr>m_hostname := take k r, m_addr := a\<rparr>)))"
proof (cases "length r \<le> k")
  case True
  show ?thesis
  proof (cases "i + 2 \<le> length e")
    case le: True
    have "entry_loop io e (i + 2) (i + 1) 1 n = entry_loop io e (i + 2 + find_if bar (drop (i + 2) e)) (i + 1) 1 n"
      by (rule entry_loop_find [OF le])
    with True show ?thesis by (simp add: r_def k_def)
  next
    case False
    with True show ?thesis by simp
  qed
next
  case False
  let ?j = "i + 2 + find_if bar (drop (i + 2) e)"
  have len: "?j < length e" using False by (simp add: r_def k_def)
  then have "find_if bar (drop (i + 2) e) < length (drop (i + 2) e)" by simp
  then have "drop (i + 2) e ! find_if bar (drop (i + 2) e) = CHR ''|''" by (rule find_if_sat)
  then have hit: "e ! ?j = CHR ''|''" using len by (simp add: nth_drop)
  have "entry_loop io e (i + 2) (i + 1) 1 n = entry_loop io e ?j (i + 1) 1 n"
    by (rule entry_loop_find) (use len in simp)
  also have "\<dots> = bindR (parse_addr io (drop (?j + 1) e)) (\<lambda>a.
      Inr (n\<lparr>m_hostname := take (?j - (i + 1)) (drop (i + 1) e), m_addr := a\<rparr>))"
    using hit len by (subst entry_loop.simps) simp
  finally show ?thesis using False by (simp add: r_def k_def add.commute)
qed

lemma entry_node_eq: "netspace_node_entry io e = entry_node io e"
proof (cases "find_if bar e < length e")
  case True
  let ?i = "find_if bar e"
  have hit: "e ! ?i = CHR ''|''" using find_if_sat [OF True] .
  have "netspace_node_entry io e = entry_loop io e ?i 0 0 netspace_node_default"
    using entry_loop_find [of 0 e] by (simp add: netspace_node_entry_def)
  also have "\<dots> = entry_loop io e (?i + 2) (?i + 1) 1 (netspace_node_default\<lparr>m_suid := take ?i e\<rparr>)"
    using True hit by (subst entry_loop.simps) simp
  also note entry_loop_second [OF True]
  finally show ?thesis
    using True by (simp add: entry_node_def Let_def add.commute)
next
  case False
  with find_if_le [of bar e] have "find_if bar e = length e" by simp
  with entry_loop_find [of 0 e] show ?thesis
    by (simp add: netspace_node_entry_def entry_node_def)
qed

lemma entry_node_parts:
  assumes "CHR ''|'' \<notin> set s" "CHR ''|'' \<notin> set h" "h \<noteq> []"
  shows "entry_node io (s @ ''|'' @ h @ ''|'' @ a) =
    bindR (parse_addr io a) (\<lambda>x. Inr (netspace_node_default\<lparr>m_suid := s, m_hostname := h, m_addr := x\<rparr>))"
proof -
  obtain c h' where h: "h = c # h'" using assms(3) by (cases h) auto
  have s: "find_if bar (s @ CHR ''|'' # t) = length s" for t
    using assms(1) by (auto simp: find_if_append)
  have h2: "find_if bar (h' @ CHR ''|'' # t) = length h'" for t
    using assms(2) h by (auto simp: find_if_append)
  show ?thesis by (simp add: entry_node_def h s h2)
qed

section \<open>Properties\<close>

text \<open>The scan of the constructor from an entry, with its index that advances twice at every
  separator, computes this: the text before the first \<open>|\<close> is the identifier; the byte after it
  belongs to the host name whatever it is; the next \<open>|\<close> ends the host name; the rest is parsed as
  an address; an entry without the separators leaves the remaining members at their defaults.\<close>

lemma entry_scan_closed_form: "netspace_node_entry io e = entry_node io e"
  by (rule entry_node_eq)

end
