(* ===== verification/Netspace_Table.thy ===== *)
theory Netspace_Table
  imports Netnode
begin

text \<open>
  \<open>shared/infrastructure/netspace_table.cpp\<close>: the table of registered nodes, a vector. An
  iterator is an index, the length of the vector standing for \<open>end()\<close>. The look-ups share one
  contract, the locale \<open>node_index\<close>, which every one of them interprets; the abstract view of a
  table is the partial map \<open>by_key key t\<close> from a key to the first node that has it.
\<close>

type_synonym netspace_table = "netspace_node list"

section \<open>Operations\<close>

definition netspace_table_default :: netspace_table where
  "netspace_table_default = []"

definition netspace_table_copy :: "netspace_table \<Rightarrow> netspace_table" where
  "netspace_table_copy orig = map netspace_node_copy orig"

definition add_node :: "netspace_table \<Rightarrow> netspace_node \<Rightarrow> netspace_table" where
  "add_node t n = t @ [n]"

definition erase_node :: "netspace_table \<Rightarrow> nat \<Rightarrow> netspace_table result" where
  "erase_node t i =
     (if i = length t then Inr t
      else if i < length t then Inr (take i t @ drop (i + 1) t)
      else Inl (Undefined Bad_iterator))"

definition find_addr :: "netspace_table \<Rightarrow> netspace_addr \<Rightarrow> nat" where
  "find_addr t a = find_if (\<lambda>v. m_addr v = a) t"

text \<open>The overload on text is \<open>noexcept\<close>: text that is no address ends the program.\<close>

definition find_addr_text :: "asio \<Rightarrow> netspace_table \<Rightarrow> string \<Rightarrow> nat result" where
  "find_addr_text io t s = noexcept_call (bindR (parse_addr io s) (\<lambda>a. Inr (find_addr t a)))"

definition find_host :: "netspace_table \<Rightarrow> string \<Rightarrow> nat" where
  "find_host t h = find_if (\<lambda>v. m_hostname v = h) t"

definition find_type :: "netspace_table \<Rightarrow> char \<Rightarrow> nat" where
  "find_type t nt = find_if (\<lambda>v. m_type v = nt) t"

definition find_type_from :: "netspace_table \<Rightarrow> char \<Rightarrow> nat \<Rightarrow> nat result" where
  "find_type_from t nt start =
     (if start \<le> length t then Inr (start + find_if (\<lambda>v. m_type v = nt) (drop start t))
      else Inl (Undefined Bad_iterator))"

definition find_suid :: "netspace_table \<Rightarrow> string \<Rightarrow> nat" where
  "find_suid t s = find_if (\<lambda>v. m_suid v = s) t"

definition table_at :: "netspace_table \<Rightarrow> nat \<Rightarrow> netspace_node result" where
  "table_at t i = (if length t \<le> i then Inl (Throw Std_out_of_range) else Inr (t ! i))"

definition table_size :: "netspace_table \<Rightarrow> nat" where "table_size t = length t"

definition table_empty :: "netspace_table \<Rightarrow> bool" where "table_empty t \<longleftrightarrow> t = []"

definition table_clear :: "netspace_table \<Rightarrow> netspace_table" where "table_clear t = []"

definition table_begin :: "netspace_table \<Rightarrow> nat" where "table_begin t = 0"

definition table_end :: "netspace_table \<Rightarrow> nat" where "table_end t = length t"

text \<open>\<open>*it\<close>\<close>

definition deref :: "netspace_table \<Rightarrow> nat \<Rightarrow> netspace_node result" where
  "deref t i = (if i < length t then Inr (t ! i) else Inl (Undefined Bad_iterator))"

section \<open>The look-up contract\<close>

definition by_key :: "(netspace_node \<Rightarrow> 'k) \<Rightarrow> netspace_table \<Rightarrow> 'k \<Rightarrow> netspace_node option" where
  "by_key key t = map_of (map (\<lambda>n. (key n, n)) t)"

lemma by_key_simps [simp]:
  "by_key key [] = (\<lambda>_. None)"
  "by_key key (n # t) = (by_key key t)(key n \<mapsto> n)"
  by (simp_all add: by_key_def)

lemma by_key_append: "by_key key (s @ t) = by_key key t ++ by_key key s"
  by (simp add: by_key_def)

lemma dom_by_key: "dom (by_key key t) = key ` set t"
  by (simp add: by_key_def dom_map_of_conv_image_fst image_image)

lemma by_key_None: "by_key key t k = None \<longleftrightarrow> k \<notin> key ` set t"
  using dom_by_key [of key t] by (metis domIff)

lemma by_key_SomeD: "by_key key t k = Some n \<Longrightarrow> n \<in> set t \<and> key n = k"
  by (auto simp: by_key_def dest: map_of_SomeD)

lemma by_key_mem: "distinct (map key t) \<Longrightarrow> n \<in> set t \<Longrightarrow> by_key key t (key n) = Some n"
  by (induction t) (auto simp: rev_image_eqI)

lemma by_key_fresh: "key n \<notin> key ` set t \<Longrightarrow> by_key key (t @ [n]) = (by_key key t)(key n \<mapsto> n)"
  by (auto simp: by_key_append map_add_def fun_eq_iff by_key_None [symmetric] split: option.splits)

lemma distinct_remove_nth:
  assumes "distinct (map key t)"
  shows "distinct (map key (take i t @ drop (i + 1) t))"
proof (cases "i < length t")
  case True
  then have "t = take i t @ t ! i # drop (i + 1) t" by (simp add: id_take_nth_drop)
  then have "distinct (map key (take i t @ t ! i # drop (i + 1) t))" using assms by metis
  then show ?thesis by simp
next
  case False
  then show ?thesis using assms by simp
qed

lemma by_key_remove:
  assumes "distinct (map key t)" "i < length t"
  shows "by_key key (take i t @ drop (i + 1) t) = (by_key key t)(key (t ! i) := None)"
proof -
  have t: "t = take i t @ t ! i # drop (i + 1) t"
    using assms(2) by (simp add: id_take_nth_drop)
  define a b n where "a = take i t" and "b = drop (i + 1) t" and "n = t ! i"
  have d: "distinct (map key (a @ n # b))" using assms(1) t by (simp add: a_def b_def n_def)
  then have na: "by_key key a (key n) = None" and nb: "by_key key b (key n) = None"
    by (auto simp: by_key_None)
  have "by_key key (a @ b) = (by_key key (a @ n # b))(key n := None)"
    using na nb by (auto simp: by_key_append map_add_def fun_eq_iff split: option.splits)
  then show ?thesis using t by (simp add: a_def b_def n_def)
qed

locale node_index =
  fixes key :: "netspace_node \<Rightarrow> 'k" and find :: "netspace_table \<Rightarrow> 'k \<Rightarrow> nat"
  assumes find_le: "find t k \<le> length t"
    and find_hit: "find t k < length t \<Longrightarrow> key (t ! find t k) = k"
    and find_before: "i < find t k \<Longrightarrow> key (t ! i) \<noteq> k"
begin

lemma find_end: "find t k = length t \<longleftrightarrow> k \<notin> key ` set t"
proof
  assume "find t k = length t"
  then have "key (t ! i) \<noteq> k" if "i < length t" for i using find_before [of i t k] that by simp
  then show "k \<notin> key ` set t" by (metis imageE in_set_conv_nth)
next
  assume "k \<notin> key ` set t"
  then show "find t k = length t" using find_hit [of t k] find_le [of t k]
    by (metis image_eqI le_neq_implies_less nth_mem)
qed

lemma find_less: "find t k < length t \<longleftrightarrow> k \<in> key ` set t"
  using find_end [of t k] find_le [of t k] by auto

lemma find_by_key: "by_key key t k = (if find t k < length t then Some (t ! find t k) else None)"
proof (cases "find t k < length t")
  case True
  let ?i = "find t k"
  have t: "t = take ?i t @ t ! ?i # drop (?i + 1) t" using True by (simp add: id_take_nth_drop)
  have "k \<notin> key ` set (take ?i t)"
    using find_before by (fastforce simp: in_set_conv_nth)
  then have "by_key key (take ?i t) k = None" by (simp add: by_key_None)
  then have "by_key key (take ?i t @ t ! ?i # drop (?i + 1) t) k = Some (t ! ?i)"
    using find_hit [OF True] by (simp add: by_key_append map_add_def)
  with t True show ?thesis by simp
next
  case False
  then show ?thesis using find_less [of t k] by (simp add: by_key_None)
qed

lemma find_deref: "deref t (find t k) = (case by_key key t k of Some n \<Rightarrow> Inr n
    | None \<Rightarrow> Inl (Undefined Bad_iterator))"
  by (simp add: find_by_key deref_def)

lemma find_end_by_key: "find t k = length t \<longleftrightarrow> by_key key t k = None"
  using find_le [of t k] by (auto simp: find_by_key)

lemma find_nth:
  assumes d: "distinct (map key t)" and i: "i < length t"
  shows "find t (key (t ! i)) = i"
proof -
  let ?j = "find t (key (t ! i))"
  have j: "?j < length t" using i by (simp add: find_less)
  then have "map key t ! ?j = map key t ! i" using find_hit [OF j] i by simp
  then show ?thesis using d i j by (simp add: nth_eq_iff_index_eq del: nth_map)
qed

text \<open>The first hit goes: what the erased entry hid becomes visible, everything else stays.\<close>

lemma erase_first:
  "find t k < length t \<Longrightarrow> k' \<noteq> k \<Longrightarrow>
   by_key key (take (find t k) t @ drop (find t k + 1) t) k' = by_key key t k'"
proof -
  assume less: "find t k < length t" and k': "k' \<noteq> k"
  let ?i = "find t k"
  have t: "t = take ?i t @ t ! ?i # drop (?i + 1) t" using less by (simp add: id_take_nth_drop)
  have "by_key key t k' = by_key key (take ?i t @ t ! ?i # drop (?i + 1) t) k'" using t by simp
  also have "\<dots> = by_key key (take ?i t @ drop (?i + 1) t) k'"
    using find_hit [OF less] k' by (simp add: by_key_append map_add_def split: option.split)
  finally show ?thesis by simp
qed

end

lemma node_index_find_if: "node_index key (\<lambda>t k. find_if (\<lambda>v. key v = k) t)"
  by (unfold_locales; (rule find_if_le | drule find_if_sat, assumption | drule find_if_first, assumption))

interpretation host_index: node_index m_hostname find_host
  unfolding find_host_def by (rule node_index_find_if)

interpretation suid_index: node_index m_suid find_suid
  unfolding find_suid_def by (rule node_index_find_if)

interpretation addr_index: node_index m_addr find_addr
  unfolding find_addr_def by (rule node_index_find_if)

interpretation type_index: node_index m_type find_type
  unfolding find_type_def by (rule node_index_find_if)

section \<open>Copying\<close>

lemma table_copy_id [simp]: "netspace_table_copy t = t"
  by (induction t) (simp_all add: netspace_table_copy_def)

section \<open>Erasing\<close>

lemma erase_node_less [simp]:
  "i < length t \<Longrightarrow> erase_node t i = Inr (take i t @ drop (i + 1) t)"
  by (simp add: erase_node_def)

lemma erase_node_at_end [simp]: "erase_node t (length t) = Inr t"
  by (simp add: erase_node_def)

lemma erase_node_length:
  "erase_node t i = Inr t' \<Longrightarrow> length t' = (if i < length t then length t - 1 else length t)"
  by (auto simp: erase_node_def split: if_splits)

lemma find_addr_text_string [simp]:
  "asio_ok io \<Longrightarrow> find_addr_text io t (addr_string io a) = Inr (find_addr t a)"
  by (simp add: find_addr_text_def)

lemma find_type_from_le: "find_type_from t nt s = Inr i \<Longrightarrow> s \<le> i \<and> i \<le> length t"
  using find_if_le [of "\<lambda>v. m_type v = nt" "drop s t"]
  by (auto simp: find_type_from_def split: if_splits)

lemma find_type_from_begin: "find_type_from t nt (table_begin t) = Inr (find_type t nt)"
  by (simp add: find_type_from_def find_type_def table_begin_def)

end
