(* ===== verification/Netspace_Url.thy ===== *)
theory Netspace_Url
  imports Prelude
begin

text \<open>
  \<open>shared/infrastructure/netspace_url.cpp\<close>: the URL \<open>spring://route:geosub/resource?query\<close>.
  \<open>decode_char\<close> is the body of the decoder's loop, folded over the text and its terminator. The
  loop counter is a 32-bit integer: it covers every text below 2^32 - 1 bytes, and a packet's
  content is shorter than that by the prefix. The lemmas show which components a text denotes,
  that printing and decoding are inverse on well-formed URLs, and what a separator outside of its
  component does.
\<close>

record netspace_url =
  m_url :: string
  m_gsn :: "string list"
  m_glq :: string
  m_res :: string
  m_spq :: string

datatype cmpt = Cmpt_gsn | Cmpt_glq | Cmpt_res | Cmpt_spq

definition netspace_url_empty :: netspace_url where
  "netspace_url_empty = \<lparr>m_url = [], m_gsn = [], m_glq = [], m_res = [], m_spq = []\<rparr>"

definition push_gsn :: "string \<Rightarrow> netspace_url \<Rightarrow> netspace_url" where
  "push_gsn t u = u\<lparr>m_gsn := m_gsn u @ [t]\<rparr>"

text \<open>The accessors return references to the parts; what is done through one is done to the member.\<close>

definition in_static_route :: "(string list \<Rightarrow> string list) \<Rightarrow> netspace_url \<Rightarrow> netspace_url" where
  "in_static_route f u = u\<lparr>m_gsn := f (m_gsn u)\<rparr>"

definition in_geosub_query :: "(string \<Rightarrow> string) \<Rightarrow> netspace_url \<Rightarrow> netspace_url" where
  "in_geosub_query f u = u\<lparr>m_glq := f (m_glq u)\<rparr>"

definition in_resource :: "(string \<Rightarrow> string) \<Rightarrow> netspace_url \<Rightarrow> netspace_url" where
  "in_resource f u = u\<lparr>m_res := f (m_res u)\<rparr>"

definition in_query :: "(string \<Rightarrow> string) \<Rightarrow> netspace_url \<Rightarrow> netspace_url" where
  "in_query f u = u\<lparr>m_spq := f (m_spq u)\<rparr>"

fun decode_char :: "char \<Rightarrow> string \<times> cmpt \<times> netspace_url \<Rightarrow> string \<times> cmpt \<times> netspace_url" where
  "decode_char ch (t, st, u) =
     (if ch = CHR ''.'' then ([], st, push_gsn t u)
      else if ch = CHR '':'' then ([], Cmpt_glq, push_gsn t u)
      else if ch = CHR ''/'' then
        ([], Cmpt_res,
         if st = Cmpt_gsn then push_gsn t u
         else if st = Cmpt_glq then u\<lparr>m_glq := t\<rparr> else u)
      else if ch = CHR ''?'' then
        ([], Cmpt_spq,
         if st = Cmpt_gsn then push_gsn t u
         else if st = Cmpt_glq then u\<lparr>m_glq := t\<rparr>
         else if st = Cmpt_res then u\<lparr>m_res := t\<rparr> else u)
      else if ch = NUL then
        ([], st,
         if st = Cmpt_gsn then push_gsn t u
         else if st = Cmpt_glq then u\<lparr>m_glq := t\<rparr>
         else if st = Cmpt_res then u\<lparr>m_res := t\<rparr>
         else u\<lparr>m_spq := t\<rparr>)
      else (t @ [ch], st, u))"

definition decode_loop :: "string \<Rightarrow> netspace_url \<Rightarrow> netspace_url" where
  "decode_loop s u = snd (snd (fold decode_char (s @ [NUL]) ([], Cmpt_gsn, u)))"

definition decode :: "netspace_url \<Rightarrow> netspace_url result" where
  "decode u =
     (if length (m_url u) \<le> 9 \<or> take 9 (m_url u) \<noteq> ''spring://'' then Inl (Throw Netspace_malformed_url)
      else let u' = decode_loop (drop 9 (m_url u)) u in
        if length (m_gsn u') = 0 then Inl (Throw Netspace_malformed_url) else Inr u')"

definition netspace_url_of :: "string \<Rightarrow> netspace_url result" where
  "netspace_url_of url = decode (netspace_url_empty\<lparr>m_url := url\<rparr>)"

definition netspace_url_copy :: "netspace_url \<Rightarrow> netspace_url" where
  "netspace_url_copy orig = netspace_url_empty\<lparr>m_url := m_url orig\<rparr>"

definition top_network :: "netspace_url \<Rightarrow> string result" where
  "top_network u = (if m_gsn u = [] then Inl (Undefined Empty_container) else Inr (last (m_gsn u)))"

text \<open>\<open>static_route()\<close> hands out the vector itself; the handlers call these on it.\<close>

definition route_front :: "netspace_url \<Rightarrow> string result" where
  "route_front u = (if m_gsn u = [] then Inl (Undefined Empty_container) else Inr (hd (m_gsn u)))"

definition route_back :: "netspace_url \<Rightarrow> string result" where
  "route_back u = (if m_gsn u = [] then Inl (Undefined Empty_container) else Inr (last (m_gsn u)))"

definition route_pop_back :: "netspace_url \<Rightarrow> netspace_url result" where
  "route_pop_back u = (if m_gsn u = [] then Inl (Undefined Empty_container)
                       else Inr (u\<lparr>m_gsn := butlast (m_gsn u)\<rparr>))"

fun route_text :: "string list \<Rightarrow> string" where
  "route_text [] = []"
| "route_text [x] = x"
| "route_text (x # y # xs) = x @ ''.'' @ route_text (y # xs)"

definition url_text :: "netspace_url \<Rightarrow> string" where
  "url_text u =
     ''spring://'' @ route_text (m_gsn u)
     @ (if m_glq u \<noteq> [] then '':'' @ m_glq u else [])
     @ (if m_res u \<noteq> [] then ''/'' @ m_res u else [])
     @ (if m_spq u \<noteq> [] then ''?'' @ m_spq u else [])"

definition url_to_string :: "netspace_url \<Rightarrow> string \<times> netspace_url" where
  "url_to_string u = (let s = url_text u in (s, u\<lparr>m_url := s\<rparr>))"

section \<open>Well-formed URLs\<close>

definition plain :: "string \<Rightarrow> bool" where
  "plain s \<longleftrightarrow> list_all (\<lambda>c. c \<notin> {CHR ''.'', CHR '':'', CHR ''/'', CHR ''?'', NUL}) s"

definition url_wf :: "netspace_url \<Rightarrow> bool" where
  "url_wf u \<longleftrightarrow> m_gsn u \<noteq> [] \<and> list_all plain (m_gsn u) \<and> plain (m_glq u) \<and> plain (m_res u)
     \<and> plain (m_spq u) \<and> \<not> (m_gsn u = [[]] \<and> m_glq u = [] \<and> m_res u = [] \<and> m_spq u = [])"

named_theorems url_scan \<open>steps of the decoder\<close>

lemma plain_simps [simp]:
  "plain []" "plain (c # s) \<longleftrightarrow> c \<notin> {CHR ''.'', CHR '':'', CHR ''/'', CHR ''?'', NUL} \<and> plain s"
  "plain (s @ t) \<longleftrightarrow> plain s \<and> plain t"
  by (simp_all add: plain_def)

declare decode_char.simps [simp del]

lemma scan_plain [url_scan]: "plain s \<Longrightarrow> fold decode_char s (t, st, u) = (t @ s, st, u)"
  by (induction s arbitrary: t) (auto simp: decode_char.simps)

lemma scan_dot [url_scan]: "decode_char CHR ''.'' (t, st, u) = ([], st, push_gsn t u)"
  by (simp add: decode_char.simps)

lemma scan_colon [url_scan]: "decode_char CHR '':'' (t, st, u) = ([], Cmpt_glq, push_gsn t u)"
  by (simp add: decode_char.simps)

lemma scan_slash [url_scan]:
  "decode_char CHR ''/'' (t, Cmpt_gsn, u) = ([], Cmpt_res, push_gsn t u)"
  "decode_char CHR ''/'' (t, Cmpt_glq, u) = ([], Cmpt_res, u\<lparr>m_glq := t\<rparr>)"
  "decode_char CHR ''/'' (t, Cmpt_res, u) = ([], Cmpt_res, u)"
  "decode_char CHR ''/'' (t, Cmpt_spq, u) = ([], Cmpt_res, u)"
  by (simp_all add: decode_char.simps)

lemma scan_question [url_scan]:
  "decode_char CHR ''?'' (t, Cmpt_gsn, u) = ([], Cmpt_spq, push_gsn t u)"
  "decode_char CHR ''?'' (t, Cmpt_glq, u) = ([], Cmpt_spq, u\<lparr>m_glq := t\<rparr>)"
  "decode_char CHR ''?'' (t, Cmpt_res, u) = ([], Cmpt_spq, u\<lparr>m_res := t\<rparr>)"
  "decode_char CHR ''?'' (t, Cmpt_spq, u) = ([], Cmpt_spq, u)"
  by (simp_all add: decode_char.simps)

lemma scan_end [url_scan]:
  "decode_char NUL (t, Cmpt_gsn, u) = ([], Cmpt_gsn, push_gsn t u)"
  "decode_char NUL (t, Cmpt_glq, u) = ([], Cmpt_glq, u\<lparr>m_glq := t\<rparr>)"
  "decode_char NUL (t, Cmpt_res, u) = ([], Cmpt_res, u\<lparr>m_res := t\<rparr>)"
  "decode_char NUL (t, Cmpt_spq, u) = ([], Cmpt_spq, u\<lparr>m_spq := t\<rparr>)"
  by (simp_all add: decode_char.simps)

text \<open>A route leaves its last label in the buffer, the others in the vector.\<close>

lemma scan_route [url_scan]:
  "r \<noteq> [] \<Longrightarrow> list_all plain r \<Longrightarrow>
   fold decode_char (route_text r) ([], st, u) = (last r, st, u\<lparr>m_gsn := m_gsn u @ butlast r\<rparr>)"
proof (induction r arbitrary: u rule: route_text.induct)
  case (3 x y xs)
  then show ?case by (simp add: url_scan push_gsn_def)
qed (auto simp: url_scan)

section \<open>When decoding fails\<close>

lemma decode_char_keeps: "m_gsn u \<noteq> [] \<Longrightarrow> m_gsn (snd (snd (decode_char c (t, st, u)))) \<noteq> []"
  by (simp add: decode_char.simps push_gsn_def)

text \<open>Either the scan is still in the route or the route has an entry.\<close>

definition scan_inv :: "string \<times> cmpt \<times> netspace_url \<Rightarrow> bool" where
  "scan_inv s \<longleftrightarrow> fst (snd s) = Cmpt_gsn \<or> m_gsn (snd (snd s)) \<noteq> []"

lemma decode_char_inv: "scan_inv s \<Longrightarrow> scan_inv (decode_char c s)"
  by (cases s) (auto simp: scan_inv_def decode_char.simps push_gsn_def)

lemma fold_decode_inv: "scan_inv s \<Longrightarrow> scan_inv (fold decode_char cs s)"
  by (induction cs arbitrary: s) (auto simp: decode_char_inv)

lemma decode_loop_route: "m_gsn (decode_loop s u) \<noteq> []"
proof -
  obtain t st u' where e: "fold decode_char s ([], Cmpt_gsn, u) = (t, st, u')" by (rule prod_cases3)
  have "scan_inv (fold decode_char s ([], Cmpt_gsn, u))"
    by (rule fold_decode_inv) (simp add: scan_inv_def)
  then have "st = Cmpt_gsn \<or> m_gsn u' \<noteq> []" by (simp add: e scan_inv_def)
  then show ?thesis by (cases st) (auto simp: decode_loop_def e url_scan push_gsn_def)
qed

lemma decode_simp: "decode u =
    (if 9 < length (m_url u) \<and> take 9 (m_url u) = ''spring://'' then Inr (decode_loop (drop 9 (m_url u)) u)
     else Inl (Throw Netspace_malformed_url))"
  by (auto simp: decode_def Let_def decode_loop_route)

lemma decode_loop_url: "m_url (decode_loop s u) = m_url u"
proof -
  have "m_url (snd (snd (fold decode_char cs x))) = m_url (snd (snd x))" for cs x
    by (induction cs arbitrary: x) (auto simp: decode_char.simps push_gsn_def split: prod.splits)
  then show ?thesis by (simp add: decode_loop_def del: fold_append)
qed

section \<open>What a text denotes\<close>

lemma route_text_join: "route_text r = join CHR ''.'' r"
  by (induction r rule: route_text.induct) auto

lemma decode_loop_url_text:
  assumes "url_wf v"
  shows "decode_loop (drop 9 (url_text v)) (netspace_url_empty\<lparr>m_url := x\<rparr>) = v\<lparr>m_url := x\<rparr>"
proof -
  have "m_gsn v \<noteq> []" "list_all plain (m_gsn v)" "plain (m_glq v)" "plain (m_res v)" "plain (m_spq v)"
    using assms by (auto simp: url_wf_def)
  moreover have "butlast r @ [last r] = r" if "r \<noteq> []" for r :: "string list" using that by simp
  ultimately show ?thesis
    by (cases "m_glq v = []"; cases "m_res v = []"; cases "m_spq v = []")
      (simp_all add: url_text_def decode_loop_def url_scan push_gsn_def netspace_url_empty_def)
qed

lemma url_text_long: "url_wf u \<Longrightarrow> 9 < length (url_text u)"
  by (cases "m_gsn u" rule: route_text.cases) (auto simp: url_wf_def url_text_def)

lemma url_of_text:
  assumes "url_wf u"
  shows "netspace_url_of (url_text u) = Inr (u\<lparr>m_url := url_text u\<rparr>)"
proof -
  have "take 9 (url_text u) = ''spring://''" by (simp add: url_text_def)
  with url_text_long [OF assms] decode_loop_url_text [OF assms] show ?thesis
    by (simp add: netspace_url_of_def decode_simp)
qed

section \<open>Properties\<close>

text \<open>C30: Printing a well-formed URL and decoding the text gives the URL back, and printing that
  again gives the same text.\<close>

theorem url_roundtrip:
  assumes "url_wf u"
  shows "\<exists>v. netspace_url_of (fst (url_to_string u)) = Inr v \<and> v = u\<lparr>m_url := url_text u\<rparr>
    \<and> fst (url_to_string v) = fst (url_to_string u)"
  using url_of_text [OF assms] by (simp add: url_to_string_def Let_def url_text_def)

definition sample_url :: netspace_url where
  "sample_url = netspace_url_empty\<lparr>m_gsn := [''cci'', ''esusx'', ''uk''], m_glq := ''tn34'',
     m_res := ''page'', m_spq := ''q=1''\<rparr>"

lemma sample_url_wf: "url_wf sample_url"
  by (simp add: sample_url_def netspace_url_empty_def url_wf_def)

theorem url_roundtrip_witness:
  "\<exists>v. netspace_url_of (fst (url_to_string sample_url)) = Inr v
    \<and> v = sample_url\<lparr>m_url := url_text sample_url\<rparr>
    \<and> fst (url_to_string v) = fst (url_to_string sample_url)"
  by (rule url_roundtrip [OF sample_url_wf])

text \<open>The constructor from a text throws \<open>netspace_malformed_url\<close> exactly when the text does not
  go on after the prefix \<open>spring://\<close>, it throws nothing else, and a decoded URL has a route: the
  check at the end of the decoder never fires.\<close>

lemma url_accepts:
  "case netspace_url_of s of
     Inl e \<Rightarrow> e = Throw Netspace_malformed_url \<and> \<not> (9 < length s \<and> take 9 s = ''spring://'')
   | Inr u \<Rightarrow> 9 < length s \<and> take 9 s = ''spring://'' \<and> m_gsn u \<noteq> [] \<and> m_url u = s"
  by (simp add: netspace_url_of_def decode_simp decode_loop_route decode_loop_url)

text \<open>A dot is a separator in every part of a URL: the first half of a resource such as
  \<open>page.html\<close> ends up as a label of the route, behind the real one, and only the second half is
  taken for the resource.\<close>

lemma url_dot_in_resource:
  assumes "plain host" "plain file" "plain ext"
  shows "\<exists>u. netspace_url_of (''spring://'' @ host @ ''/'' @ file @ ''.'' @ ext) = Inr u
    \<and> m_gsn u = [host, file] \<and> m_res u = ext"
  using assms
  by (simp add: netspace_url_of_def decode_simp decode_loop_def url_scan push_gsn_def netspace_url_empty_def)

lemma url_dot_in_resource_example:
  "\<exists>u. netspace_url_of ''spring://cci/page.html'' = Inr u
    \<and> m_gsn u = [''cci'', ''page''] \<and> m_res u = ''html''"
  using url_dot_in_resource [of "''cci''" "''page''" "''html''"] by simp

text \<open>Copying a decoded URL keeps its text and loses its parts: the first label of the copy's
  route is read from an empty vector, though decoding the copied text would give the URL back.\<close>

lemma url_copy_loses_route:
  assumes "netspace_url_of s = Inr u"
  shows "route_front u = Inr (hd (m_gsn u))
    \<and> route_front (netspace_url_copy u) = Inl (Undefined Empty_container)
    \<and> netspace_url_of (m_url (netspace_url_copy u)) = Inr u"
proof -
  have "m_gsn u \<noteq> [] \<and> m_url u = s"
    using assms by (auto simp: netspace_url_of_def decode_simp decode_loop_route decode_loop_url split: if_splits)
  with assms show ?thesis
    by (simp add: route_front_def netspace_url_copy_def netspace_url_empty_def)
qed

lemma url_copy_loses_route_example:
  "\<exists>u. netspace_url_of (url_text sample_url) = Inr u \<and> route_front u = Inr ''cci''
    \<and> route_front (netspace_url_copy u) = Inl (Undefined Empty_container)"
  using url_copy_loses_route [OF url_of_text [OF sample_url_wf]] url_of_text [OF sample_url_wf]
  by (simp add: sample_url_def)

end
