(* ===== verification/Dvsp_Packet.thy ===== *)
theory Dvsp_Packet
  imports Net_Common
begin

text \<open>
  \<open>shared/include/protocol/dvsp_packet.hpp\<close>, \<open>shared/protocol/dvsp_packet.cpp\<close> and the
  message types and result codes of \<open>protocol_common.hpp\<close>: the packet, its 14-byte packed header
  and its heap block. The content pointer is modelled as a pointer: null, a live block or, after a
  \<open>delete[]\<close> that leaves it in place, dangling. A block that \<open>new\<close> has just allocated is
  filled with zeros here; every caller overwrites the whole of it before anything reads it.
\<close>

section \<open>Message types and result codes\<close>

datatype dvsp_msgtype = Mt_undefined | Mt_gsn_register_host | Mt_gsn_unregister_host
  | Mt_gsn_resolution | Mt_gsn_local_area | Mt_gsn_root_nodes | Mt_gsn_hostname
  | Mt_gsn_request | Mt_gsn_response | Mt_gsn_payload | Mt_gtn_root_nodes | Mt_management_echo

fun msgtype_val :: "dvsp_msgtype \<Rightarrow> char" where
  "msgtype_val Mt_undefined = CHR 0x00"
| "msgtype_val Mt_gsn_register_host = CHR 0x01"
| "msgtype_val Mt_gsn_unregister_host = CHR 0x02"
| "msgtype_val Mt_gsn_resolution = CHR 0x03"
| "msgtype_val Mt_gsn_local_area = CHR 0x04"
| "msgtype_val Mt_gsn_root_nodes = CHR 0x05"
| "msgtype_val Mt_gsn_hostname = CHR 0x06"
| "msgtype_val Mt_gsn_request = CHR 0x07"
| "msgtype_val Mt_gsn_response = CHR 0x08"
| "msgtype_val Mt_gsn_payload = CHR 0x09"
| "msgtype_val Mt_gtn_root_nodes = CHR 0x0A"
| "msgtype_val Mt_management_echo = CHR 0x0B"

datatype dvsp_rcode = Rc_netspace_error | Rc_network_error | Rc_malformed_content
  | Rc_netspace_duplicate | Rc_ok | Rc_fake_udp

fun rcode_val :: "dvsp_rcode \<Rightarrow> 32 word" where
  "rcode_val Rc_netspace_error = 101"
| "rcode_val Rc_network_error = 102"
| "rcode_val Rc_malformed_content = 103"
| "rcode_val Rc_netspace_duplicate = 104"
| "rcode_val Rc_ok = 200"
| "rcode_val Rc_fake_udp = 505"

instantiation dvsp_msgtype :: enum
begin

definition "Enum.enum = [Mt_undefined, Mt_gsn_register_host, Mt_gsn_unregister_host,
  Mt_gsn_resolution, Mt_gsn_local_area, Mt_gsn_root_nodes, Mt_gsn_hostname, Mt_gsn_request,
  Mt_gsn_response, Mt_gsn_payload, Mt_gtn_root_nodes, Mt_management_echo]"

definition "Enum.enum_all P = list_all P (Enum.enum :: dvsp_msgtype list)"

definition "Enum.enum_ex P = list_ex P (Enum.enum :: dvsp_msgtype list)"

instance
proof
  show UNIV: "(UNIV :: dvsp_msgtype set) = set Enum.enum"
    by (auto simp: enum_dvsp_msgtype_def intro: dvsp_msgtype.exhaust)
  show "distinct (Enum.enum :: dvsp_msgtype list)" by (simp add: enum_dvsp_msgtype_def)
  show "Enum.enum_all P \<longleftrightarrow> Ball (UNIV :: dvsp_msgtype set) P" for P
    by (simp add: enum_all_dvsp_msgtype_def UNIV list_all_iff)
  show "Enum.enum_ex P \<longleftrightarrow> Bex (UNIV :: dvsp_msgtype set) P" for P
    by (simp add: enum_ex_dvsp_msgtype_def UNIV list_ex_iff)
qed

end

instantiation dvsp_rcode :: enum
begin

definition "Enum.enum = [Rc_netspace_error, Rc_network_error, Rc_malformed_content,
  Rc_netspace_duplicate, Rc_ok, Rc_fake_udp]"

definition "Enum.enum_all P = list_all P (Enum.enum :: dvsp_rcode list)"

definition "Enum.enum_ex P = list_ex P (Enum.enum :: dvsp_rcode list)"

instance
proof
  show UNIV: "(UNIV :: dvsp_rcode set) = set Enum.enum"
    by (auto simp: enum_dvsp_rcode_def intro: dvsp_rcode.exhaust)
  show "distinct (Enum.enum :: dvsp_rcode list)" by (simp add: enum_dvsp_rcode_def)
  show "Enum.enum_all P \<longleftrightarrow> Ball (UNIV :: dvsp_rcode set) P" for P
    by (simp add: enum_all_dvsp_rcode_def UNIV list_all_iff)
  show "Enum.enum_ex P \<longleftrightarrow> Bex (UNIV :: dvsp_rcode set) P" for P
    by (simp add: enum_ex_dvsp_rcode_def UNIV list_ex_iff)
qed

end

interpretation msgtype_enum: char_enum msgtype_val
proof
  fix x y assume "msgtype_val x = msgtype_val y"
  then show "x = y" by (cases x; cases y; simp)
qed

interpretation rcode_enum: char_enum rcode_val
proof
  fix x y assume "rcode_val x = rcode_val y"
  then show "x = y" by (cases x; cases y; simp)
qed

section \<open>The header\<close>

record dvsp_header =
  hdr_type :: char
  hdr_part :: char
  hdr_size :: "32 word"
  addr_orig :: netspace_ipv4
  addr_dest :: netspace_ipv4

definition dvsp_header_default :: dvsp_header where
  "dvsp_header_default = \<lparr>hdr_type = msgtype_val Mt_undefined, hdr_part = CHR 0x00, hdr_size = 0,
     addr_orig = ipv4_zero, addr_dest = ipv4_zero\<rparr>"

definition sizeof_header :: nat where "sizeof_header = 14"

definition header_bytes :: "dvsp_header \<Rightarrow> bytes" where
  "header_bytes h = hdr_type h # hdr_part h # word_bytes 4 (hdr_size h)
     @ ipv4_bytes (addr_orig h) @ ipv4_bytes (addr_dest h)"

definition bytes_header :: "bytes \<Rightarrow> dvsp_header" where
  "bytes_header s = \<lparr>hdr_type = s ! 0, hdr_part = s ! 1, hdr_size = bytes_word (take 4 (drop 2 s)),
     addr_orig = bytes_ipv4 (take 4 (drop 6 s)), addr_dest = bytes_ipv4 (take 4 (drop 10 s))\<rparr>"

text \<open>\<open>extract_header\<close>: the header at a pointer into a buffer.\<close>

definition extract_header :: "bytes \<Rightarrow> dvsp_header result" where
  "extract_header buf = read_obj bytes_header sizeof_header buf 0"

definition ns_ipv4_str :: "netspace_ipv4 \<Rightarrow> string" where
  "ns_ipv4_str addr = (case addr of Ipv4 a b c d \<Rightarrow>
     decimal (of_char a) @ ''.'' @ decimal (of_char b) @ ''.''
     @ decimal (of_char c) @ ''.'' @ decimal (of_char d))"

section \<open>The packet\<close>

datatype heap_ptr = Null_ptr | Live bytes | Dangling

record dvsp_packet =
  m_header :: dvsp_header
  m_content :: heap_ptr

text \<open>\<open>header()\<close>: of a constant packet, and as a reference to write through.\<close>

definition packet_header :: "dvsp_packet \<Rightarrow> dvsp_header" where
  "packet_header p = m_header p"

definition in_header :: "(dvsp_header \<Rightarrow> dvsp_header) \<Rightarrow> dvsp_packet \<Rightarrow> dvsp_packet" where
  "in_header f p = p\<lparr>m_header := f (m_header p)\<rparr>"

definition read_ptr :: "heap_ptr \<Rightarrow> nat \<Rightarrow> nat \<Rightarrow> bytes result" where
  "read_ptr ptr off n =
     (if n = 0 then Inr []
      else case ptr of
        Null_ptr \<Rightarrow> Inl (Undefined Null_deref)
      | Dangling \<Rightarrow> Inl (Undefined Use_after_free)
      | Live b \<Rightarrow> read_mem b off n)"

definition write_ptr :: "heap_ptr \<Rightarrow> bytes \<Rightarrow> heap_ptr result" where
  "write_ptr ptr d =
     (if d = [] then Inr ptr
      else case ptr of
        Null_ptr \<Rightarrow> Inl (Undefined Null_deref)
      | Dangling \<Rightarrow> Inl (Undefined Use_after_free)
      | Live b \<Rightarrow> if length d \<le> length b then Inr (Live (d @ drop (length d) b))
                  else Inl (Undefined Oob_write))"

definition packet_default :: dvsp_packet where
  "packet_default = \<lparr>m_header = dvsp_header_default, m_content = Null_ptr\<rparr>"

text \<open>\<open>reset\<close>: with size 0 the block is deleted and the pointer stays.\<close>

definition reset :: "nat \<Rightarrow> dvsp_packet \<Rightarrow> dvsp_packet result" where
  "reset sz p =
     (case m_content p of
        Dangling \<Rightarrow> Inl (Undefined Double_free)
      | c \<Rightarrow>
        (let p' = p\<lparr>m_header := (m_header p)\<lparr>hdr_size := word_of_nat sz\<rparr>\<rparr> in
         if sz = 0 then Inr (p'\<lparr>m_content := (if c = Null_ptr then Null_ptr else Dangling)\<rparr>)
         else Inr (p'\<lparr>m_content := Live (replicate sz NUL)\<rparr>)))"

definition copy_content :: "bytes \<Rightarrow> dvsp_packet \<Rightarrow> dvsp_packet result" where
  "copy_content d p = bindR (reset (length d) p) (\<lambda>p'.
     bindR (write_ptr (m_content p') d) (\<lambda>c. Inr (p'\<lparr>m_content := c\<rparr>)))"

definition str_content :: "string \<Rightarrow> dvsp_packet \<Rightarrow> dvsp_packet result" where
  "str_content d p = noexcept_call (bindR (reset (length d) p) (\<lambda>p'.
     bindR (write_ptr (m_content p') d) (\<lambda>c. Inr (p'\<lparr>m_content := c\<rparr>))))"

definition packet_clear :: "dvsp_packet \<Rightarrow> dvsp_packet result" where
  "packet_clear p = reset 0 (p\<lparr>m_header := dvsp_header_default\<rparr>)"

definition packet_copy :: "dvsp_packet \<Rightarrow> dvsp_packet result" where
  "packet_copy orig = bindR (read_ptr (m_content orig) 0 (unat (hdr_size (m_header orig)))) (\<lambda>b.
     Inr \<lparr>m_header = m_header orig, m_content = Live b\<rparr>)"

definition packet_destroy :: "dvsp_packet \<Rightarrow> unit result" where
  "packet_destroy p = (if m_content p = Dangling then Inl (Undefined Double_free) else Inr ())"

definition no_content :: "dvsp_packet \<Rightarrow> bool" where
  "no_content p \<longleftrightarrow> hdr_size (m_header p) = 0 \<or> hdr_size (m_header p) \<noteq> 0 \<and> m_content p = Null_ptr"

text \<open>\<open>content()\<close>: a reference to the first byte, that is, the pointer.\<close>

definition packet_content :: "dvsp_packet \<Rightarrow> heap_ptr result" where
  "packet_content p = (if no_content p then Inl (Throw Dvsp_empty_content) else Inr (m_content p))"

definition content_as :: "(bytes \<Rightarrow> 'a) \<Rightarrow> nat \<Rightarrow> dvsp_packet \<Rightarrow> nat \<Rightarrow> 'a result" where
  "content_as dec n p off = bindR (read_ptr (m_content p) off n) (\<lambda>b. Inr (dec b))"

text \<open>\<open>to_string(offset)\<close>: the length is unsigned, an offset past the size wraps it round.\<close>

definition packet_to_string :: "dvsp_packet \<Rightarrow> nat \<Rightarrow> string result" where
  "packet_to_string p off =
     (if no_content p then Inl (Throw Dvsp_empty_content)
      else let sz = unat (hdr_size (m_header p)) in
        if sz < off then Inl (Throw Std_length_error)
        else read_ptr (m_content p) off (sz - off))"

definition serialise :: "dvsp_packet \<Rightarrow> bytes result" where
  "serialise p =
     (if hdr_size (m_header p) \<noteq> 0 \<and> m_content p = Null_ptr then Inl (Throw Dvsp_empty_content)
      else bindR (read_ptr (m_content p) 0 (unat (hdr_size (m_header p)))) (\<lambda>b.
        Inr (header_bytes (m_header p) @ b)))"

definition deserialise :: "bytes \<Rightarrow> dvsp_packet \<Rightarrow> dvsp_packet result" where
  "deserialise serial p =
     bindR (extract_header serial) (\<lambda>h.
     bindR (reset (unat (hdr_size h)) (p\<lparr>m_header := h\<rparr>)) (\<lambda>p'.
       if hdr_size (m_header p') = 0 then Inr p'
       else bindR (read_mem serial sizeof_header (unat (hdr_size (m_header p')))) (\<lambda>d.
         bindR (write_ptr (m_content p') d) (\<lambda>c. Inr (p'\<lparr>m_content := c\<rparr>)))))"

definition packet_of_serial :: "bytes \<Rightarrow> dvsp_packet result" where
  "packet_of_serial serial = deserialise serial packet_default"

definition packet_size :: "dvsp_packet \<Rightarrow> nat" where
  "packet_size p = sizeof_header + unat (hdr_size (m_header p))"

text \<open>\<open>dump_frames\<close>: the bytes it reads, to write them to the file. The file is taken to open: the code
  does not check \<open>fopen\<close>, and a null \<open>FILE*\<close> would be undefined behaviour here.\<close>

definition dump_frames :: "bytes \<Rightarrow> bytes result" where
  "dump_frames buf = bindR (extract_header buf) (\<lambda>h. read_mem buf 0 (sizeof_header + unat (hdr_size h)))"

section \<open>The header's representation\<close>

lemma length_header_bytes [layout, simp]: "length (header_bytes h) = sizeof_header"
  by (simp add: header_bytes_def sizeof_header_def)

lemma bytes_header_bytes [simp]: "bytes_header (header_bytes h) = h"
  by (simp add: bytes_header_def header_bytes_def)

interpretation header_codec: byte_codec header_bytes bytes_header sizeof_header "\<lambda>_. True"
  by unfold_locales (auto simp: layout)

lemma extract_header_front [simp]: "extract_header (header_bytes h @ rest) = Inr h"
  unfolding extract_header_def by (rule header_codec.read_front) simp

lemma extract_header_short: "length buf < sizeof_header \<Longrightarrow> extract_header buf = Inl (Undefined Oob_read)"
  unfolding extract_header_def by (rule header_codec.read_short) simp

lemma extract_header_long:
  "sizeof_header \<le> length buf \<Longrightarrow> extract_header buf = Inr (bytes_header (take sizeof_header buf))"
  by (simp add: extract_header_def read_obj_def)

lemma ns_ipv4_str_eq: "ns_ipv4_str a = ipv4_to_string a"
  by (cases a) (simp add: ns_ipv4_str_def)

section \<open>Well-formed packets\<close>

text \<open>The block has the size the header says; no content may also be a null pointer.\<close>

definition packet_wf :: "dvsp_packet \<Rightarrow> bool" where
  "packet_wf p \<longleftrightarrow> (case m_content p of
      Null_ptr \<Rightarrow> hdr_size (m_header p) = 0
    | Live b \<Rightarrow> length b = unat (hdr_size (m_header p))
    | Dangling \<Rightarrow> False)"

definition packet_data :: "dvsp_packet \<Rightarrow> bytes" where
  "packet_data p = (case m_content p of Live b \<Rightarrow> b | _ \<Rightarrow> [])"

lemma packet_wf_default [simp]: "packet_wf packet_default"
  by (simp add: packet_wf_def packet_default_def dvsp_header_default_def)

lemma packet_default_data [simp]: "packet_data packet_default = []"
  by (simp add: packet_data_def packet_default_def)

lemma length_packet_data: "packet_wf p \<Longrightarrow> length (packet_data p) = unat (hdr_size (m_header p))"
  by (auto simp: packet_wf_def packet_data_def split: heap_ptr.splits)

lemma read_ptr_wf:
  "packet_wf p \<Longrightarrow> off + n \<le> unat (hdr_size (m_header p)) \<Longrightarrow>
   read_ptr (m_content p) off n = Inr (take n (drop off (packet_data p)))"
  by (auto simp: packet_wf_def packet_data_def read_ptr_def split: heap_ptr.splits)

lemma read_ptr_short:
  "packet_wf p \<Longrightarrow> unat (hdr_size (m_header p)) < off + n \<Longrightarrow> 0 < n \<Longrightarrow>
   \<exists>u. read_ptr (m_content p) off n = Inl (Undefined u)"
  by (auto simp: packet_wf_def read_ptr_def split: heap_ptr.splits)

lemma content_as_ok:
  "packet_wf p \<Longrightarrow> off + n \<le> unat (hdr_size (m_header p)) \<Longrightarrow>
   content_as dec n p off = Inr (dec (take n (drop off (packet_data p))))"
  by (simp add: content_as_def read_ptr_wf)

lemma content_as_short:
  "packet_wf p \<Longrightarrow> unat (hdr_size (m_header p)) < off + n \<Longrightarrow> 0 < n \<Longrightarrow>
   \<exists>u. content_as dec n p off = Inl (Undefined u)"
  using read_ptr_short [of p off n] by (auto simp: content_as_def)

lemma destroy_wf [simp]: "packet_wf p \<Longrightarrow> packet_destroy p = Inr ()"
  by (auto simp: packet_wf_def packet_destroy_def)

text \<open>Filling: any content of 1 to 2^32 - 1 bytes, whatever was there before.\<close>

definition filled :: "bytes \<Rightarrow> dvsp_packet \<Rightarrow> dvsp_packet" where
  "filled d p = \<lparr>m_header = (m_header p)\<lparr>hdr_size := word_of_nat (length d)\<rparr>,
     m_content = (if d = [] then Null_ptr else Live d)\<rparr>"

lemma str_content_eq: "str_content d p = noexcept_call (copy_content d p)"
  by (simp add: str_content_def copy_content_def)

lemma copy_content_filled [simp]:
  "packet_wf p \<Longrightarrow> d \<noteq> [] \<or> m_content p = Null_ptr \<Longrightarrow> copy_content d p = Inr (filled d p)"
  by (cases p; cases "m_content p")
    (auto simp: copy_content_def reset_def write_ptr_def filled_def packet_wf_def)

lemma str_content_filled [simp]:
  "packet_wf p \<Longrightarrow> d \<noteq> [] \<or> m_content p = Null_ptr \<Longrightarrow> str_content d p = Inr (filled d p)"
  by (simp add: str_content_eq)

text \<open>Emptying a packet that owns a block leaves the deleted block in place.\<close>

lemma copy_content_dangles: "m_content p = Live b \<Longrightarrow>
  copy_content [] p = Inr (p\<lparr>m_header := (m_header p)\<lparr>hdr_size := 0\<rparr>, m_content := Dangling\<rparr>)"
  by (simp add: copy_content_def reset_def write_ptr_def)

lemma unat_word_of_nat_32 [simp]: "n < 2 ^ 32 \<Longrightarrow> unat (word_of_nat n :: 32 word) = n"
  by (simp add: unat_of_nat)

lemma filled_wf: "length d < 2 ^ 32 \<Longrightarrow> packet_wf (filled d p)"
  by (auto simp: packet_wf_def filled_def)

lemma filled_simps [simp]:
  "packet_data (filled d p) = d"
  "m_header (filled d p) = (m_header p)\<lparr>hdr_size := word_of_nat (length d)\<rparr>"
  by (simp_all add: packet_data_def filled_def)

lemma packet_copy_wf:
  "packet_wf p \<Longrightarrow> packet_copy p = Inr \<lparr>m_header = m_header p, m_content = Live (packet_data p)\<rparr>"
  using length_packet_data [of p] by (simp add: packet_copy_def read_ptr_wf)

lemma packet_to_string_wf:
  "packet_wf p \<Longrightarrow> packet_data p \<noteq> [] \<Longrightarrow> off \<le> length (packet_data p) \<Longrightarrow>
   packet_to_string p off = Inr (drop off (packet_data p))"
  using length_packet_data [of p]
  by (auto simp: packet_to_string_def no_content_def read_ptr_wf packet_wf_def packet_data_def)

lemma packet_to_string_empty:
  "packet_wf p \<Longrightarrow> packet_data p = [] \<Longrightarrow> packet_to_string p off = Inl (Throw Dvsp_empty_content)"
  using length_packet_data [of p] by (simp add: packet_to_string_def no_content_def unat_eq_zero)

section \<open>Serialisation\<close>

lemma serialise_wf: "packet_wf p \<Longrightarrow> serialise p = Inr (header_bytes (m_header p) @ packet_data p)"
  using length_packet_data [of p]
  by (auto simp: serialise_def read_ptr_wf packet_wf_def split: heap_ptr.splits)

lemma length_serialise: "serialise p = Inr s \<Longrightarrow> length s = packet_size p"
  by (auto simp: serialise_def packet_size_def bindR_eq_Inr read_ptr_def read_mem_eq_Inr
      split: if_splits heap_ptr.splits)

lemma packet_of_serial_eq:
  "packet_of_serial s =
    (if length s < sizeof_header then Inl (Undefined Oob_read)
     else let h = bytes_header (take sizeof_header s); n = unat (hdr_size h) in
       if length s < sizeof_header + n then Inl (Undefined Oob_read)
       else Inr \<lparr>m_header = h, m_content =
              (if n = 0 then Null_ptr else Live (take n (drop sizeof_header s)))\<rparr>)"
  using unat_gt_0 [of "hdr_size (bytes_header (take sizeof_header s))"]
  by (auto simp: packet_of_serial_def deserialise_def extract_header_short extract_header_long
      reset_def packet_default_def write_ptr_def Let_def unat_eq_zero)

lemma packet_of_serial_wf: "packet_of_serial s = Inr p \<Longrightarrow> packet_wf p"
  by (auto simp: packet_of_serial_eq packet_wf_def Let_def unat_eq_zero split: if_splits)

lemma packet_of_serial_app:
  "unat (hdr_size h) = length d \<Longrightarrow> packet_of_serial (header_bytes h @ d @ rest) =
     Inr \<lparr>m_header = h, m_content = (if d = [] then Null_ptr else Live d)\<rparr>"
  by (auto simp: packet_of_serial_eq Let_def)

lemma packet_roundtrip:
  assumes "packet_wf p" "serialise p = Inr s"
  shows "\<exists>q. packet_of_serial (s @ rest) = Inr q \<and> packet_wf q \<and> m_header q = m_header p
    \<and> packet_data q = packet_data p"
  using assms length_packet_data [of p]
  by (auto simp: serialise_wf packet_of_serial_app packet_wf_def packet_data_def unat_eq_zero)

lemma dump_frames_eq: "dump_frames s = bindR (packet_of_serial s) (\<lambda>p. Inr (take (packet_size p) s))"
  by (auto simp: dump_frames_def packet_of_serial_eq extract_header_short extract_header_long
      packet_size_def Let_def)

section \<open>Properties\<close>

text \<open>C28: A well-formed packet serialises to exactly \<open>size()\<close> bytes, and the constructor that
  reads a buffer starting with those bytes, whatever follows them, rebuilds a packet with the same
  header and the same content.\<close>

theorem packet_serial_roundtrip:
  assumes "packet_wf p"
  shows "\<exists>s. serialise p = Inr s \<and> length s = packet_size p \<and>
    (\<forall>rest. \<exists>q. packet_of_serial (s @ rest) = Inr q \<and> packet_wf q \<and> m_header q = m_header p
      \<and> packet_data q = packet_data p)"
  using serialise_wf [OF assms] length_serialise packet_roundtrip [OF assms] by blast

definition sample_packet :: dvsp_packet where
  "sample_packet = \<lparr>m_header = dvsp_header_default\<lparr>hdr_size := 3\<rparr>, m_content = Live ''abc''\<rparr>"

lemma sample_packet_wf: "packet_wf sample_packet"
  by (simp add: sample_packet_def packet_wf_def)

theorem packet_serial_roundtrip_witness:
  "\<exists>s. serialise sample_packet = Inr s \<and> length s = packet_size sample_packet \<and>
    (\<forall>rest. \<exists>q. packet_of_serial (s @ rest) = Inr q \<and> packet_wf q
      \<and> m_header q = m_header sample_packet \<and> packet_data q = packet_data sample_packet)"
  by (rule packet_serial_roundtrip [OF sample_packet_wf])

text \<open>C29: Reading a packet from a buffer trusts the size in the header: it succeeds exactly when the
  buffer holds the header and as many bytes as the header announces, and otherwise reads past the
  end of the buffer.\<close>

theorem packet_of_serial_bounds:
  "packet_of_serial s =
    (let h = bytes_header (take sizeof_header s); n = unat (hdr_size h) in
     if sizeof_header + n \<le> length s \<and> sizeof_header \<le> length s
     then Inr \<lparr>m_header = h, m_content = (if n = 0 then Null_ptr else Live (take n (drop sizeof_header s)))\<rparr>
     else Inl (Undefined Oob_read))"
  by (auto simp: packet_of_serial_eq Let_def)

text \<open>Filling a packet that owns a block with nothing leaves the pointer to the deleted block
  in place: destroying the packet, or filling it again, deletes the block a second time.\<close>

lemma emptied_packet_dangles:
  assumes "m_content p = Live b"
  shows "\<exists>q. str_content [] p = Inr q \<and> packet_destroy q = Inl (Undefined Double_free)
    \<and> str_content d q = Inl (Undefined Double_free) \<and> packet_clear q = Inl (Undefined Double_free)"
  using copy_content_dangles [OF assms]
  by (simp add: str_content_eq packet_destroy_def copy_content_def reset_def packet_clear_def)

lemma emptied_packet_dangles_example:
  "\<exists>q. str_content [] sample_packet = Inr q \<and> packet_destroy q = Inl (Undefined Double_free)
    \<and> str_content ''x'' q = Inl (Undefined Double_free) \<and> packet_clear q = Inl (Undefined Double_free)"
  using emptied_packet_dangles [of sample_packet "''abc''" "''x''"] by (simp add: sample_packet_def)

end
