(* ===== verification/Protocol_Common.thy ===== *)
theory Protocol_Common
  imports Netnode Dvsp_Packet
begin

text \<open>
  \<open>shared/include/protocol/protocol_common.hpp\<close>: the frames a packet's content holds, their
  constructors, the textual list of nodes and the hexadecimal body of an HTTP request. Arrays the
  constructors leave partly uninitialised take their old contents as a parameter \<open>junk\<close>. The two
  digits handed to \<open>strtol\<close> stand in an array of two bytes without a terminator, so \<open>strtol\<close>
  reads on into the stack: \<open>stk\<close> is what follows the array.
\<close>

section \<open>Frames and their representation\<close>

definition hostname_size :: nat where "hostname_size = 125"

record frame_register =
  fr_type :: char
  fr_len :: char
  fr_protocol :: char
  fr_hostname :: bytes

record frame_hostname =
  fh_response :: "32 word"
  fh_protocol :: char
  fh_len :: char
  fh_hostname :: bytes

record frame_address =
  fa_response :: "32 word"
  fa_protocol :: char
  fa_addr :: netspace_ipv4

record frame_network =
  fn_response :: "32 word"
  fn_total :: char
  fn_size :: "16 word"

record frame_service =
  fs_response :: "32 word"
  fs_len :: char

text \<open>\<open>frame_response_code\<close> has one field; its representation is that of the code.\<close>

definition response_code_bytes :: "32 word \<Rightarrow> bytes" where
  "response_code_bytes r = word_bytes 4 r"

definition bytes_response_code :: "bytes \<Rightarrow> 32 word" where
  "bytes_response_code s = bytes_word (take 4 s)"

definition register_bytes :: "frame_register \<Rightarrow> bytes" where
  "register_bytes f = fr_type f # fr_len f # fr_protocol f # fr_hostname f"

definition bytes_register :: "bytes \<Rightarrow> frame_register" where
  "bytes_register s = \<lparr>fr_type = s ! 0, fr_len = s ! 1, fr_protocol = s ! 2,
     fr_hostname = take 125 (drop 3 s)\<rparr>"

definition hostname_bytes :: "frame_hostname \<Rightarrow> bytes" where
  "hostname_bytes f = word_bytes 4 (fh_response f) @ [fh_protocol f, fh_len f] @ fh_hostname f"

definition bytes_hostname :: "bytes \<Rightarrow> frame_hostname" where
  "bytes_hostname s = \<lparr>fh_response = bytes_word (take 4 s), fh_protocol = s ! 4, fh_len = s ! 5,
     fh_hostname = take 125 (drop 6 s)\<rparr>"

definition address_bytes :: "frame_address \<Rightarrow> bytes" where
  "address_bytes f = word_bytes 4 (fa_response f) @ [fa_protocol f] @ ipv4_bytes (fa_addr f)"

definition bytes_address :: "bytes \<Rightarrow> frame_address" where
  "bytes_address s = \<lparr>fa_response = bytes_word (take 4 s), fa_protocol = s ! 4,
     fa_addr = bytes_ipv4 (take 4 (drop 5 s))\<rparr>"

definition bytes_network :: "bytes \<Rightarrow> frame_network" where
  "bytes_network s = \<lparr>fn_response = bytes_word (take 4 s), fn_total = s ! 4,
     fn_size = bytes_word (take 2 (drop 5 s))\<rparr>"

definition bytes_service :: "bytes \<Rightarrow> frame_service" where
  "bytes_service s = \<lparr>fs_response = bytes_word (take 4 s), fs_len = s ! 4\<rparr>"

definition service_bytes :: "frame_service \<Rightarrow> bytes" where
  "service_bytes f = word_bytes 4 (fs_response f) @ [fs_len f]"

definition sizeof_register :: nat where "sizeof_register = 128"
definition sizeof_response_code :: nat where "sizeof_response_code = 4"
definition sizeof_hostname :: nat where "sizeof_hostname = 131"
definition sizeof_address :: nat where "sizeof_address = 9"
definition sizeof_network :: nat where "sizeof_network = 7"
definition sizeof_service :: nat where "sizeof_service = 5"

section \<open>Constructors\<close>

definition construct_frame_register ::
  "bytes \<Rightarrow> char \<Rightarrow> string \<Rightarrow> char \<Rightarrow> frame_register result" where
  "construct_frame_register junk type hostname proto =
     (if hostname_size < length hostname then Inl (Undefined Oob_write)
      else Inr \<lparr>fr_type = type, fr_len = char_of (length hostname), fr_protocol = proto,
             fr_hostname = hostname @ drop (length hostname) junk\<rparr>)"

definition construct_frame_response_code :: "dvsp_rcode \<Rightarrow> 32 word" where
  "construct_frame_response_code code = rcode_val code"

definition construct_frame_address :: "netspace_addr \<Rightarrow> char \<Rightarrow> frame_address result" where
  "construct_frame_address addr proto = bindR (to_v4 addr) (\<lambda>a.
     Inr \<lparr>fa_response = rcode_val Rc_ok, fa_protocol = proto, fa_addr = a\<rparr>)"

text \<open>The length is stored in a signed byte and read back from it.\<close>

definition construct_frame_hostname :: "bytes \<Rightarrow> string \<Rightarrow> char \<Rightarrow> frame_hostname result" where
  "construct_frame_hostname junk hostname proto =
     (let len = char_of (length hostname); n = schar len in
      if n < 0 \<or> int hostname_size < n then Inl (Undefined Oob_write)
      else Inr \<lparr>fh_response = rcode_val Rc_ok, fh_protocol = proto, fh_len = len,
             fh_hostname = take (nat n) hostname @ drop (nat n) junk\<rparr>)"

text \<open>\<open>construct_frame_service\<close> allocates the frame and the text but never copies the text: it
  assigns from the block to its argument instead, reading a C string out of uninitialised memory.\<close>

definition construct_frame_service :: "bytes \<Rightarrow> string \<Rightarrow> bytes result" where
  "construct_frame_service junk res =
     (let frame = service_bytes \<lparr>fs_response = rcode_val Rc_ok, fs_len = char_of (length res)\<rparr> in
      bindR (c_string (drop sizeof_service junk)) (\<lambda>_. Inr (frame @ drop sizeof_service junk)))"

fun network_entry :: "asio \<Rightarrow> netspace_node \<Rightarrow> string" where
  "network_entry io n =
     m_hostname n @ ''|'' @ m_suid n @ ''|'' @ addr_string io (m_addr n) @ '';''"

definition construct_frame_network :: "asio \<Rightarrow> netspace_node list \<Rightarrow> string" where
  "construct_frame_network io nodes = concat (map (network_entry io) nodes)"

section \<open>The hexadecimal body\<close>

definition CRLF2 :: string where "CRLF2 = [CHR 0x0D, CHR 0x0A, CHR 0x0D, CHR 0x0A]"

definition is_space :: "char \<Rightarrow> bool" where
  "is_space c \<longleftrightarrow> c \<in> {CHR 0x20, CHR 0x09, CHR 0x0A, CHR 0x0B, CHR 0x0C, CHR 0x0D}"

definition hex_digit :: "char \<Rightarrow> nat option" where
  "hex_digit c = (let n = of_char c in
     if 48 \<le> n \<and> n \<le> 57 then Some (n - 48)
     else if 65 \<le> n \<and> n \<le> 70 then Some (n - 55)
     else if 97 \<le> n \<and> n \<le> 102 then Some (n - 87) else None)"

fun strtol_sign :: "string \<Rightarrow> bool \<times> string" where
  "strtol_sign (c # s) = (if c = CHR ''-'' then (True, s) else if c = CHR ''+'' then (False, s)
     else (False, c # s))"
| "strtol_sign [] = (False, [])"

fun strtol_prefix :: "string \<Rightarrow> string" where
  "strtol_prefix (a # b # c # s) =
     (if a = CHR ''0'' \<and> (b = CHR ''x'' \<or> b = CHR ''X'') \<and> hex_digit c \<noteq> None then c # s
      else a # b # c # s)"
| "strtol_prefix s = s"

fun hex_value :: "nat \<Rightarrow> string \<Rightarrow> nat" where
  "hex_value acc [] = acc"
| "hex_value acc (c # s) =
     (case hex_digit c of Some d \<Rightarrow> hex_value (16 * acc + d) s | None \<Rightarrow> acc)"

text \<open>\<open>strtol(s, NULL, 16)\<close> with a 64-bit \<open>long\<close>.\<close>

definition strtol16 :: "string \<Rightarrow> int" where
  "strtol16 s = (case strtol_sign (dropWhile is_space s) of (neg, t) \<Rightarrow>
     let v = int (hex_value 0 (strtol_prefix t)) in
     if neg then max (- (2 ^ 63)) (- v) else min (2 ^ 63 - 1) v)"

definition hex_byte :: "bytes \<Rightarrow> char \<Rightarrow> char \<Rightarrow> char" where
  "hex_byte stk a b = char_of (nat (strtol16 (a # b # stk) mod 256))"

text \<open>The loop over the body: two characters a round, the terminator standing in for a missing
  second one; \<open>n\<close> is the size of the block it writes.\<close>

fun hex_loop :: "bytes \<Rightarrow> nat \<Rightarrow> string \<Rightarrow> bytes \<Rightarrow> bytes result" where
  "hex_loop stk n [] out = Inr out"
| "hex_loop stk n [a] out =
     (if length out < n then Inr (out @ [hex_byte stk a NUL]) else Inl (Undefined Oob_write))"
| "hex_loop stk n (a # b # s) out =
     (if length out < n then hex_loop stk n s (out @ [hex_byte stk a b])
      else Inl (Undefined Oob_write))"

definition http_to_bin :: "bytes \<Rightarrow> bytes \<Rightarrow> bytes result" where
  "http_to_bin stk http =
     bindR (c_string http) (\<lambda>r.
     bindR (substr_from r (pos_add (str_find_sub CRLF2 r) 4)) (\<lambda>split.
       hex_loop stk (length split div 2) split []))"

section \<open>The list of nodes as text\<close>

fun nodes_loop ::
  "asio \<Rightarrow> string \<Rightarrow> nat list \<Rightarrow> nat \<Rightarrow> netspace_node list \<Rightarrow> netspace_node list result" where
  "nodes_loop io details [] offset nodes = Inr nodes"
| "nodes_loop io details (i # is) offset nodes =
     (if details ! i = CHR '';'' then
        bindR (substr details offset i) (\<lambda>ns.
          if length ns \<noteq> 0 then
            bindR (netspace_node_entry io ns) (\<lambda>n. nodes_loop io details is i (nodes @ [n]))
          else nodes_loop io details is i nodes)
      else nodes_loop io details is offset nodes)"

definition nodes_from_string :: "asio \<Rightarrow> string \<Rightarrow> netspace_node list result" where
  "nodes_from_string io details = nodes_loop io details [0..<length details] 0 []"

section \<open>Representation lemmas\<close>

lemmas frame_sizes = sizeof_register_def sizeof_response_code_def sizeof_hostname_def
  sizeof_address_def sizeof_network_def sizeof_service_def hostname_size_def

interpretation register_codec: byte_codec register_bytes bytes_register sizeof_register
    "\<lambda>f. length (fr_hostname f) = 125"
  by unfold_locales (auto simp: register_bytes_def bytes_register_def frame_sizes)

interpretation response_codec: byte_codec response_code_bytes bytes_response_code
    sizeof_response_code "\<lambda>_. True"
  by unfold_locales (auto simp: response_code_bytes_def bytes_response_code_def frame_sizes)

interpretation hostname_codec: byte_codec hostname_bytes bytes_hostname sizeof_hostname
    "\<lambda>f. length (fh_hostname f) = 125"
  by unfold_locales (auto simp: hostname_bytes_def bytes_hostname_def frame_sizes nth_append)

interpretation address_codec: byte_codec address_bytes bytes_address sizeof_address "\<lambda>_. True"
  by unfold_locales (auto simp: address_bytes_def bytes_address_def frame_sizes nth_append)

interpretation service_codec: byte_codec service_bytes bytes_service sizeof_service "\<lambda>_. True"
  by unfold_locales (auto simp: service_bytes_def bytes_service_def frame_sizes nth_append)

lemma of_char_char_of_int: "(of_char (char_of (n::nat)) :: int) = int (n mod 256)"
  by (metis of_char_of of_nat_of_char)

lemma schar_char_of: "n < 128 \<Longrightarrow> schar (char_of n) = int n"
  by (simp add: schar_def Let_def of_char_char_of_int)

lemma construct_frame_hostname_ok:
  "length h \<le> 125 \<Longrightarrow> construct_frame_hostname junk h p =
     Inr \<lparr>fh_response = 200, fh_protocol = p, fh_len = char_of (length h),
          fh_hostname = h @ drop (length h) junk\<rparr>"
  by (simp add: construct_frame_hostname_def Let_def schar_char_of hostname_size_def)

section \<open>Decoding hexadecimal\<close>

definition hex_char :: "nat \<Rightarrow> char" where
  "hex_char d = (if d < 10 then char_of (48 + d) else char_of (87 + d))"

fun hex_encode :: "bytes \<Rightarrow> string" where
  "hex_encode [] = []"
| "hex_encode (c # s) = hex_char (of_char c div 16) # hex_char (of_char c mod 16) # hex_encode s"

lemma hex_digit_char [simp]: "d < 16 \<Longrightarrow> hex_digit (hex_char d) = Some d"
  by (simp add: hex_digit_def hex_char_def Let_def)

lemma hex_digit_not_special: "hex_digit c \<noteq> None \<Longrightarrow>
    \<not> is_space c \<and> c \<noteq> CHR ''-'' \<and> c \<noteq> CHR ''+'' \<and> c \<noteq> CHR ''x'' \<and> c \<noteq> CHR ''X'' \<and> c \<noteq> NUL"
  by (auto simp: hex_digit_def is_space_def)

lemma hex_digit_less: "hex_digit c = Some d \<Longrightarrow> d < 16"
  by (auto simp: hex_digit_def Let_def split: if_splits)

text \<open>Digits are not white space, a sign or a prefix: the value is that of the run of digits.\<close>

lemma strtol16_digits:
  assumes "hex_digit a = Some x" "hex_digit b = Some y" "hex_value (16 * x + y) s < 2 ^ 63"
  shows "strtol16 (a # b # s) = int (hex_value (16 * x + y) s)"
proof -
  have a: "\<not> is_space a" "a \<noteq> CHR ''-''" "a \<noteq> CHR ''+''" and b: "b \<noteq> CHR ''x''" "b \<noteq> CHR ''X''"
    using hex_digit_not_special [of a] hex_digit_not_special [of b] assms by auto
  then have "strtol_prefix (a # b # s) = a # b # s" by (cases s) auto
  with a assms show ?thesis by (simp add: strtol16_def)
qed

definition stops_hex :: "bytes \<Rightarrow> bool" where
  "stops_hex stk \<longleftrightarrow> stk = [] \<or> hex_digit (hd stk) = None"

lemma hex_value_stops: "stops_hex stk \<Longrightarrow> hex_value v stk = v"
  by (cases stk) (auto simp: stops_hex_def)

lemma hex_byte_encode:
  assumes "stops_hex stk"
  shows "hex_byte stk (hex_char (of_char c div 16)) (hex_char (of_char c mod 16)) = c"
proof -
  have c: "(of_char c :: nat) < 256" by (rule nat_of_char_less_256)
  have d: "of_char c div 16 < (16::nat)" using c by arith
  have l: "of_char c < (2 ^ 63 :: nat)" by (rule less_le_trans [OF c]) simp
  have v: "16 * (of_char c div 16) + of_char c mod 16 = (of_char c :: nat)" by simp
  have "strtol16 (hex_char (of_char c div 16) # hex_char (of_char c mod 16) # stk)
      = int (hex_value (16 * (of_char c div 16) + of_char c mod 16) stk)"
    by (rule strtol16_digits) (use d l assms in \<open>simp_all add: hex_value_stops v\<close>)
  then show ?thesis using assms by (simp add: hex_byte_def hex_value_stops v)
qed

lemma length_hex_encode [simp]: "length (hex_encode d) = 2 * length d"
  by (induction d) auto

lemma hex_loop_encode:
  "stops_hex stk \<Longrightarrow> length out + length d \<le> n \<Longrightarrow> hex_loop stk n (hex_encode d) out = Inr (out @ d)"
  by (induction d arbitrary: out) (auto simp: hex_byte_encode)

text \<open>A body of odd length writes one byte past the end of its block.\<close>

lemma hex_loop_odd:
  "odd (length s) \<Longrightarrow> n = length out + length s div 2 \<Longrightarrow> hex_loop stk n s out = Inl (Undefined Oob_write)"
  by (induction stk n s out rule: hex_loop.induct) auto

lemma hex_loop_even:
  "even (length s) \<Longrightarrow> n = length out + length s div 2 \<Longrightarrow>
   \<exists>d. hex_loop stk n s out = Inr (out @ d) \<and> length d = length s div 2"
proof (induction stk n s out rule: hex_loop.induct)
  case (3 stk n a b s out)
  then have "\<exists>d. hex_loop stk n s (out @ [hex_byte stk a b]) = Inr ((out @ [hex_byte stk a b]) @ d)
      \<and> length d = length s div 2"
    by simp
  then show ?case using "3.prems" by fastforce
qed auto

lemma search_take: "take (length pat) s = pat \<Longrightarrow> search pat s = Some 0"
  by (cases s) auto

lemma search_hit: "search pat (h @ pat) = Some (length h) \<Longrightarrow> search pat (h @ pat @ r) = Some (length h)"
proof (induction h)
  case Nil
  then show ?case by (simp add: search_take)
next
  case (Cons c h)
  then have "take (length pat) (c # h @ pat) \<noteq> pat" by (auto split: if_splits)
  then have "take (length pat) (c # h @ pat @ r) \<noteq> pat" by (simp add: take_Cons' split: if_splits)
  then show ?case using Cons by (auto split: if_splits)
qed

lemma hex_encode_no_NUL: "NUL \<notin> set (hex_encode d)"
proof -
  have "NUL \<noteq> hex_char n" if "n < 16" for n
    using hex_digit_not_special [of "hex_char n"] that by auto
  then have "NUL \<noteq> hex_char (of_char c div 16)" "NUL \<noteq> hex_char (of_char c mod 16)" for c
    using nat_of_char_less_256 [of c] by (simp_all add: less_mult_imp_div_less)
  then show ?thesis by (induction d) auto
qed

lemma http_to_bin_body:
  assumes "search CRLF2 (hdr @ CRLF2) = Some (length hdr)" "NUL \<notin> set hdr" "NUL \<notin> set body"
    "length hdr + 4 < 2 ^ 64"
  shows "http_to_bin stk (hdr @ CRLF2 @ body @ NUL # rest) = hex_loop stk (length body div 2) body []"
proof -
  have "c_string (hdr @ CRLF2 @ body @ NUL # rest) = Inr (hdr @ CRLF2 @ body)"
    using assms c_string_terminated [of "hdr @ CRLF2 @ body"] by (simp add: CRLF2_def)
  moreover have "str_find_sub CRLF2 (hdr @ CRLF2 @ body) = length hdr"
    using search_hit [OF assms(1)] by (simp add: str_find_sub_def)
  moreover have "length CRLF2 = 4" by (simp add: CRLF2_def)
  ultimately show ?thesis using assms(4) by (simp add: http_to_bin_def pos_add_def)
qed

section \<open>Frame constructors\<close>

lemma construct_frame_register_ok:
  "length h \<le> 125 \<Longrightarrow> length junk = 125 \<Longrightarrow> \<exists>f. construct_frame_register junk ty h p = Inr f
     \<and> fr_type f = ty \<and> fr_len f = char_of (length h) \<and> fr_protocol f = p
     \<and> length (fr_hostname f) = 125 \<and> take (length h) (fr_hostname f) = h"
  by (simp add: construct_frame_register_def hostname_size_def)

lemma schar_char_of_le: "nat (schar (char_of n)) \<le> n"
  by (auto simp: schar_def Let_def of_char_char_of_int le_nat_iff nat_le_iff intro: mod_less_eq_dividend)

lemma construct_frame_hostname_len:
  "construct_frame_hostname junk h p = Inr f \<Longrightarrow> length junk = 125 \<Longrightarrow> length (fh_hostname f) = 125"
  using schar_char_of_le [of "length h"]
  by (auto simp: construct_frame_hostname_def Let_def hostname_size_def split: if_splits)

section \<open>Properties\<close>

text \<open>A header as \<open>http_to_bin\<close> looks for it: the first blank line is the one that ends it.\<close>

definition http_head :: "string \<Rightarrow> bool" where
  "http_head hdr \<longleftrightarrow> search CRLF2 (hdr @ CRLF2) = Some (length hdr) \<and> NUL \<notin> set hdr
     \<and> length hdr + 4 < 2 ^ 64"

lemma http_head_body:
  "http_head hdr \<Longrightarrow> NUL \<notin> set body \<Longrightarrow>
   http_to_bin stk (hdr @ CRLF2 @ body @ NUL # rest) = hex_loop stk (length body div 2) body []"
  by (simp add: http_head_def http_to_bin_body)

lemma http_head_sample: "http_head ''POST / HTTP/1.1''"
  by (simp add: http_head_def CRLF2_def)

text \<open>C33: A request whose body is the hexadecimal text of some bytes decodes to those bytes,
  provided that the stack after the two-digit array, which \<open>strtol\<close> reads on into, does not happen
  to hold another hexadecimal digit.\<close>

theorem http_body_decodes:
  assumes "http_head hdr" "stops_hex stk"
  shows "http_to_bin stk (hdr @ CRLF2 @ hex_encode d @ NUL # rest) = Inr d"
  using http_head_body [OF assms(1) hex_encode_no_NUL] hex_loop_encode [OF assms(2), of "[]"] by simp

theorem http_body_decodes_witness:
  "http_to_bin [NUL] (''POST / HTTP/1.1'' @ CRLF2 @ ''0801'' @ [NUL]) = Inr [CHR 0x08, CHR 0x01]"
proof -
  have h: "hex_encode [CHR 0x08, CHR 0x01] = ''0801''" by code_simp
  have "stops_hex [NUL]" by (simp add: stops_hex_def hex_digit_def)
  from http_body_decodes [OF http_head_sample this, of "[CHR 0x08, CHR 0x01]" "[]"] h show ?thesis by simp
qed

lemma hex_value_run: "hex_digit c = Some v \<Longrightarrow> stops_hex stk \<Longrightarrow> hex_value a (c # stk) = 16 * a + v"
  by (simp add: hex_value_stops)

lemma hex_byte_digit:
  assumes "hex_digit c = Some v" "stops_hex stk"
  shows "hex_byte (c # stk) (hex_char (of_char x div 16)) (hex_char (of_char x mod 16)) =
    char_of (16 * of_char x + v)"
proof -
  have x: "(of_char x :: nat) < 256" by (rule nat_of_char_less_256)
  have d: "of_char x div 16 < (16::nat)" using x by arith
  have v: "16 * (of_char x div 16) + of_char x mod 16 = (of_char x :: nat)" by simp
  have "16 * of_char x + v < (16 * 256 + 16 :: nat)"
    using x hex_digit_less [OF assms(1)] by linarith
  then have l: "16 * of_char x + v < (2 ^ 63 :: nat)" by simp
  have "strtol16 (hex_char (of_char x div 16) # hex_char (of_char x mod 16) # c # stk)
      = int (hex_value (16 * (of_char x div 16) + of_char x mod 16) (c # stk))"
    by (rule strtol16_digits) (use d l in \<open>simp_all only: v hex_value_run [OF assms] hex_digit_char mod_less_divisor zero_less_numeral\<close>)
  then have "strtol16 (hex_char (of_char x div 16) # hex_char (of_char x mod 16) # c # stk) = int (16 * of_char x + v)"
    by (simp only: v hex_value_run [OF assms])
  then show ?thesis by (simp add: hex_byte_def nat_mod_as_int)
qed

lemma hex_loop_digit:
  "hex_digit c = Some v \<Longrightarrow> stops_hex stk \<Longrightarrow> length out + length d \<le> n \<Longrightarrow>
   hex_loop (c # stk) n (hex_encode d) out = Inr (out @ map (\<lambda>x. char_of (16 * of_char x + v)) d)"
  by (induction d arbitrary: out) (auto simp: hex_byte_digit)

text \<open>When the byte on the stack after the two digits is itself a hexadecimal digit, every byte
  of the body is corrupted: its low four bits become the high ones and the stray digit the low ones.\<close>

lemma http_body_stray_digit:
  assumes "http_head hdr" "hex_digit c = Some v" "stops_hex stk"
  shows "http_to_bin (c # stk) (hdr @ CRLF2 @ hex_encode d @ NUL # rest) =
    Inr (map (\<lambda>x. char_of (16 * of_char x + v)) d)"
  using http_head_body [OF assms(1) hex_encode_no_NUL] hex_loop_digit [OF assms(2,3), of "[]"] by simp

lemma http_body_stray_digit_example:
  "http_to_bin [CHR ''7'', NUL] (''POST / HTTP/1.1'' @ CRLF2 @ ''0801'' @ [NUL]) = Inr [CHR 0x87, CHR 0x17]"
proof -
  have h: "hex_encode [CHR 0x08, CHR 0x01] = ''0801''"
    by code_simp
  have m: "map (\<lambda>x. char_of (16 * of_char x + 7 :: nat)) [CHR 0x08, CHR 0x01] = [CHR 0x87, CHR 0x17]"
    by (simp add: char_of_eq_iff)
  have "stops_hex [NUL]" "hex_digit CHR ''7'' = Some 7" by (simp_all add: stops_hex_def hex_digit_def)
  from http_body_stray_digit [OF http_head_sample this(2,1), of "[CHR 0x08, CHR 0x01]" "[]"] h m
  show ?thesis by simp
qed

text \<open>A body of odd length makes \<open>http_to_bin\<close> write one byte past the end of the block it
  allocated; one of even length never does and gives half as many bytes.\<close>

lemma http_body_length:
  assumes "http_head hdr" "NUL \<notin> set body"
  shows "if odd (length body)
    then http_to_bin stk (hdr @ CRLF2 @ body @ NUL # rest) = Inl (Undefined Oob_write)
    else \<exists>d. http_to_bin stk (hdr @ CRLF2 @ body @ NUL # rest) = Inr d \<and> length d = length body div 2"
  using http_head_body [OF assms] hex_loop_odd [of body "length body div 2" "[]"]
    hex_loop_even [of body "length body div 2" "[]"] by auto

lemma http_body_length_example:
  "http_to_bin [NUL] (''POST / HTTP/1.1'' @ CRLF2 @ ''080'' @ [NUL]) = Inl (Undefined Oob_write)"
  using http_body_length [OF http_head_sample, of "''080''" "[NUL]" "[]"] by simp

text \<open>The entry of a node in the list that \<open>construct_frame_network\<close> writes has the host name
  first and the service identifier second; the constructor that reads an entry expects them the
  other way round, so a listed node comes back with the two exchanged.\<close>

lemma listed_entry_swapped:
  assumes "asio_ok io" "CHR ''|'' \<notin> set (m_hostname n)" "CHR ''|'' \<notin> set (m_suid n)" "m_suid n \<noteq> []"
  shows "netspace_node_entry io (butlast (network_entry io n)) =
    Inr (netspace_node_default\<lparr>m_suid := m_hostname n, m_hostname := m_suid n, m_addr := m_addr n\<rparr>)"
proof -
  have "butlast (network_entry io n) = m_hostname n @ ''|'' @ m_suid n @ ''|'' @ addr_string io (m_addr n)"
    by (simp add: butlast_append)
  then show ?thesis using entry_node_parts [OF assms(2,3,4)] assms(1) by (simp add: entry_node_eq)
qed

lemma listed_entry_swapped_example:
  "netspace_node_entry ref_asio (butlast (network_entry ref_asio
      (netspace_node_default\<lparr>m_hostname := ''cci'', m_suid := ''s1''\<rparr>)))
    = Inr (netspace_node_default\<lparr>m_suid := ''cci'', m_hostname := ''s1''\<rparr>)"
  using listed_entry_swapped [OF asio_ok_ref, of "netspace_node_default\<lparr>m_hostname := ''cci'', m_suid := ''s1''\<rparr>"]
  by (simp add: netspace_node_default_def)

lemma nodes_loop_skip:
  "(\<And>j. j \<in> set is \<Longrightarrow> details ! j \<noteq> CHR '';'') \<Longrightarrow>
   nodes_loop io details (is @ js) off ns = nodes_loop io details js off ns"
  by (induction "is") auto

lemma upt_two: "[0..<n + (Suc m + 1)] = [0..<n] @ n # [Suc n..<n + Suc m] @ [n + Suc m]"
proof -
  have "[0..<n + (Suc m + 1)] = [0..<n] @ [n..<n + (Suc m + 1)]" by (rule upt_add_eq_append) simp
  also have "[n..<n + (Suc m + 1)] = [n..<n + Suc m] @ [n + Suc m..<n + Suc m + 1]"
    using upt_add_eq_append [of n "n + Suc m" 1] by simp
  also have "[n..<n + Suc m] = n # [Suc n..<n + Suc m]" by (simp add: upt_conv_Cons)
  finally show ?thesis by simp
qed

text \<open>Reading a list of two nodes back cuts it wrongly, since the offset of the second entry
  is that of the separator and its length is counted from the start of the list: the second entry is
  parsed with a semicolon at both ends.\<close>

lemma nodes_from_string_two:
  assumes "CHR '';'' \<notin> set a" "CHR '';'' \<notin> set b" "a \<noteq> []"
  shows "nodes_from_string io (a @ '';'' @ b @ '';'') =
    bindR (netspace_node_entry io a) (\<lambda>n.
    bindR (netspace_node_entry io ('';'' @ b @ '';'')) (\<lambda>m. Inr [n, m]))"
proof -
  let ?d = "a @ '';'' @ b @ '';''"
  have at: "?d ! j \<noteq> CHR '';''" if "j \<in> set [0..<length a] \<or> j \<in> set [Suc (length a)..<length a + Suc (length b)]" for j
    using that assms(1,2) by (auto simp: nth_append nth_Cons' in_set_conv_nth)
  have s1: "nodes_loop io ?d ([0..<length a] @ js) 0 ns = nodes_loop io ?d js 0 ns" for js ns
    by (rule nodes_loop_skip) (use at in blast)
  have s2: "nodes_loop io ?d ([Suc (length a)..<length a + Suc (length b)] @ js) off ns = nodes_loop io ?d js off ns" for js off ns
    by (rule nodes_loop_skip) (use at in blast)
  have "length ?d = length a + (Suc (length b) + 1)" by simp
  then have "nodes_from_string io ?d = nodes_loop io ?d
      ([0..<length a] @ length a # [Suc (length a)..<length a + Suc (length b)] @ [length a + Suc (length b)]) 0 []"
    unfolding nodes_from_string_def by (simp only: upt_two)
  also have "\<dots> = nodes_loop io ?d (length a # [Suc (length a)..<length a + Suc (length b)] @ [length a + Suc (length b)]) 0 []"
    by (rule s1)
  also have "\<dots> = bindR (netspace_node_entry io a) (\<lambda>n. nodes_loop io ?d [length a + Suc (length b)] (length a) [n])"
    using assms(3) s2 by simp
  finally have e: "nodes_from_string io ?d = bindR (netspace_node_entry io a)
      (\<lambda>n. nodes_loop io ?d [length a + Suc (length b)] (length a) [n])" .
  have "?d ! (length a + Suc (length b)) = CHR '';''" by (simp add: nth_append)
  then have "nodes_loop io ?d [length a + Suc (length b)] (length a) [n] =
      bindR (netspace_node_entry io ('';'' @ b @ '';'')) (\<lambda>m. Inr [n, m])" for n
    using assms(3) by (cases a) simp_all
  then show ?thesis by (simp only: e)
qed

lemma nodes_from_string_two_example:
  "nodes_from_string ref_asio ''s|h|1.2.3.4;t|i|1.2.3.5;'' = Inl (Throw Boost_system_error)"
proof -
  have "netspace_node_entry ref_asio '';t|i|1.2.3.5;'' = Inl (Throw Boost_system_error)"
    "netspace_node_entry ref_asio ''s|h|1.2.3.4'' = Inr (netspace_node_default\<lparr>m_suid := ''s'',
      m_hostname := ''h'', m_addr := V4 (Ipv4 CHR 0x01 CHR 0x02 CHR 0x03 CHR 0x04)\<rparr>)"
    unfolding entry_node_eq by code_simp+
  then show ?thesis
    using nodes_from_string_two [of "''s|h|1.2.3.4''" "''t|i|1.2.3.5''" ref_asio] by auto
qed

end
