(* ===== verification/Metaspace_Gsn.thy ===== *)
theory Metaspace_Gsn
  imports Prelude
begin

text \<open>
  \<open>shared/infrastructure/metaspace_gsn.cpp\<close>: the name of the geographic subnetwork (GSN) of a
  postcode or a county. The SQLite database is a parameter (record \<open>gsn_db\<close>): whether a statement
  compiles, and the first step of a statement bound to a text. The loops of the source leave on
  the first step whatever it is, so one step is all they make. The regular expression is
  \<open>^([A-Z,a-z]{2})([0-9]{2})(.*)$\<close>, applied to the bytes before the first NUL. A geosub column
  that is NULL reads as the empty text.
\<close>

datatype sql = Select_by_postcode | Select_by_county

datatype sql_step = Sql_row string | Sql_done | Sql_error

record gsn_db =
  sql_prepare :: "sql \<Rightarrow> string option"
  sql_step :: "sql \<Rightarrow> string \<Rightarrow> sql_step"

text \<open>The constructor: \<open>sqlite3_open\<close> returned an error, with its message, or gave a database. A missing file
  is no error, since SQLite creates it: the statements then fail to compile (no table \<open>geosub_meta\<close>).\<close>

definition metaspace_open :: "string + gsn_db \<Rightarrow> gsn_db result" where
  "metaspace_open r = (case r of Inl msg \<Rightarrow> Inl (Throw (Metaspace_db_fail msg)) | Inr db \<Rightarrow> Inr db)"

definition outcode_letter :: "char \<Rightarrow> bool" where
  "outcode_letter c \<longleftrightarrow> (let n = (of_char c :: nat) in
     65 \<le> n \<and> n \<le> 90 \<or> n = 44 \<or> 97 \<le> n \<and> n \<le> 122)"

definition outcode_digit :: "char \<Rightarrow> bool" where
  "outcode_digit c \<longleftrightarrow> (let n = (of_char c :: nat) in 48 \<le> n \<and> n \<le> 57)"

fun outcode_match :: "string \<Rightarrow> bool" where
  "outcode_match (a # b # c # d # _) =
     (outcode_letter a \<and> outcode_letter b \<and> outcode_digit c \<and> outcode_digit d)"
| "outcode_match _ = False"

definition tolower :: "char \<Rightarrow> char" where
  "tolower c = (let n = (of_char c :: nat) in if 65 \<le> n \<and> n \<le> 90 then char_of (n + 32) else c)"

text \<open>The result and the out-parameter \<open>outcode\<close>.\<close>

definition has_outcode :: "string \<Rightarrow> bool \<times> string" where
  "has_outcode query =
     (if outcode_match (takeWhile (\<lambda>c. c \<noteq> NUL) query) then (True, map tolower (take 4 query))
      else (False, []))"

definition from_outcode :: "gsn_db \<Rightarrow> string \<Rightarrow> string result" where
  "from_outcode db outcode =
     (case sql_prepare db Select_by_postcode of
        Some msg \<Rightarrow> Inl (Throw (Metaspace_db_fail msg))
      | None \<Rightarrow> (case sql_step db Select_by_postcode outcode of
          Sql_row g \<Rightarrow> Inr g
        | Sql_error \<Rightarrow> Inr []
        | Sql_done \<Rightarrow> Inr []))"

definition from_county :: "gsn_db \<Rightarrow> string \<Rightarrow> string result" where
  "from_county db county =
     (case sql_prepare db Select_by_county of
        Some msg \<Rightarrow> Inl (Throw (Metaspace_db_fail msg))
      | None \<Rightarrow> (case sql_step db Select_by_county county of
          Sql_row g \<Rightarrow> Inr g
        | Sql_error \<Rightarrow> Inr []
        | Sql_done \<Rightarrow> Inr []))"

definition resolve_gsn :: "gsn_db \<Rightarrow> string \<Rightarrow> string result" where
  "resolve_gsn db query =
     (if length query = 0 then Inl (Throw (Metaspace_query_fail ''Empty query''))
      else case has_outcode query of (found, outcode) \<Rightarrow>
        if found then from_outcode db outcode else from_county db query)"

text \<open>A database file read into a list of rows (postcode, county, geosub), for examples.\<close>

definition table_db :: "(string \<times> string \<times> string) list \<Rightarrow> gsn_db" where
  "table_db rows = \<lparr>
     sql_prepare = (\<lambda>_. None),
     sql_step = (\<lambda>q s. case List.find
         (\<lambda>(pc, co, g). (case q of Select_by_postcode \<Rightarrow> pc | Select_by_county \<Rightarrow> co) = s) rows of
       None \<Rightarrow> Sql_done | Some (_, _, g) \<Rightarrow> Sql_row g)\<rparr>"

lemma outcode_char_not_NUL: "outcode_letter c \<or> outcode_digit c \<Longrightarrow> c \<noteq> NUL"
  by (auto simp: outcode_letter_def outcode_digit_def)

lemma outcode_match_cases:
  "outcode_match q \<longleftrightarrow> (\<exists>a b c d r. q = a # b # c # d # r \<and> outcode_letter a \<and> outcode_letter b
     \<and> outcode_digit c \<and> outcode_digit d)"
  by (cases q rule: outcode_match.cases) auto

lemma outcode_match_append: "outcode_match q \<Longrightarrow> outcode_match (q @ r)"
  by (auto simp: outcode_match_cases)

lemma outcode_match_c_str: "outcode_match (takeWhile (\<lambda>c. c \<noteq> NUL) q) = outcode_match q"
proof
  assume "outcode_match (takeWhile (\<lambda>c. c \<noteq> NUL) q)"
  then have "outcode_match (takeWhile (\<lambda>c. c \<noteq> NUL) q @ dropWhile (\<lambda>c. c \<noteq> NUL) q)"
    by (rule outcode_match_append)
  then show "outcode_match q" by simp
next
  assume "outcode_match q"
  then show "outcode_match (takeWhile (\<lambda>c. c \<noteq> NUL) q)"
    using outcode_char_not_NUL by (fastforce simp: outcode_match_cases)
qed

lemma tolower_idem [simp]: "tolower (tolower c) = tolower c"
  by (simp add: tolower_def Let_def)

lemma outcode_letter_tolower [simp]: "outcode_letter (tolower c) = outcode_letter c"
  by (auto simp: outcode_letter_def tolower_def Let_def)

lemma outcode_digit_tolower [simp]: "outcode_digit (tolower c) = outcode_digit c"
  by (auto simp: outcode_digit_def tolower_def Let_def)

lemma outcode_match_tolower [simp]: "outcode_match (map tolower q) = outcode_match q"
  by (cases q rule: outcode_match.cases) auto

lemma resolve_outcode:
  "outcode_match q \<Longrightarrow> resolve_gsn db q = from_outcode db (map tolower (take 4 q))"
  by (auto simp: resolve_gsn_def has_outcode_def outcode_match_c_str simp del: takeWhile.simps)

lemma resolve_county:
  "q \<noteq> [] \<Longrightarrow> \<not> outcode_match q \<Longrightarrow> resolve_gsn db q = from_county db q"
  by (auto simp: resolve_gsn_def has_outcode_def outcode_match_c_str)

text \<open>The only exceptions: an empty query, and a statement that does not compile.\<close>

lemma resolve_gsn_fault: "resolve_gsn db q = Inl e \<Longrightarrow>
   q = [] \<and> e = Throw (Metaspace_query_fail ''Empty query'')
   \<or> (\<exists>s msg. sql_prepare db s = Some msg \<and> e = Throw (Metaspace_db_fail msg))"
  by (auto simp: resolve_gsn_def has_outcode_def from_outcode_def from_county_def
      split: option.splits sql_step.splits if_splits)

section \<open>Properties\<close>

text \<open>A query that starts with an outcode (two letters, two digits) is answered from the
  postcode column under the first four characters in lower case: the case of the query and whatever
  follows the outcode make no difference.\<close>

lemma outcode_query:
  assumes "outcode_match q"
  shows "resolve_gsn db q = from_outcode db (map tolower (take 4 q))
    \<and> resolve_gsn db (map tolower q) = resolve_gsn db q \<and> resolve_gsn db (q @ r) = resolve_gsn db q"
proof -
  obtain a b c d t where "q = a # b # c # d # t" using assms by (auto simp: outcode_match_cases)
  then show ?thesis
    using assms outcode_match_append [OF assms, of r] by (simp add: resolve_outcode take_map)
qed

definition sample_db :: gsn_db where
  "sample_db = table_db [(''tn37'', ''East Sussex'', ''esusx''), (''tn34'', ''East Sussex'', ''esusx''),
     (''tn29'', ''Kent'', ''kent'')]"

lemma outcode_query_example:
  "resolve_gsn sample_db ''TN29'' = Inr ''kent'' \<and> resolve_gsn sample_db ''TN29 8AA'' = Inr ''kent''"
proof -
  have m: "outcode_match ''TN29''" by (simp add: outcode_letter_def outcode_digit_def)
  have r: "from_outcode sample_db (map tolower (take 4 ''TN29'')) = Inr ''kent''" by code_simp
  show ?thesis
    using outcode_query [OF m, of sample_db "'' 8AA''"] r by simp
qed

text \<open>Resolving a query throws for an empty query and when a statement does not compile, and in
  no other case: a query without a match, a failing step and a missing value all give a text.\<close>

lemma resolve_gsn_throws:
  assumes "resolve_gsn db q = Inl e"
  shows "q = [] \<and> e = Throw (Metaspace_query_fail ''Empty query'')
    \<or> (\<exists>s msg. sql_prepare db s = Some msg \<and> e = Throw (Metaspace_db_fail msg))"
  by (rule resolve_gsn_fault [OF assms])

lemma resolve_gsn_throws_example:
  "resolve_gsn sample_db [] = Inl (Throw (Metaspace_query_fail ''Empty query''))
    \<and> ([] = ([] :: string) \<or> (\<exists>s msg. sql_prepare sample_db s = Some msg))"
  using resolve_gsn_throws [of sample_db "[]" "Throw (Metaspace_query_fail ''Empty query'')"]
  by (simp add: resolve_gsn_def)

end
