(* ===== verification/Http_Frame.thy ===== *)
theory Http_Frame
  imports Protocol_Common Metaspace_Gsn
begin

text \<open>
  \<open>shared/protocol/http_frame.cpp\<close> and \<open>http_service::send_frame\<close> of
  \<open>nodes/root/http_service.hpp\<close>: a packet wrapped in an HTTP POST request, and the exchange with
  the node it is sent to, on port 8080. The network is a parameter: the answer to the n-th exchange of
  the program, given the bytes and the endpoint (address and port), is a failure (an exception of Boost) or the
  contents of the 4096-byte reply buffer. The record \<open>root_env\<close> holds this and the other
  parameters of the root node: Boost's text form of addresses, the GSN database, the stack after
  the digits of \<open>http_to_bin\<close> and the old contents of a partly initialised array.
\<close>

record http_frame =
  hf_frame :: dvsp_packet
  hf_hostname :: string
  hf_header :: string
  hf_address :: netspace_ipv4

datatype net_result = Net_failed | Net_reply bytes

type_synonym endpoint = "netspace_ipv4 \<times> nat"

type_synonym outbox = "(bytes \<times> endpoint) list"

record root_env =
  env_asio :: asio
  env_gsn :: gsn_db
  env_net :: "nat \<Rightarrow> bytes \<Rightarrow> endpoint \<Rightarrow> net_result"
  env_stk :: bytes
  env_junk :: bytes

definition CRLF :: string where "CRLF = [CHR 0x0D, CHR 0x0A]"

definition generate_header :: "string \<Rightarrow> dvsp_packet \<Rightarrow> string" where
  "generate_header hostname frame =
     ''POST /spring/spring_hook.php HTTP/1.1'' @ CRLF
     @ ''Host: '' @ hostname @ CRLF
     @ ''User-Agent: SpringDVS'' @ CRLF
     @ ''Content-Type: application/octet-stream'' @ CRLF
     @ ''Content-Length: '' @ decimal (packet_size frame) @ CRLF @ CRLF"

text \<open>The constructor takes the packet by value and copies it again into its member.\<close>

definition http_frame_of :: "dvsp_packet \<Rightarrow> string \<Rightarrow> http_frame result" where
  "http_frame_of packet hostname =
     bindR (packet_copy packet) (\<lambda>frame.
     bindR (packet_copy frame) (\<lambda>m.
     bindR (packet_destroy frame) (\<lambda>_.
       Inr \<lparr>hf_frame = m, hf_hostname = hostname, hf_header = generate_header hostname m,
            hf_address = addr_dest (m_header frame)\<rparr>)))"

definition http_frame_copy :: "http_frame \<Rightarrow> http_frame result" where
  "http_frame_copy orig = bindR (packet_copy (hf_frame orig)) (\<lambda>m. Inr (orig\<lparr>hf_frame := m\<rparr>))"

definition http_frame_size :: "http_frame \<Rightarrow> nat" where
  "http_frame_size f = length (hf_header f) + packet_size (hf_frame f)"

definition http_frame_serialise :: "http_frame \<Rightarrow> bytes result" where
  "http_frame_serialise f = bindR (serialise (hf_frame f)) (\<lambda>s. Inr (hf_header f @ s))"

text \<open>\<open>catch(std::exception& e) { throw e; }\<close> throws a copy of the base class.\<close>

definition rethrow_sliced :: "'a result \<Rightarrow> 'a result" where
  "rethrow_sliced m = (case m of
     Inl (Throw e) \<Rightarrow> if is_std_exception e then Inl (Throw Std_exception) else m
   | _ \<Rightarrow> m)"

text \<open>The endpoint \<open>send_frame\<close> connects to. The HTTP service of a root node listens on another port.\<close>

definition frame_endpoint :: "netspace_ipv4 \<Rightarrow> endpoint" where
  "frame_endpoint address = (address, 8080)"

definition send_frame ::
  "root_env \<Rightarrow> http_frame \<Rightarrow> netspace_ipv4 \<Rightarrow> outbox \<Rightarrow> (dvsp_packet \<times> outbox) result" where
  "send_frame env frame address out = rethrow_sliced (
     bindR (http_frame_serialise frame) (\<lambda>serial.
       case env_net env (length out) serial (frame_endpoint address) of
         Net_failed \<Rightarrow> Inl (Throw Boost_system_error)
       | Net_reply reply \<Rightarrow>
           bindR (c_string reply) (\<lambda>_.
           bindR (http_to_bin (env_stk env) reply) (\<lambda>raw.
           bindR (packet_of_serial raw) (\<lambda>p. Inr (p, out @ [(serial, frame_endpoint address)]))))))"

lemma http_frame_wf:
  "packet_wf p \<Longrightarrow> http_frame_of p h = Inr
     \<lparr>hf_frame = \<lparr>m_header = m_header p, m_content = Live (packet_data p)\<rparr>, hf_hostname = h,
      hf_header = generate_header h \<lparr>m_header = m_header p, m_content = Live (packet_data p)\<rparr>,
      hf_address = addr_dest (m_header p)\<rparr>"
proof -
  let ?q = "\<lparr>m_header = m_header p, m_content = Live (packet_data p)\<rparr>"
  assume p: "packet_wf p"
  then have "packet_wf ?q" by (simp add: packet_wf_def length_packet_data [OF p])
  moreover have "packet_data ?q = packet_data p" by (simp add: packet_data_def)
  ultimately show ?thesis using p by (simp add: http_frame_of_def packet_copy_wf)
qed

lemma http_frame_serialise_wf:
  "packet_wf (hf_frame f) \<Longrightarrow> http_frame_serialise f =
     Inr (hf_header f @ header_bytes (m_header (hf_frame f)) @ packet_data (hf_frame f))"
  by (simp add: http_frame_serialise_def serialise_wf)

lemma length_http_frame_serialise:
  "http_frame_serialise f = Inr s \<Longrightarrow> length s = http_frame_size f"
  by (auto simp: http_frame_serialise_def bindR_eq_Inr http_frame_size_def dest: length_serialise)

text \<open>A copy sends the same bytes.\<close>

lemma http_frame_copy_wf: "packet_wf (hf_frame f) \<Longrightarrow>
  \<exists>g. http_frame_copy f = Inr g \<and> http_frame_serialise g = http_frame_serialise f"
proof -
  let ?q = "\<lparr>m_header = m_header (hf_frame f), m_content = Live (packet_data (hf_frame f))\<rparr>"
  assume f: "packet_wf (hf_frame f)"
  then have "packet_wf ?q" "packet_data ?q = packet_data (hf_frame f)"
    by (simp_all add: packet_wf_def length_packet_data [OF f]) (simp add: packet_data_def)
  with f show ?thesis by (simp add: http_frame_copy_def packet_copy_wf http_frame_serialise_wf)
qed

lemma rethrow_eq_Inr [simp]: "rethrow_sliced m = Inr x \<longleftrightarrow> m = Inr x"
  by (auto simp: rethrow_sliced_def split: sum.splits fault.splits)

lemma send_frame_Inr:
  assumes "send_frame env f a out = Inr (p, out')"
  shows "packet_wf p \<and> (\<exists>s. http_frame_serialise f = Inr s \<and> out' = out @ [(s, frame_endpoint a)])"
proof -
  from assms obtain s where s: "http_frame_serialise f = Inr s"
    by (auto simp: send_frame_def bindR_eq_Inr)
  show ?thesis
  proof (cases "env_net env (length out) s (frame_endpoint a)")
    case Net_failed
    with assms s show ?thesis by (simp add: send_frame_def rethrow_sliced_def)
  next
    case (Net_reply reply)
    with assms s show ?thesis by (auto simp: send_frame_def bindR_eq_Inr dest: packet_of_serial_wf)
  qed
qed

end
