(* ===== verification/Protocol_Handler.thy ===== *)
theory Protocol_Handler
  imports Netspace_Table Netspace_Url Http_Frame
begin

text \<open>
  \<open>nodes/root/protocol_handler.cpp\<close>: the handler of the root node, one function per message
  type, dispatched by \<open>process_packet\<close>. The state is the table of nodes and the requests sent to
  other nodes; output to the console is left out.
\<close>

record root_state =
  nstable :: netspace_table
  outbox :: outbox

section \<open>Replies\<close>

definition typed_packet :: "dvsp_msgtype \<Rightarrow> dvsp_packet" where
  "typed_packet mt = packet_default\<lparr>m_header := (m_header packet_default)\<lparr>hdr_type := msgtype_val mt\<rparr>\<rparr>"

definition reply_to :: "dvsp_packet \<Rightarrow> dvsp_packet" where
  "reply_to packet = packet_default\<lparr>m_header := (m_header packet)\<lparr>hdr_type := msgtype_val Mt_gsn_response\<rparr>\<rparr>"

definition response :: "dvsp_rcode \<Rightarrow> dvsp_packet result" where
  "response code = copy_content (response_code_bytes (construct_frame_response_code code))
     (typed_packet Mt_gsn_response)"

definition nodes_of :: "netspace_table \<Rightarrow> char \<Rightarrow> netspace_node list" where
  "nodes_of t type = map netspace_node_copy (filter (\<lambda>n. m_type n = type) t)"

section \<open>Registration\<close>

text \<open>\<open>tmp.assign(st.hostname.data(), st.len)\<close> with a signed length.\<close>

definition assign_hostname :: "frame_register \<Rightarrow> string result" where
  "assign_hostname st =
     (let n = schar (fr_len st) in
      if n < 0 then Inl (Throw Std_length_error)
      else if int (length (fr_hostname st)) < n then Inl (Undefined Oob_read)
      else Inr (take (nat n) (fr_hostname st)))"

definition register_host ::
  "asio \<Rightarrow> dvsp_packet \<Rightarrow> netspace_addr \<Rightarrow> netspace_table \<Rightarrow> (dvsp_packet \<times> netspace_table) result" where
  "register_host io packet addr t =
     bindR (content_as bytes_register sizeof_register packet 0) (\<lambda>st.
     if schar (netnode_val Nt_final) \<le> schar (fr_type st) then
       bindR (response Rc_malformed_content) (\<lambda>r. Inr (r, t))
     else
       bindR (assign_hostname st) (\<lambda>tmp.
       let i = str_find CHR ''|'' tmp in
       bindR (substr tmp 0 i) (\<lambda>hostname.
       bindR (substr_from tmp (pos_add i 1)) (\<lambda>suid.
       if find_host t hostname \<noteq> table_end t then
         bindR (response Rc_netspace_duplicate) (\<lambda>r. Inr (r, t))
       else if find_suid t suid \<noteq> table_end t then
         bindR (response Rc_netspace_duplicate) (\<lambda>r. Inr (r, t))
       else
         bindR (netspace_node_text io (fr_type st) hostname (addr_string io addr) (fr_protocol st)) (\<lambda>n.
         bindR (response Rc_ok) (\<lambda>r. Inr (r, add_node t (set_suid suid n))))))))"

definition unregister_host ::
  "asio \<Rightarrow> dvsp_packet \<Rightarrow> netspace_addr \<Rightarrow> netspace_table \<Rightarrow> (dvsp_packet \<times> netspace_table) result" where
  "unregister_host io packet addr t =
     bindR (find_addr_text io t (addr_string io addr)) (\<lambda>it.
     if it = table_end t then bindR (response Rc_netspace_error) (\<lambda>r. Inr (r, t))
     else bindR (erase_node t it) (\<lambda>t'. bindR (response Rc_ok) (\<lambda>r. Inr (r, t'))))"

section \<open>Resolution\<close>

definition address_reply :: "dvsp_packet \<Rightarrow> netspace_node \<Rightarrow> dvsp_packet result" where
  "address_reply packet n =
     bindR (construct_frame_address (m_addr n) (m_proto n)) (\<lambda>frame.
       copy_content (address_bytes frame) (reply_to packet))"

definition resolve_handler :: "gsn_db \<Rightarrow> dvsp_packet \<Rightarrow> netspace_table \<Rightarrow> dvsp_packet result" where
  "resolve_handler db packet t =
     bindR (packet_to_string packet 0) (\<lambda>text.
     bindR (netspace_url_of text) (\<lambda>url0.
     bindR (route_pop_back url0) (\<lambda>url.
     if length (m_gsn url) = 0 \<and> m_glq url \<noteq> [] then
       bindR (resolve_gsn db (m_glq url)) (\<lambda>host.
       let it = find_host t host in
       if it = table_end t then response Rc_netspace_error
       else bindR (deref t it) (address_reply packet))
     else
       bindR (route_back url) (\<lambda>host.
       let it = find_host t host in
       if it = table_end t then response Rc_netspace_error
       else bindR (deref t it) (\<lambda>n.
         if length (m_gsn url) = 1 then address_reply packet n
         else
           bindR (str_content (fst (url_to_string url)) (packet_default\<lparr>m_header := m_header packet\<rparr>)) (\<lambda>p.
           bindR (to_v4 (m_addr n)) (\<lambda>ip.
             Inr (p\<lparr>m_header := (m_header p)\<lparr>addr_dest := ip\<rparr>\<rparr>))))))))"

definition query_gsn :: "dvsp_packet \<Rightarrow> dvsp_packet result" where
  "query_gsn packet = bindR (packet_content packet) (\<lambda>_. response Rc_ok)"

section \<open>Lists of nodes and host names\<close>

definition local_gsn :: "asio \<Rightarrow> dvsp_packet \<Rightarrow> netspace_table \<Rightarrow> dvsp_packet result" where
  "local_gsn io packet t =
     str_content (construct_frame_network io (nodes_of t (netnode_val Nt_org))) (reply_to packet)"

definition root_nodes :: "asio \<Rightarrow> dvsp_packet \<Rightarrow> netspace_table \<Rightarrow> dvsp_packet result" where
  "root_nodes io packet t =
     str_content (construct_frame_network io (nodes_of t (netnode_val Nt_root))) (reply_to packet)"

definition hostname_handler :: "bytes \<Rightarrow> dvsp_packet \<Rightarrow> netspace_table \<Rightarrow> dvsp_packet result" where
  "hostname_handler junk packet t =
     bindR (content_as bytes_ipv4 4 packet 0) (\<lambda>addr.
     let it = find_addr t (ipv4_to_netspace_addr addr) in
     if it = table_end t then response Rc_netspace_error
     else bindR (deref t it) (\<lambda>n.
       bindR (construct_frame_hostname junk (m_hostname n) (m_proto n)) (\<lambda>fh.
         copy_content (hostname_bytes fh) (typed_packet Mt_gsn_response))))"

section \<open>Queries to other nodes\<close>

text \<open>Leaving a scope by an exception destroys its packet, too.\<close>

definition unwind :: "dvsp_packet \<Rightarrow> 'a result \<Rightarrow> 'a result" where
  "unwind p m = (case m of Inl (Throw e) \<Rightarrow> bindR (packet_destroy p) (\<lambda>_. m) | _ \<Rightarrow> m)"

definition service_text :: "dvsp_packet \<Rightarrow> string option result" where
  "service_text recv =
     (if hdr_type (m_header recv) = msgtype_val Mt_gsn_response then
        bindR (content_as bytes_service sizeof_service recv 0) (\<lambda>fs.
        if fs_response fs = rcode_val Rc_ok then
          bindR (packet_to_string recv sizeof_service) (\<lambda>str. Inr (Some str))
        else Inr None)
      else Inr None)"

text \<open>One exchange: send the frame, read the answer, destroy it.\<close>

definition ask_peer ::
  "root_env \<Rightarrow> http_frame \<Rightarrow> netspace_ipv4 \<Rightarrow> outbox \<Rightarrow> (string option \<times> outbox) result" where
  "ask_peer env frame dest out =
     bindR (send_frame env frame dest out) (\<lambda>(recv, out').
     bindR (service_text recv) (\<lambda>s.
     bindR (packet_destroy recv) (\<lambda>_. Inr (s, out'))))"

definition query_one ::
  "root_env \<Rightarrow> dvsp_packet \<Rightarrow> string \<Rightarrow> string \<Rightarrow> root_state \<Rightarrow> (string \<times> root_state) result" where
  "query_one env packet suid query st =
     (let t = nstable st; it = find_suid t suid in
      if it = table_end t then bindR (packet_destroy packet) (\<lambda>_. Inr ([], st))
      else
        bindR (deref t it) (\<lambda>node.
        bindR (str_content query packet) (\<lambda>p.
        bindR (unwind p (
          bindR (http_frame_of p (m_hostname node)) (\<lambda>frame.
          bindR (to_v4 (m_addr node)) (\<lambda>dest.
            ask_peer env frame dest (outbox st))))) (\<lambda>(s, out).
        bindR (packet_destroy p) (\<lambda>_.
          Inr (case s of Some str \<Rightarrow> str | None \<Rightarrow> [], st\<lparr>outbox := out\<rparr>))))))"

fun query_loop ::
  "root_env \<Rightarrow> string \<Rightarrow> netspace_node list \<Rightarrow> dvsp_packet \<Rightarrow> bool \<Rightarrow> string \<Rightarrow> outbox
   \<Rightarrow> (string \<times> outbox) result" where
  "query_loop env query [] packet first ss out =
     bindR (packet_destroy packet) (\<lambda>_. Inr (ss, out))"
| "query_loop env query (node # nodes) packet first ss out =
     bindR (str_content query packet) (\<lambda>p0.
     bindR (unwind p0 (to_v4 (m_addr node))) (\<lambda>dest.
     let p = p0\<lparr>m_header := (m_header p0)\<lparr>addr_dest := dest\<rparr>\<rparr> in
     bindR (unwind p (bindR (serialise p) dump_frames)) (\<lambda>_.
     if m_proto node = protocol_val Proto_http then
       bindR (unwind p (
         bindR (http_frame_of p (m_hostname node)) (\<lambda>frame.
           ask_peer env frame dest out))) (\<lambda>(s, out').
       case s of
         None \<Rightarrow> query_loop env query nodes p first ss out'
       | Some str \<Rightarrow> query_loop env query nodes p False
           (ss @ (if \<not> first then ''::'' else []) @ str) out')
     else query_loop env query nodes p first ss out)))"

definition query_all ::
  "root_env \<Rightarrow> dvsp_packet \<Rightarrow> string \<Rightarrow> root_state \<Rightarrow> (string \<times> root_state) result" where
  "query_all env packet query st =
     bindR (query_loop env query (nstable st) packet True [] (outbox st)) (\<lambda>(ss, out).
       Inr (ss, st\<lparr>outbox := out\<rparr>))"

definition query_handler ::
  "root_env \<Rightarrow> dvsp_packet \<Rightarrow> root_state \<Rightarrow> (dvsp_packet \<times> root_state) result" where
  "query_handler env packet st =
     bindR (packet_copy packet) (\<lambda>in0.
     bindR (packet_to_string packet 0) (\<lambda>text.
     bindR (netspace_url_of text) (\<lambda>url.
     bindR (route_front url) (\<lambda>front.
     bindR (packet_copy packet) (\<lambda>arg.
     bindR (if front = ''esusx'' then query_all env arg (m_spq url) st
            else query_one env arg front (m_spq url) st) (\<lambda>(ss, st').
     bindR (str_content ss (typed_packet Mt_gsn_response)) (\<lambda>out.
     bindR (bindR (serialise out) dump_frames) (\<lambda>_.
     bindR (packet_destroy in0) (\<lambda>_. Inr (out, st'))))))))))"

section \<open>Dispatch\<close>

definition process_packet ::
  "root_env \<Rightarrow> dvsp_packet \<Rightarrow> netspace_addr \<Rightarrow> root_state \<Rightarrow> (dvsp_packet \<times> root_state) result" where
  "process_packet env packet addr st =
     (let io = env_asio env; t = nstable st;
          with_table = (\<lambda>m. bindR m (\<lambda>(r, t'). Inr (r, st\<lparr>nstable := t'\<rparr>)));
          pure = (\<lambda>m. bindR m (\<lambda>r. Inr (r, st))) in
      case enum_of msgtype_val (hdr_type (m_header packet)) of
        Some Mt_gsn_register_host \<Rightarrow> with_table (register_host io packet addr t)
      | Some Mt_gsn_unregister_host \<Rightarrow> with_table (unregister_host io packet addr t)
      | Some Mt_gsn_resolution \<Rightarrow> pure (resolve_handler (env_gsn env) packet t)
      | Some Mt_gsn_local_area \<Rightarrow> pure (local_gsn io packet t)
      | Some Mt_gtn_root_nodes \<Rightarrow> pure (root_nodes io packet t)
      | Some Mt_gsn_hostname \<Rightarrow> pure (hostname_handler (env_junk env) packet t)
      | Some Mt_gsn_request \<Rightarrow> query_handler env packet st
      | _ \<Rightarrow> pure (response Rc_malformed_content))"

section \<open>Replies are well formed\<close>

lemma typed_packet_wf [simp]: "packet_wf (typed_packet mt)" "m_content (typed_packet mt) = Null_ptr"
    "hdr_type (m_header (typed_packet mt)) = msgtype_val mt"
  by (simp_all add: typed_packet_def packet_wf_def packet_default_def dvsp_header_default_def)

text \<open>A reply starts from a copied header, whose size is that of the request, and no content.\<close>

definition reply :: "dvsp_header \<Rightarrow> bytes \<Rightarrow> dvsp_packet" where
  "reply h d = \<lparr>m_header = h\<lparr>hdr_size := word_of_nat (length d)\<rparr>,
     m_content = (if d = [] then Null_ptr else Live d)\<rparr>"

lemma reply_wf: "length d < 2 ^ 32 \<Longrightarrow> packet_wf (reply h d)"
  by (simp add: reply_def packet_wf_def)

lemma reply_simps [simp]:
  "packet_data (reply h d) = d" "hdr_type (m_header (reply h d)) = hdr_type h"
  "addr_dest (m_header (reply h d)) = addr_dest h"
  by (simp_all add: reply_def packet_data_def)

lemma filled_reply: "filled d p = reply (m_header p) d"
  by (simp add: filled_def reply_def)

lemma copy_content_null [simp]: "m_content p = Null_ptr \<Longrightarrow> copy_content d p = Inr (reply (m_header p) d)"
  by (cases p) (simp add: copy_content_def reset_def write_ptr_def reply_def)

lemma str_content_null [simp]: "m_content p = Null_ptr \<Longrightarrow> str_content d p = Inr (reply (m_header p) d)"
  by (simp add: str_content_eq)

lemma reply_to_simps [simp]: "m_content (reply_to p) = Null_ptr"
  "m_header (reply_to p) = (m_header p)\<lparr>hdr_type := msgtype_val Mt_gsn_response\<rparr>"
  by (simp_all add: reply_to_def packet_default_def)

lemma packet_default_null [simp]: "m_content packet_default = Null_ptr"
  by (simp add: packet_default_def)

definition code_reply :: "dvsp_rcode \<Rightarrow> dvsp_packet" where
  "code_reply code = reply (m_header (typed_packet Mt_gsn_response)) (response_code_bytes (rcode_val code))"

lemma response_eq [simp]: "response code = Inr (code_reply code)"
  by (simp add: response_def code_reply_def construct_frame_response_code_def filled_reply)

end
