(* ===== verification/Registry.thy ===== *)
theory Registry
  imports Protocol_Handler
begin

text \<open>
  What registration, unregistration and the host-name service do: the result of each on every
  branch, the invariant of the table that every message keeps, and the abstract registry (two
  partial maps, from host names and from service identifiers) that the table implements.
\<close>

section \<open>The name of a registration\<close>

definition name_parts :: "string \<Rightarrow> string \<times> string" where
  "name_parts s = (if CHR ''|'' \<in> set s
     then (takeWhile (\<lambda>c. c \<noteq> CHR ''|'') s, tl (dropWhile (\<lambda>c. c \<noteq> CHR ''|'') s)) else (s, s))"

lemma drop_find_if: "drop (find_if P xs) xs = dropWhile (\<lambda>x. \<not> P x) xs"
  by (induction xs) auto

lemma name_parts_find:
  assumes "length s < npos"
  shows "substr s 0 (str_find CHR ''|'' s) = Inr (fst (name_parts s))"
    and "substr_from s (pos_add (str_find CHR ''|'' s) 1) = Inr (snd (name_parts s))"
proof -
  let ?i = "find_if (\<lambda>x. x = CHR ''|'') s"
  have mem: "?i < length s \<longleftrightarrow> CHR ''|'' \<in> set s" by (auto simp: find_if_less)
  have tk: "take ?i s = takeWhile (\<lambda>c. c \<noteq> CHR ''|'') s" by (rule take_find_if)
  have dr: "drop (Suc ?i) s = tl (dropWhile (\<lambda>c. c \<noteq> CHR ''|'') s)"
  proof -
    have "drop (Suc ?i) s = tl (drop ?i s)" by (simp add: drop_Suc tl_drop)
    then show ?thesis by (simp only: drop_find_if)
  qed
  have "pos_add npos 1 = 0" by (simp add: pos_add_def npos_def)
  moreover have "pos_add ?i 1 = Suc ?i" if "?i < length s"
    using that assms by (simp add: pos_add_def npos_def)
  ultimately show "substr s 0 (str_find CHR ''|'' s) = Inr (fst (name_parts s))"
    and "substr_from s (pos_add (str_find CHR ''|'' s) 1) = Inr (snd (name_parts s))"
    using mem tk dr assms by (auto simp: str_find_def name_parts_def Let_def)
qed

lemma name_parts_joined:
  "CHR ''|'' \<notin> set h \<Longrightarrow> name_parts (h @ CHR ''|'' # s) = (h, s)"
  by (simp add: name_parts_def takeWhile_append dropWhile_append)

lemma length_name_parts: "length (fst (name_parts s)) \<le> length s"
  by (simp add: name_parts_def length_takeWhile_le)

section \<open>Registration\<close>

definition request_frame :: "dvsp_packet \<Rightarrow> frame_register" where
  "request_frame p = bytes_register (take sizeof_register (packet_data p))"

definition request_name :: "dvsp_packet \<Rightarrow> string" where
  "request_name p = take (nat (schar (fr_len (request_frame p)))) (fr_hostname (request_frame p))"

definition requested_node :: "dvsp_packet \<Rightarrow> netspace_addr \<Rightarrow> netspace_node" where
  "requested_node p a = \<lparr>m_type = fr_type (request_frame p), m_addr = a,
     m_hostname = fst (name_parts (request_name p)), m_proto = fr_protocol (request_frame p),
     m_suid = snd (name_parts (request_name p))\<rparr>"

text \<open>A registration the handler can read: the frame is there and its length fits its array.\<close>

definition readable_request :: "dvsp_packet \<Rightarrow> bool" where
  "readable_request p \<longleftrightarrow> packet_wf p \<and> sizeof_register \<le> length (packet_data p)
     \<and> 0 \<le> schar (fr_len (request_frame p)) \<and> schar (fr_len (request_frame p)) \<le> 125"

lemma length_request_hostname:
  "sizeof_register \<le> length (packet_data p) \<Longrightarrow> length (fr_hostname (request_frame p)) = 125"
  by (simp add: request_frame_def bytes_register_def frame_sizes)

lemma content_as_request:
  "packet_wf p \<Longrightarrow> sizeof_register \<le> length (packet_data p) \<Longrightarrow>
   content_as bytes_register sizeof_register p 0 = Inr (request_frame p)"
  using content_as_ok [of p 0 sizeof_register bytes_register] length_packet_data [of p]
  by (simp add: request_frame_def)

lemma assign_request:
  "readable_request p \<Longrightarrow> assign_hostname (request_frame p) = Inr (request_name p)"
  using length_request_hostname [of p]
  by (simp add: readable_request_def assign_hostname_def request_name_def Let_def)

lemma length_request_name: "readable_request p \<Longrightarrow> length (request_name p) \<le> 125"
  using length_request_hostname [of p] by (simp add: readable_request_def request_name_def)

lemma register_host_eq:
  assumes p: "readable_request p" and io: "asio_ok io"
  shows "register_host io p a t =
    (let n = requested_node p a in
     if 5 \<le> schar (m_type n) then Inr (code_reply Rc_malformed_content, t)
     else if m_hostname n \<in> m_hostname ` set t \<or> m_suid n \<in> m_suid ` set t
     then Inr (code_reply Rc_netspace_duplicate, t)
     else Inr (code_reply Rc_ok, t @ [n]))"
proof -
  have c: "content_as bytes_register sizeof_register p 0 = Inr (request_frame p)"
    using p by (auto simp: readable_request_def intro: content_as_request)
  have "length (request_name p) < npos"
    using length_request_name [OF p] by (simp add: npos_def)
  note name_parts_find [OF this]
  moreover have "schar (netnode_val Nt_final) = 5" by (simp add: schar_def)
  ultimately show ?thesis
    by (simp add: register_host_def c assign_request [OF p] requested_node_def Let_def
        host_index.find_end suid_index.find_end table_end_def netspace_node_text_def io
        set_suid_def add_node_def)
qed

definition name_taken :: "netspace_node \<Rightarrow> netspace_table \<Rightarrow> bool" where
  "name_taken n t \<longleftrightarrow> m_hostname n \<in> m_hostname ` set t \<or> m_suid n \<in> m_suid ` set t"

text \<open>Everything else faults.\<close>

lemma register_host_unreadable:
  assumes "packet_wf p" "\<not> readable_request p"
  shows "register_host io p a t =
      (if 5 \<le> schar (fr_type (request_frame p)) then Inr (code_reply Rc_malformed_content, t)
       else if schar (fr_len (request_frame p)) < 0 then Inl (Throw Std_length_error)
       else Inl (Undefined Oob_read))
    \<or> length (packet_data p) < sizeof_register \<and> (\<exists>u. register_host io p a t = Inl (Undefined u))"
proof (cases "sizeof_register \<le> length (packet_data p)")
  case True
  have "schar (netnode_val Nt_final) = 5" by (simp add: schar_def)
  with True assms length_request_hostname [OF True] show ?thesis
    by (auto simp: register_host_def content_as_request assign_hostname_def readable_request_def Let_def)
next
  case False
  with assms content_as_short [of p 0 sizeof_register bytes_register] length_packet_data [of p]
  show ?thesis by (auto simp: register_host_def frame_sizes)
qed

section \<open>Unregistration\<close>

lemma unregister_host_eq:
  assumes "asio_ok io"
  shows "unregister_host io p a t =
    (let i = find_addr t a in
     if i < length t then Inr (code_reply Rc_ok, take i t @ drop (i + 1) t)
     else Inr (code_reply Rc_netspace_error, t))"
  using assms addr_index.find_le [of t a]
  by (auto simp: unregister_host_def table_end_def Let_def erase_node_def)

section \<open>The invariant of the table\<close>

definition table_inv :: "netspace_table \<Rightarrow> bool" where
  "table_inv t \<longleftrightarrow> distinct (map m_hostname t) \<and> distinct (map m_suid t)
     \<and> list_all (\<lambda>n. length (m_hostname n) \<le> 125 \<and> schar (m_type n) < 5) t"

lemma table_inv_empty: "table_inv []"
  by (simp add: table_inv_def)

lemma table_inv_remove: "table_inv t \<Longrightarrow> table_inv (take i t @ drop (i + 1) t)"
  using distinct_remove_nth [of m_hostname t i] distinct_remove_nth [of m_suid t i]
  by (auto simp: table_inv_def list_all_iff dest: in_set_takeD in_set_dropD)

lemma table_inv_add:
  "table_inv t \<Longrightarrow> m_hostname n \<notin> m_hostname ` set t \<Longrightarrow> m_suid n \<notin> m_suid ` set t \<Longrightarrow>
   length (m_hostname n) \<le> 125 \<Longrightarrow> schar (m_type n) < 5 \<Longrightarrow> table_inv (t @ [n])"
  by (auto simp: table_inv_def)

lemma length_requested_hostname: "readable_request p \<Longrightarrow> length (m_hostname (requested_node p a)) \<le> 125"
  using length_request_name [of p] length_name_parts [of "request_name p"]
  by (simp add: requested_node_def)

lemma register_host_inv:
  assumes "packet_wf p" "asio_ok io" "table_inv t" "register_host io p a t = Inr (r, t')"
  shows "table_inv t'"
proof (cases "readable_request p")
  case True
  then show ?thesis
    using assms length_requested_hostname [OF True, of a]
    by (auto simp: register_host_eq Let_def intro: table_inv_add split: if_splits)
next
  case False
  with assms register_host_unreadable [of p io a t] show ?thesis by (auto split: if_splits)
qed

lemma unregister_host_inv:
  "asio_ok io \<Longrightarrow> table_inv t \<Longrightarrow> unregister_host io p a t = Inr (r, t') \<Longrightarrow> table_inv t'"
  using table_inv_remove [of t "find_addr t a"]
  by (auto simp: unregister_host_eq Let_def split: if_splits)

section \<open>The abstract registry\<close>

text \<open>A registry maps host names and service identifiers to nodes. Registering refuses a taken
  name; unregistering removes one node that has the sender's address.\<close>

type_synonym registry = "(string \<rightharpoonup> netspace_node) \<times> (string \<rightharpoonup> netspace_node)"

definition abs_registry :: "netspace_table \<Rightarrow> registry" where
  "abs_registry t = (by_key m_hostname t, by_key m_suid t)"

fun spec_register :: "netspace_node \<Rightarrow> registry \<Rightarrow> dvsp_rcode \<times> registry" where
  "spec_register n (H, S) =
     (if H (m_hostname n) = None \<and> S (m_suid n) = None
      then (Rc_ok, H(m_hostname n \<mapsto> n), S(m_suid n \<mapsto> n))
      else (Rc_netspace_duplicate, H, S))"

fun spec_forget :: "netspace_node \<Rightarrow> registry \<Rightarrow> registry" where
  "spec_forget n (H, S) = (H(m_hostname n := None), S(m_suid n := None))"

lemma abs_registry_add:
  "m_hostname n \<notin> m_hostname ` set t \<Longrightarrow> m_suid n \<notin> m_suid ` set t \<Longrightarrow>
   abs_registry (t @ [n]) = snd (spec_register n (abs_registry t))"
  by (simp add: abs_registry_def by_key_fresh by_key_None)

lemma spec_register_code: "fst (spec_register n (abs_registry t)) =
  (if m_hostname n \<in> m_hostname ` set t \<or> m_suid n \<in> m_suid ` set t
   then Rc_netspace_duplicate else Rc_ok)"
  by (auto simp: abs_registry_def by_key_None)

lemma spec_register_refused: "m_hostname n \<in> m_hostname ` set t \<or> m_suid n \<in> m_suid ` set t \<Longrightarrow>
  snd (spec_register n (abs_registry t)) = abs_registry t"
  by (auto simp: abs_registry_def by_key_None)

lemma abs_registry_remove:
  "table_inv t \<Longrightarrow> i < length t \<Longrightarrow>
   abs_registry (take i t @ drop (i + 1) t) = spec_forget (t ! i) (abs_registry t)"
  using by_key_remove [of m_hostname t i] by_key_remove [of m_suid t i]
  by (simp add: table_inv_def abs_registry_def)

lemma register_refines:
  assumes "readable_request p" "asio_ok io" "schar (m_type (requested_node p a)) < 5"
  defines "n \<equiv> requested_node p a"
  shows "\<exists>t'. register_host io p a t = Inr (code_reply (fst (spec_register n (abs_registry t))), t')
    \<and> abs_registry t' = snd (spec_register n (abs_registry t))"
  using assms abs_registry_add [of n t] spec_register_code [of n t] spec_register_refused [of n t]
  by (auto simp: register_host_eq Let_def)

lemma unregister_refines:
  assumes "asio_ok io" "table_inv t"
  shows "(\<exists>n \<in> set t. m_addr n = a \<and> (\<exists>t'. unregister_host io p a t = Inr (code_reply Rc_ok, t')
        \<and> abs_registry t' = spec_forget n (abs_registry t)))
    \<or> a \<notin> m_addr ` set t \<and> unregister_host io p a t = Inr (code_reply Rc_netspace_error, t)"
proof (cases "find_addr t a < length t")
  case True
  then have "t ! find_addr t a \<in> set t" "m_addr (t ! find_addr t a) = a"
    using addr_index.find_hit [of t a] by auto
  with True assms abs_registry_remove [OF assms(2) True] show ?thesis
    by (fastforce simp: unregister_host_eq Let_def)
next
  case False
  with assms addr_index.find_less [of t a] show ?thesis by (simp add: unregister_host_eq Let_def)
qed

section \<open>Host names\<close>

definition hostname_reply :: "bytes \<Rightarrow> netspace_node \<Rightarrow> frame_hostname" where
  "hostname_reply junk n = \<lparr>fh_response = rcode_val Rc_ok, fh_protocol = m_proto n,
     fh_len = char_of (length (m_hostname n)),
     fh_hostname = m_hostname n @ drop (length (m_hostname n)) junk\<rparr>"

lemma hostname_handler_names:
  assumes p: "packet_wf p" "4 \<le> length (packet_data p)"
    and t: "list_all (\<lambda>n. length (m_hostname n) \<le> 125) t"
  shows "hostname_handler junk p t =
    (case by_key m_addr t (V4 (bytes_ipv4 (take 4 (packet_data p)))) of
       None \<Rightarrow> Inr (code_reply Rc_netspace_error)
     | Some n \<Rightarrow> Inr (reply (m_header (typed_packet Mt_gsn_response)) (hostname_bytes (hostname_reply junk n))))"
proof -
  let ?a = "V4 (bytes_ipv4 (take 4 (packet_data p)))"
  have c: "content_as bytes_ipv4 4 p 0 = Inr (bytes_ipv4 (take 4 (packet_data p)))"
    using content_as_ok [of p 0 4 bytes_ipv4] length_packet_data [of p] p by simp
  have "length (m_hostname n) \<le> 125" if "by_key m_addr t ?a = Some n" for n
    using t by_key_SomeD [OF that] by (auto simp: list_all_iff)
  then show ?thesis
    by (auto simp: hostname_handler_def c ipv4_to_netspace_addr_def Let_def table_end_def
        addr_index.find_end_by_key addr_index.find_deref construct_frame_hostname_ok
        hostname_reply_def filled_reply split: option.split)
qed

lemma hostname_handler_eq:
  "packet_wf p \<Longrightarrow> 4 \<le> length (packet_data p) \<Longrightarrow> table_inv t \<Longrightarrow> hostname_handler junk p t =
    (case by_key m_addr t (V4 (bytes_ipv4 (take 4 (packet_data p)))) of
       None \<Rightarrow> Inr (code_reply Rc_netspace_error)
     | Some n \<Rightarrow> Inr (reply (m_header (typed_packet Mt_gsn_response)) (hostname_bytes (hostname_reply junk n))))"
  by (rule hostname_handler_names) (auto simp: table_inv_def list_all_iff)

lemma hostname_reply_reads:
  "length (m_hostname n) \<le> 125 \<Longrightarrow> length junk = 125 \<Longrightarrow>
   content_as bytes_hostname sizeof_hostname
     (reply h (hostname_bytes (hostname_reply junk n))) 0 = Inr (hostname_reply junk n)"
proof -
  assume len: "length (m_hostname n) \<le> 125" "length junk = 125"
  let ?f = "hostname_reply junk n"
  have f: "length (fh_hostname ?f) = 125" using len by (simp add: hostname_reply_def)
  then have l: "length (hostname_bytes ?f) = sizeof_hostname" by (rule hostname_codec.enc_length)
  then have w: "packet_wf (reply h (hostname_bytes ?f))" by (intro reply_wf) (simp add: frame_sizes)
  have "content_as bytes_hostname sizeof_hostname (reply h (hostname_bytes ?f)) 0
      = Inr (bytes_hostname (take sizeof_hostname (drop 0 (packet_data (reply h (hostname_bytes ?f))))))"
    by (rule content_as_ok [OF w]) (use length_packet_data [OF w] l in simp)
  then show ?thesis using l f by (simp add: hostname_codec.dec_enc)
qed

section \<open>Every message keeps the invariant\<close>

lemma query_one_table: "query_one env p suid q st = Inr (s, st') \<Longrightarrow> nstable st' = nstable st"
  by (auto simp: query_one_def Let_def bindR_eq_Inr split: if_splits)

lemma query_all_table: "query_all env p q st = Inr (s, st') \<Longrightarrow> nstable st' = nstable st"
  by (auto simp: query_all_def bindR_eq_Inr)

lemma query_handler_table: "query_handler env p st = Inr (r, st') \<Longrightarrow> nstable st' = nstable st"
  by (auto simp: query_handler_def bindR_eq_Inr dest: query_one_table query_all_table split: if_splits)

lemma process_packet_table:
  assumes "process_packet env p a st = Inr (r, st')"
  shows "nstable st' = nstable st
    \<or> (\<exists>r'. register_host (env_asio env) p a (nstable st) = Inr (r', nstable st'))
    \<or> (\<exists>r'. unregister_host (env_asio env) p a (nstable st) = Inr (r', nstable st'))"
  using assms
  by (auto simp: process_packet_def Let_def bindR_eq_Inr dest: query_handler_table
      split: option.splits dvsp_msgtype.splits)

lemma process_typed:
  "hdr_type (m_header p) = msgtype_val Mt_gsn_register_host \<Longrightarrow> process_packet env p a st =
     bindR (register_host (env_asio env) p a (nstable st)) (\<lambda>(r, t'). Inr (r, st\<lparr>nstable := t'\<rparr>))"
  "hdr_type (m_header p) = msgtype_val Mt_gsn_unregister_host \<Longrightarrow> process_packet env p a st =
     bindR (unregister_host (env_asio env) p a (nstable st)) (\<lambda>(r, t'). Inr (r, st\<lparr>nstable := t'\<rparr>))"
  "hdr_type (m_header p) = msgtype_val Mt_gsn_resolution \<Longrightarrow> process_packet env p a st =
     bindR (resolve_handler (env_gsn env) p (nstable st)) (\<lambda>r. Inr (r, st))"
  by (simp_all add: process_packet_def Let_def msgtype_enum.enum_of_val del: msgtype_val.simps)

lemma process_packet_inv:
  assumes "packet_wf p" "asio_ok (env_asio env)" "table_inv (nstable st)"
    "process_packet env p a st = Inr (r, st')"
  shows "table_inv (nstable st')"
  using process_packet_table [OF assms(4)] assms register_host_inv unregister_host_inv by metis

section \<open>Every message is a step of the abstract registry\<close>

inductive registry_step :: "registry \<Rightarrow> registry \<Rightarrow> bool" where
  enter: "fst (spec_register n r) = Rc_ok \<Longrightarrow> registry_step r (snd (spec_register n r))"
| forget: "fst r (m_hostname n) = Some n \<Longrightarrow> snd r (m_suid n) = Some n \<Longrightarrow> registry_step r (spec_forget n r)"

inductive_cases registry_step_cases: "registry_step r r'"

lemma register_host_step:
  assumes "packet_wf p" "asio_ok io" "register_host io p a t = Inr (c, t')"
  shows "abs_registry t' = abs_registry t \<or> registry_step (abs_registry t) (abs_registry t')"
proof (cases "readable_request p")
  case True
  let ?n = "requested_node p a"
  from assms(3) register_host_eq [OF True assms(2), of a t]
  have "t' = t \<or> (t' = t @ [?n] \<and> m_hostname ?n \<notin> m_hostname ` set t \<and> m_suid ?n \<notin> m_suid ` set t)"
    by (auto simp: Let_def split: if_splits)
  then show ?thesis
    using abs_registry_add [of ?n t] spec_register_code [of ?n t] registry_step.enter [of ?n "abs_registry t"]
    by auto
next
  case False
  with assms register_host_unreadable [of p io a t] show ?thesis by (auto split: if_splits)
qed

lemma unregister_host_step:
  assumes "asio_ok io" "table_inv t" "unregister_host io p a t = Inr (c, t')"
  shows "abs_registry t' = abs_registry t \<or> registry_step (abs_registry t) (abs_registry t')"
proof (cases "find_addr t a < length t")
  case True
  let ?n = "t ! find_addr t a"
  have "by_key m_hostname t (m_hostname ?n) = Some ?n" "by_key m_suid t (m_suid ?n) = Some ?n"
    using assms(2) True by (auto simp: table_inv_def intro: by_key_mem)
  then have "registry_step (abs_registry t) (spec_forget ?n (abs_registry t))"
    by (intro registry_step.forget) (simp_all add: abs_registry_def)
  with assms True abs_registry_remove [OF assms(2) True] show ?thesis
    by (simp add: unregister_host_eq Let_def)
next
  case False
  with assms show ?thesis by (simp add: unregister_host_eq Let_def)
qed

lemma process_packet_step:
  assumes "packet_wf p" "asio_ok (env_asio env)" "table_inv (nstable st)"
    "process_packet env p a st = Inr (r, st')"
  shows "abs_registry (nstable st') = abs_registry (nstable st)
    \<or> registry_step (abs_registry (nstable st)) (abs_registry (nstable st'))"
  using process_packet_table [OF assms(4)] register_host_step [OF assms(1,2)]
    unregister_host_step [OF assms(2,3)] by metis

text \<open>What a request may do to the table: only a registration and an unregistration change it, and they
  enter or forget just the node they are about.\<close>

definition registry_effect :: "dvsp_packet \<Rightarrow> netspace_addr \<Rightarrow> netspace_table \<Rightarrow> netspace_table \<Rightarrow> bool" where
  "registry_effect p a t t' \<longleftrightarrow>
     (if hdr_type (m_header p) = msgtype_val Mt_gsn_register_host then
        (if 5 \<le> schar (fr_type (request_frame p)) then t' = t
         else abs_registry t' = snd (spec_register (requested_node p a) (abs_registry t)))
      else if hdr_type (m_header p) = msgtype_val Mt_gsn_unregister_host then
        (\<exists>n \<in> set t. m_addr n = a \<and> abs_registry t' = spec_forget n (abs_registry t))
        \<or> a \<notin> m_addr ` set t \<and> t' = t
      else t' = t)"

lemma process_other_table:
  assumes "hdr_type (m_header p) \<noteq> msgtype_val Mt_gsn_register_host"
    "hdr_type (m_header p) \<noteq> msgtype_val Mt_gsn_unregister_host" "process_packet env p a st = Inr (out, st')"
  shows "nstable st' = nstable st"
proof (cases "enum_of msgtype_val (hdr_type (m_header p))")
  case None
  with assms(3) show ?thesis by (simp add: process_packet_def)
next
  case (Some mt)
  then have "hdr_type (m_header p) = msgtype_val mt" by (simp add: msgtype_enum.enum_of_Some)
  with Some assms show ?thesis
    by (cases mt) (auto simp: process_packet_def Let_def bindR_eq_Inr dest: query_handler_table
        simp del: msgtype_val.simps)
qed

lemma process_packet_effect:
  assumes "packet_wf p" "asio_ok (env_asio env)" "table_inv (nstable st)" "process_packet env p a st = Inr (out, st')"
  shows "registry_effect p a (nstable st) (nstable st')"
proof -
  let ?t = "nstable st" and ?t' = "nstable st'"
  consider (reg) "hdr_type (m_header p) = msgtype_val Mt_gsn_register_host"
    | (unreg) "hdr_type (m_header p) = msgtype_val Mt_gsn_unregister_host"
    | (other) "hdr_type (m_header p) \<noteq> msgtype_val Mt_gsn_register_host"
        "hdr_type (m_header p) \<noteq> msgtype_val Mt_gsn_unregister_host" by blast
  then show ?thesis
  proof cases
    case reg
    with assms(4) have r: "register_host (env_asio env) p a ?t = Inr (out, ?t')"
      by (auto simp: process_typed(1) bindR_eq_Inr)
    have ty: "m_type (requested_node p a) = fr_type (request_frame p)" by (simp add: requested_node_def)
    have "if 5 \<le> schar (fr_type (request_frame p)) then ?t' = ?t
        else abs_registry ?t' = snd (spec_register (requested_node p a) (abs_registry ?t))"
    proof (cases "readable_request p")
      case True
      with r register_refines [OF True assms(2), of a ?t] register_host_eq [OF True assms(2), of a ?t] ty
      show ?thesis by (auto simp: Let_def not_le)
    next
      case False
      with r register_host_unreadable [OF assms(1) False, of "env_asio env" a ?t] show ?thesis
        by (auto split: if_splits)
    qed
    with reg show ?thesis by (simp add: registry_effect_def del: msgtype_val.simps)
  next
    case unreg
    with assms(4) have r: "unregister_host (env_asio env) p a ?t = Inr (out, ?t')"
      by (auto simp: process_typed(2) bindR_eq_Inr)
    have "msgtype_val Mt_gsn_unregister_host \<noteq> msgtype_val Mt_gsn_register_host" by simp
    with unreg r unregister_refines [OF assms(2,3), of a p] show ?thesis
      by (auto simp: registry_effect_def simp del: msgtype_val.simps)
  next
    case other
    with process_other_table [OF other assms(4)] show ?thesis by (simp add: registry_effect_def)
  qed
qed

lemma code_reply_inject: "code_reply c = code_reply d \<longleftrightarrow> c = d"
proof -
  have "rcode_val c = rcode_val d \<longleftrightarrow> c = d" using rcode_enum.val_inj by blast
  then show ?thesis
    using response_codec.enc_inject [of "rcode_val c" "rcode_val d"]
    by (auto simp: code_reply_def reply_def response_code_bytes_def word_bytes_def)
qed

lemma register_ok_table:
  assumes "readable_request p" "asio_ok io" "register_host io p a t = Inr (code_reply Rc_ok, t')"
  shows "t' = t @ [requested_node p a] \<and> m_hostname (requested_node p a) \<notin> m_hostname ` set t
    \<and> m_suid (requested_node p a) \<notin> m_suid ` set t"
  using assms register_host_eq [OF assms(1,2), of a t]
  by (auto simp: Let_def code_reply_inject split: if_splits)

section \<open>Properties\<close>

definition sample_request :: "char \<Rightarrow> string \<Rightarrow> dvsp_packet" where
  "sample_request len s = reply (dvsp_header_default\<lparr>hdr_type := msgtype_val Mt_gsn_register_host\<rparr>)
     (register_bytes \<lparr>fr_type = netnode_val Nt_org, fr_len = len,
        fr_protocol = protocol_val Proto_http, fr_hostname = s @ replicate (125 - length s) NUL\<rparr>)"

lemma sample_request_frame:
  assumes "length s \<le> 125"
  shows "packet_wf (sample_request len s)" "length (packet_data (sample_request len s)) = sizeof_register"
    "request_frame (sample_request len s) = \<lparr>fr_type = netnode_val Nt_org, fr_len = len,
        fr_protocol = protocol_val Proto_http, fr_hostname = s @ replicate (125 - length s) NUL\<rparr>"
proof -
  let ?f = "\<lparr>fr_type = netnode_val Nt_org, fr_len = len, fr_protocol = protocol_val Proto_http,
    fr_hostname = s @ replicate (125 - length s) NUL\<rparr>"
  have f: "length (fr_hostname ?f) = 125" using assms by simp
  note l = register_codec.enc_length [OF f]
  show "length (packet_data (sample_request len s)) = sizeof_register"
    using l by (simp add: sample_request_def)
  show "packet_wf (sample_request len s)"
    unfolding sample_request_def by (rule reply_wf) (use l in \<open>simp add: frame_sizes\<close>)
  show "request_frame (sample_request len s) = ?f"
    using l register_codec.dec_enc [OF f] by (simp add: request_frame_def sample_request_def)
qed

lemma sample_request_reads:
  assumes "length s \<le> 125"
  shows "readable_request (sample_request (char_of (length s)) s)"
    "request_name (sample_request (char_of (length s)) s) = s"
  using assms sample_request_frame [OF assms, of "char_of (length s)"]
  by (simp_all add: readable_request_def request_name_def schar_char_of)

abbreviation sample_addr :: netspace_addr where
  "sample_addr \<equiv> V4 (Ipv4 CHR 0x0A CHR 0x00 CHR 0x00 CHR 0x01)"

lemma sample_requested:
  "requested_node (sample_request CHR 0x07 ''acme|a1'') sample_addr =
    \<lparr>m_type = netnode_val Nt_org, m_addr = sample_addr, m_hostname = ''acme'', m_proto = protocol_val Proto_http,
     m_suid = ''a1''\<rparr>"
  "readable_request (sample_request CHR 0x07 ''acme|a1'')"
proof -
  have c: "char_of (7::nat) = CHR 0x07" by (simp add: char_of_eq_iff)
  have l: "length ''acme|a1'' \<le> 125" "length ''acme|a1'' = 7" by simp_all
  show "readable_request (sample_request CHR 0x07 ''acme|a1'')"
    using sample_request_reads(1) [OF l(1)] unfolding l(2) c .
  have n: "request_name (sample_request CHR 0x07 ''acme|a1'') = ''acme|a1''"
    using sample_request_reads(2) [OF l(1)] unfolding l(2) c .
  then show "requested_node (sample_request CHR 0x07 ''acme|a1'') sample_addr =
    \<lparr>m_type = netnode_val Nt_org, m_addr = sample_addr, m_hostname = ''acme'', m_proto = protocol_val Proto_http,
     m_suid = ''a1''\<rparr>"
    using sample_request_frame(3) [OF l(1), of "CHR 0x07"]
    by (simp add: requested_node_def name_parts_def)
qed

text \<open>C3: The answer to a readable registration and the new table, on every branch: a type byte of
  5 or more (as a signed byte) is refused as malformed; a host name or identifier that some node of
  the table already has is refused with \<open>netspace_duplicate\<close>; otherwise the node with the sender's
  address, the text before the bar as host name and the text after it as identifier (or the whole
  text as both, without a bar) goes to the end of the table and the answer is \<open>ok\<close>.\<close>

theorem register_host_spec:
  assumes "readable_request p" "asio_ok io"
  shows "register_host io p a t =
    (let n = requested_node p a in
     if 5 \<le> schar (m_type n) then Inr (code_reply Rc_malformed_content, t)
     else if m_hostname n \<in> m_hostname ` set t \<or> m_suid n \<in> m_suid ` set t
     then Inr (code_reply Rc_netspace_duplicate, t)
     else Inr (code_reply Rc_ok, t @ [n]))"
  by (rule register_host_eq [OF assms])

theorem register_host_spec_witness:
  "register_host ref_asio (sample_request CHR 0x07 ''acme|a1'') sample_addr [] =
    Inr (code_reply Rc_ok, [\<lparr>m_type = netnode_val Nt_org, m_addr = sample_addr, m_hostname = ''acme'',
      m_proto = protocol_val Proto_http, m_suid = ''a1''\<rparr>])"
  using register_host_spec [OF sample_requested(2) asio_ok_ref, of sample_addr "[]"]
  by (simp add: sample_requested(1) Let_def schar_def)

text \<open>A registration whose length byte does not fit its array: refused as malformed if the type
  is out of range, else the exception of \<open>std::string\<close> when the byte is negative, and a read past
  the end of the frame when it is above 125.\<close>

lemma register_bad_length:
  assumes "packet_wf p" "sizeof_register \<le> length (packet_data p)"
    "schar (fr_len (request_frame p)) < 0 \<or> 125 < schar (fr_len (request_frame p))"
  shows "register_host io p a t =
    (if 5 \<le> schar (fr_type (request_frame p)) then Inr (code_reply Rc_malformed_content, t)
     else if schar (fr_len (request_frame p)) < 0 then Inl (Throw Std_length_error)
     else Inl (Undefined Oob_read))"
  using register_host_unreadable [of p io a t] assms by (auto simp: readable_request_def)

lemma register_bad_length_example:
  "register_host ref_asio (sample_request CHR 0xFF ''acme'') sample_addr [] = Inl (Throw Std_length_error)
   \<and> register_host ref_asio (sample_request CHR 0x7E ''acme'') sample_addr [] = Inl (Undefined Oob_read)"
  using register_bad_length [of "sample_request CHR 0xFF ''acme''" ref_asio sample_addr "[]"]
    register_bad_length [of "sample_request CHR 0x7E ''acme''" ref_asio sample_addr "[]"]
    sample_request_frame [of "''acme''"]
  by (simp add: schar_def)

text \<open>C4: Registration implements the abstract registry: with the maps from host names and from
  identifiers to nodes as the abstract state, the answer and the new state are those of
  \<open>spec_register\<close>, which refuses a taken name and otherwise enters the node in both maps.\<close>

theorem register_refines_registry:
  assumes "readable_request p" "asio_ok io" "schar (m_type (requested_node p a)) < 5"
  shows "\<exists>t'. register_host io p a t =
      Inr (code_reply (fst (spec_register (requested_node p a) (abs_registry t))), t')
    \<and> abs_registry t' = snd (spec_register (requested_node p a) (abs_registry t))"
  by (rule register_refines [OF assms])

theorem register_refines_registry_witness:
  "\<exists>t'. register_host ref_asio (sample_request CHR 0x07 ''acme|a1'') sample_addr [] =
      Inr (code_reply Rc_ok, t') \<and> fst (abs_registry t') ''acme'' \<noteq> None \<and> snd (abs_registry t') ''a1'' \<noteq> None"
  using register_refines_registry [OF sample_requested(2) asio_ok_ref, of sample_addr "[]"]
  by (auto simp: sample_requested(1) schar_def abs_registry_def)

text \<open>C5: Unregistration implements the abstract registry: on a table that satisfies the invariant
  either a node with the sender's address leaves both maps and the answer is \<open>ok\<close>, or no node has
  this address, the answer is \<open>netspace_error\<close> and nothing changes.\<close>

theorem unregister_refines_registry:
  assumes "asio_ok io" "table_inv t"
  shows "(\<exists>n \<in> set t. m_addr n = a \<and> (\<exists>t'. unregister_host io p a t = Inr (code_reply Rc_ok, t')
        \<and> abs_registry t' = spec_forget n (abs_registry t)))
    \<or> a \<notin> m_addr ` set t \<and> unregister_host io p a t = Inr (code_reply Rc_netspace_error, t)"
  by (rule unregister_refines [OF assms])

abbreviation sample_node :: netspace_node where
  "sample_node \<equiv> \<lparr>m_type = netnode_val Nt_org, m_addr = sample_addr, m_hostname = ''acme'',
     m_proto = protocol_val Proto_http, m_suid = ''a1''\<rparr>"

lemma sample_table_inv: "table_inv [sample_node]"
  by (simp add: table_inv_def schar_def)

theorem unregister_refines_registry_witness:
  "\<exists>t'. unregister_host ref_asio packet_default sample_addr [sample_node] = Inr (code_reply Rc_ok, t')
    \<and> fst (abs_registry t') ''acme'' = None"
  using unregister_refines_registry [OF asio_ok_ref sample_table_inv, of sample_addr packet_default]
  by (auto simp: abs_registry_def)

text \<open>After a successful registration from an IPv4 address that no node had before, the
  host-name service, asked for that address, answers with the registered host name and protocol.\<close>

lemma hostname_after_register:
  assumes "readable_request p" "asio_ok io" "table_inv t" "V4 ip \<notin> m_addr ` set t"
    "register_host io p (V4 ip) t = Inr (code_reply Rc_ok, t')" "length junk = 125"
    "packet_wf q" "packet_data q = ipv4_bytes ip"
  shows "\<exists>s f. hostname_handler junk q t' = Inr s
    \<and> content_as bytes_hostname sizeof_hostname s 0 = Inr f \<and> fh_response f = rcode_val Rc_ok
    \<and> take (nat (schar (fh_len f))) (fh_hostname f) = fst (name_parts (request_name p))
    \<and> fh_protocol f = fr_protocol (request_frame p)"
proof -
  let ?n = "requested_node p (V4 ip)"
  have t': "t' = t @ [?n]" using register_ok_table [OF assms(1,2,5)] by simp
  have inv: "table_inv t'"
    using register_host_inv [OF _ assms(2,3,5)] assms(1) by (simp add: readable_request_def)
  have len: "length (m_hostname ?n) \<le> 125" by (rule length_requested_hostname [OF assms(1)])
  have "by_key m_addr t' (V4 ip) = Some ?n"
    using assms(4) by_key_fresh [of m_addr ?n t] by (simp add: t' requested_node_def)
  then have "hostname_handler junk q t' =
      Inr (reply (m_header (typed_packet Mt_gsn_response)) (hostname_bytes (hostname_reply junk ?n)))"
    using hostname_handler_eq [OF assms(7) _ inv, of junk] assms(8) by simp
  moreover note hostname_reply_reads [OF len assms(6)]
  ultimately show ?thesis using len
    by (simp add: hostname_reply_def schar_char_of) (simp add: requested_node_def)
qed

lemma hostname_after_register_example:
  "\<exists>s f. hostname_handler (replicate 125 NUL)
      (reply dvsp_header_default (ipv4_bytes (Ipv4 CHR 0x0A CHR 0x00 CHR 0x00 CHR 0x01))) [sample_node] = Inr s
    \<and> content_as bytes_hostname sizeof_hostname s 0 = Inr f
    \<and> take (nat (schar (fh_len f))) (fh_hostname f) = ''acme''"
proof -
  let ?p = "sample_request CHR 0x07 ''acme|a1''"
  have "register_host ref_asio ?p sample_addr [] = Inr (code_reply Rc_ok, [sample_node])"
    using register_host_eq [OF sample_requested(2) asio_ok_ref, of sample_addr "[]"]
    by (simp add: sample_requested(1) Let_def schar_def)
  moreover have "fst (name_parts (request_name ?p)) = ''acme''"
    using arg_cong [OF sample_requested(1), of m_hostname] by (simp add: requested_node_def)
  ultimately show ?thesis
    using hostname_after_register [OF sample_requested(2) asio_ok_ref table_inv_empty, of _ "[sample_node]"
        "replicate 125 NUL" "reply dvsp_header_default (ipv4_bytes (Ipv4 CHR 0x0A CHR 0x00 CHR 0x00 CHR 0x01))"]
    by (fastforce intro: reply_wf)
qed

definition sample_env :: root_env where
  "sample_env = \<lparr>env_asio = ref_asio, env_gsn = table_db [], env_net = (\<lambda>_ _ _. Net_failed),
     env_stk = [NUL], env_junk = replicate 125 NUL\<rparr>"

definition sample_state :: root_state where
  "sample_state = \<lparr>nstable = [sample_node], outbox = []\<rparr>"

text \<open>A message of any other type than the seven the handler knows, \<open>gsn_root_nodes\<close> among
  them, is answered with \<open>malformed_content\<close> and changes nothing.\<close>

lemma unknown_type_refused:
  assumes "hdr_type (m_header p) \<notin> msgtype_val ` {Mt_gsn_register_host, Mt_gsn_unregister_host,
    Mt_gsn_resolution, Mt_gsn_local_area, Mt_gtn_root_nodes, Mt_gsn_hostname, Mt_gsn_request}"
  shows "process_packet env p a st = Inr (code_reply Rc_malformed_content, st)"
proof -
  have "enum_of msgtype_val (hdr_type (m_header p)) \<noteq> Some m"
    if "m \<in> {Mt_gsn_register_host, Mt_gsn_unregister_host, Mt_gsn_resolution, Mt_gsn_local_area,
      Mt_gtn_root_nodes, Mt_gsn_hostname, Mt_gsn_request}" for m
    using assms that by (auto simp: msgtype_enum.enum_of_Some)
  then show ?thesis
    by (simp add: process_packet_def Let_def split: option.split dvsp_msgtype.split)
qed

lemma unknown_type_refused_example:
  "process_packet sample_env (typed_packet Mt_gsn_root_nodes) sample_addr sample_state =
    Inr (code_reply Rc_malformed_content, sample_state)"
  by (rule unknown_type_refused) simp

text \<open>The listing of a node's area is the text of the organisation nodes of its table in the
  order of their registration, one entry of host name, identifier and address each; the listing of
  the root nodes is that of the nodes of type \<open>root\<close>. Neither is a \<open>frame_network\<close>, and neither
  changes anything.\<close>

lemma listings:
  assumes "hdr_type (m_header p) = msgtype_val mt" "mt = Mt_gsn_local_area \<or> mt = Mt_gtn_root_nodes"
  defines "ty \<equiv> netnode_val (if mt = Mt_gsn_local_area then Nt_org else Nt_root)"
  shows "\<exists>r. process_packet env p a st = Inr (r, st) \<and> hdr_type (m_header r) = msgtype_val Mt_gsn_response
    \<and> packet_data r = concat (map (network_entry (env_asio env)) (filter (\<lambda>n. m_type n = ty) (nstable st)))"
proof -
  have e: "enum_of msgtype_val (hdr_type (m_header p)) = Some mt"
    unfolding assms(1) by (rule msgtype_enum.enum_of_val)
  have c: "netspace_node_copy = (\<lambda>n. n)" by (rule ext) simp
  show ?thesis
    using assms(2) e
    by (auto simp: process_packet_def Let_def local_gsn_def root_nodes_def nodes_of_def
        construct_frame_network_def ty_def c simp del: str_content_filled)
qed

lemma listings_example:
  "\<exists>r. process_packet sample_env (typed_packet Mt_gsn_local_area) sample_addr sample_state = Inr (r, sample_state)
    \<and> packet_data r = ''acme|a1|10.0.0.1;''"
proof -
  have "addr_string ref_asio sample_addr = ''10.0.0.1''" by code_simp
  then show ?thesis
    using listings [of "typed_packet Mt_gsn_local_area" Mt_gsn_local_area sample_env sample_addr sample_state]
    by (auto simp: sample_env_def sample_state_def)
qed

end
