(* ===== verification/Resolution.thy ===== *)
theory Resolution
  imports Registry
begin

text \<open>
  Name resolution: what \<open>resolve_gsn\<close> of the handler answers for each shape of URL, and what
  following its forwarding answers from node to node leads to. A node that knows the last label
  but one answers with that label's node when it is the only one left, and otherwise hands the
  request on, with the top label removed, to that node.
\<close>

section \<open>One node\<close>

definition address_frame :: "netspace_node \<Rightarrow> netspace_ipv4 \<Rightarrow> frame_address" where
  "address_frame n a = \<lparr>fa_response = rcode_val Rc_ok, fa_protocol = m_proto n, fa_addr = a\<rparr>"

lemma address_reply_V4:
  "m_addr n = V4 a \<Longrightarrow> address_reply p n =
     Inr (reply (m_header (reply_to p)) (address_bytes (address_frame n a)))"
  by (simp add: address_reply_def construct_frame_address_def address_frame_def filled_reply)

lemma address_reply_V6: "m_addr n = V6 s \<Longrightarrow> address_reply p n = Inl (Throw Boost_bad_address_cast)"
  by (simp add: address_reply_def construct_frame_address_def)

lemma address_reply_reads:
  "content_as bytes_address sizeof_address (reply h (address_bytes f)) 0 = Inr f"
proof -
  have l: "length (address_bytes f) = sizeof_address" by (simp add: address_codec.enc_length)
  then have w: "packet_wf (reply h (address_bytes f))" by (intro reply_wf) (simp add: frame_sizes)
  show ?thesis
    using content_as_ok [OF w, of 0 sizeof_address bytes_address] length_packet_data [OF w] l
    by (simp add: address_codec.dec_enc)
qed

text \<open>A request whose content is the text of a well-formed URL.\<close>

definition carries :: "dvsp_packet \<Rightarrow> netspace_url \<Rightarrow> bool" where
  "carries p u \<longleftrightarrow> packet_wf p \<and> url_wf u \<and> packet_data p = url_text u"

lemma carries_text: "carries p u \<Longrightarrow> packet_to_string p 0 = Inr (url_text u)"
  using packet_to_string_wf [of p 0] url_text_long [of u] by (cases "url_text u = []") (auto simp: carries_def)

lemma carries_url: "carries p u \<Longrightarrow> netspace_url_of (url_text u) = Inr (u\<lparr>m_url := url_text u\<rparr>)"
  by (simp add: carries_def url_of_text)

definition answer_host :: "dvsp_packet \<Rightarrow> netspace_table \<Rightarrow> string \<Rightarrow> dvsp_packet result" where
  "answer_host p t h = (case by_key m_hostname t h of
     None \<Rightarrow> Inr (code_reply Rc_netspace_error) | Some n \<Rightarrow> address_reply p n)"

lemma find_host_answer:
  "(let it = find_host t h in if it = table_end t then response Rc_netspace_error
     else bindR (deref t it) f) =
   (case by_key m_hostname t h of None \<Rightarrow> Inr (code_reply Rc_netspace_error) | Some n \<Rightarrow> f n)"
  by (simp add: Let_def table_end_def host_index.find_end_by_key host_index.find_deref split: option.split)

definition forward :: "dvsp_packet \<Rightarrow> netspace_url \<Rightarrow> netspace_ipv4 \<Rightarrow> dvsp_packet" where
  "forward p u a = reply ((m_header p)\<lparr>addr_dest := a\<rparr>) (url_text u)"

lemma resolve_handler_eq:
  assumes p: "carries p u"
  defines "r \<equiv> butlast (m_gsn u)"
  shows "resolve_handler db p t =
    (if r = [] \<and> m_glq u \<noteq> [] then bindR (resolve_gsn db (m_glq u)) (answer_host p t)
     else if r = [] then Inl (Undefined Empty_container)
     else case by_key m_hostname t (last r) of
       None \<Rightarrow> Inr (code_reply Rc_netspace_error)
     | Some n \<Rightarrow>
         if length r = 1 then address_reply p n
         else bindR (to_v4 (m_addr n)) (\<lambda>a. Inr (forward p (u\<lparr>m_gsn := r\<rparr>) a)))"
proof -
  have gsn: "m_gsn u \<noteq> []" using p by (simp add: carries_def url_wf_def)
  let ?v = "u\<lparr>m_url := url_text u, m_gsn := r\<rparr>"
  have pop: "route_pop_back (u\<lparr>m_url := url_text u\<rparr>) = Inr ?v"
    using gsn by (simp add: route_pop_back_def r_def)
  have utext: "fst (url_to_string ?v) = url_text (u\<lparr>m_gsn := r\<rparr>)"
    by (simp add: url_to_string_def Let_def url_text_def)
  have hdr: "m_content (packet_default\<lparr>m_header := h\<rparr>) = Null_ptr"
    "m_header (packet_default\<lparr>m_header := h\<rparr>) = h" for h
    by simp_all
  have fwd: "(reply (m_header p) s)\<lparr>m_header := (m_header (reply (m_header p) s))\<lparr>addr_dest := a\<rparr>\<rparr>
      = reply ((m_header p)\<lparr>addr_dest := a\<rparr>) s" for s a
    by (simp add: reply_def)
  show ?thesis
    by (simp add: resolve_handler_def carries_text [OF p] carries_url [OF p] pop utext hdr fwd
        route_back_def find_host_answer answer_host_def [abs_def] forward_def
        del: str_content_filled split: option.split)
qed

lemma url_wf_pop: "url_wf u \<Longrightarrow> 2 < length (m_gsn u) \<Longrightarrow> url_wf (u\<lparr>m_gsn := butlast (m_gsn u)\<rparr>)"
proof -
  assume u: "url_wf u" and len: "2 < length (m_gsn u)"
  then have "2 \<le> length (butlast (m_gsn u))" by simp
  then have "butlast (m_gsn u) \<noteq> xs" if "length xs < 2" for xs using that by (metis not_le)
  then have "butlast (m_gsn u) \<noteq> []" "butlast (m_gsn u) \<noteq> [[]]" by simp_all
  with u show ?thesis by (auto simp: url_wf_def list_all_iff dest: in_set_butlastD)
qed

lemma forward_carries:
  "url_wf u \<Longrightarrow> length (url_text u) < 2 ^ 32 \<Longrightarrow> carries (forward p u a) u"
  by (simp add: carries_def forward_def reply_wf)

lemma length_route_text_butlast: "length (route_text (butlast r)) \<le> length (route_text r)"
  by (induction r rule: route_text.induct) (auto split: if_splits)

lemma length_url_text_pop: "length (url_text (u\<lparr>m_gsn := butlast (m_gsn u)\<rparr>)) \<le> length (url_text u)"
  using length_route_text_butlast [of "m_gsn u"] by (simp add: url_text_def)

section \<open>From node to node\<close>

text \<open>A requester that sends each forwarding answer on to the node it names; \<open>net\<close> gives the
  table at every address and the number bounds the exchanges.\<close>

fun follow :: "gsn_db \<Rightarrow> (netspace_ipv4 \<Rightarrow> netspace_table) \<Rightarrow> nat \<Rightarrow> netspace_ipv4 \<Rightarrow> dvsp_packet
    \<Rightarrow> dvsp_packet result option" where
  "follow db net 0 pos p = None"
| "follow db net (Suc k) pos p =
     (case resolve_handler db p (net pos) of
        Inl e \<Rightarrow> Some (Inl e)
      | Inr q \<Rightarrow> if hdr_type (m_header q) = msgtype_val Mt_gsn_resolution
                then follow db net k (addr_dest (m_header q)) q else Some (Inr q))"

text \<open>What the exchanges are to find: the labels below the top one, last label first, each looked
  up at the node of the label before.\<close>

fun walk :: "(netspace_ipv4 \<Rightarrow> netspace_table) \<Rightarrow> netspace_ipv4 \<Rightarrow> string list \<Rightarrow> netspace_node option" where
  "walk net pos [] = None"
| "walk net pos [h] = by_key m_hostname (net pos) h"
| "walk net pos (h # h' # hs) =
     (case by_key m_hostname (net pos) h of
        None \<Rightarrow> None
      | Some n \<Rightarrow> (case m_addr n of V4 a \<Rightarrow> walk net a (h' # hs) | V6 _ \<Rightarrow> None))"

definition v4_table :: "netspace_table \<Rightarrow> bool" where
  "v4_table t \<longleftrightarrow> list_all (\<lambda>n. case m_addr n of V4 _ \<Rightarrow> True | V6 _ \<Rightarrow> False) t"

lemma v4_table_by_key: "v4_table t \<Longrightarrow> by_key key t k = Some n \<Longrightarrow> \<exists>a. m_addr n = V4 a"
  by (cases "m_addr n") (auto simp: v4_table_def list_all_iff dest!: by_key_SomeD split: netspace_addr.splits)

text \<open>An answer that ends the exchanges: an address frame for the node, or the error code.\<close>

definition final_answer :: "netspace_node option \<Rightarrow> dvsp_packet \<Rightarrow> bool" where
  "final_answer w q \<longleftrightarrow> hdr_type (m_header q) = msgtype_val Mt_gsn_response \<and>
     (case w of
        None \<Rightarrow> q = code_reply Rc_netspace_error
      | Some n \<Rightarrow> (case m_addr n of
            V4 a \<Rightarrow> content_as bytes_address sizeof_address q 0 = Inr (address_frame n a)
          | V6 _ \<Rightarrow> False))"

lemma code_reply_type [simp]: "hdr_type (m_header (code_reply c)) = msgtype_val Mt_gsn_response"
  by (simp add: code_reply_def)

lemma final_answer_None: "final_answer None (code_reply Rc_netspace_error)"
  by (simp add: final_answer_def)

lemma final_answer_address:
  "m_addr n = V4 a \<Longrightarrow> hdr_type h = CHR 0x08 \<Longrightarrow>
   final_answer (Some n) (reply h (address_bytes (address_frame n a)))"
  by (simp add: final_answer_def address_reply_reads)

lemma forward_type [simp]: "hdr_type (m_header (forward p u a)) = hdr_type (m_header p)"
  "addr_dest (m_header (forward p u a)) = a"
  by (simp_all add: forward_def)

lemma not_resolution [simp]: "msgtype_val Mt_gsn_response \<noteq> msgtype_val Mt_gsn_resolution"
  by simp

lemma follow_walk:
  assumes "carries p u" "hdr_type (m_header p) = msgtype_val Mt_gsn_resolution"
    "length (m_gsn u) = k + 2" "length (url_text u) < 2 ^ 32" "\<And>a. v4_table (net a)"
  shows "\<exists>q. follow db net (Suc k) pos p = Some (Inr q)
    \<and> final_answer (walk net pos (rev (butlast (m_gsn u)))) q"
  using assms(1-4)
proof (induction k arbitrary: p u pos)
  case 0
  then have "length (butlast (m_gsn u)) = 1" by simp
  then obtain l where r: "butlast (m_gsn u) = [l]"
    by (auto simp: length_Suc_conv simp del: length_butlast)
  show ?case
  proof (cases "by_key m_hostname (net pos) l")
    case None
    with 0 r show ?thesis by (simp add: resolve_handler_eq final_answer_None)
  next
    case (Some n)
    from v4_table_by_key [OF assms(5) this] obtain a where "m_addr n = V4 a" by blast
    with 0 r Some show ?thesis by (simp add: resolve_handler_eq address_reply_V4 final_answer_address)
  qed
next
  case (Suc k)
  let ?r = "butlast (m_gsn u)" and ?l = "last (butlast (m_gsn u))"
  have len: "length ?r = k + 2" using Suc.prems(3) by simp
  then have r: "?r \<noteq> []" by (cases ?r) (simp_all del: length_butlast)
  then have "rev ?r = ?l # rev (butlast ?r)" by (cases ?r rule: rev_cases) auto
  moreover have "butlast ?r \<noteq> []" using len by (simp add: length_0_conv [symmetric] del: length_0_conv)
  ultimately obtain h' hs where rv: "rev ?r = ?l # h' # hs" "rev (butlast ?r) = h' # hs"
    by (cases "rev (butlast ?r)") auto
  have w: "walk net pos (rev ?r) = (case by_key m_hostname (net pos) ?l of None \<Rightarrow> None
      | Some n \<Rightarrow> (case m_addr n of V4 a \<Rightarrow> walk net a (rev (butlast ?r)) | V6 _ \<Rightarrow> None))"
    by (simp only: rv walk.simps)
  show ?case
  proof (cases "by_key m_hostname (net pos) ?l")
    case None
    with Suc.prems r w show ?thesis by (simp add: resolve_handler_eq final_answer_None)
  next
    case (Some n)
    from v4_table_by_key [OF assms(5) this] obtain a where a: "m_addr n = V4 a" by blast
    let ?v = "u\<lparr>m_gsn := ?r\<rparr>"
    have v: "url_wf ?v" using Suc.prems by (intro url_wf_pop) (auto simp: carries_def)
    have short: "length (url_text ?v) < 2 ^ 32"
      using length_url_text_pop [of u] Suc.prems(4) by simp
    have "resolve_handler db p (net pos) = Inr (forward p ?v a)"
      using Suc.prems(1) r len Some a by (simp add: resolve_handler_eq)
    then have step: "follow db net (Suc (Suc k)) pos p = follow db net (Suc k) a (forward p ?v a)"
      using Suc.prems(2) by (simp del: follow.simps(2) add: follow.simps(2) [of _ _ "Suc k"])
    have "\<exists>q. follow db net (Suc k) a (forward p ?v a) = Some (Inr q)
        \<and> final_answer (walk net a (rev (butlast (m_gsn ?v)))) q"
      by (rule Suc.IH) (use Suc.prems len short forward_carries [OF v short] in simp_all)
    then show ?thesis using step w Some a by simp
  qed
qed

section \<open>Properties\<close>

definition sample_resolution :: "netspace_url \<Rightarrow> dvsp_packet" where
  "sample_resolution u = reply (dvsp_header_default\<lparr>hdr_type := msgtype_val Mt_gsn_resolution\<rparr>) (url_text u)"

lemma sample_resolution_carries: "url_wf u \<Longrightarrow> length (url_text u) < 2 ^ 32 \<Longrightarrow> carries (sample_resolution u) u"
  by (simp add: carries_def sample_resolution_def reply_wf)

lemma sample_url_short: "length (url_text sample_url) < 2 ^ 32"
  by (simp add: sample_url_def url_text_def netspace_url_empty_def)

lemma sample_carries: "carries (sample_resolution sample_url) sample_url"
  by (rule sample_resolution_carries [OF sample_url_wf sample_url_short])

text \<open>C8: What a node answers to a resolution request for a well-formed URL, on every branch. With
  the top label removed: a route that is empty while a geosub query is given is resolved through the
  GSN database and the host it names; an empty route without one is undefined behaviour; otherwise
  the last label is looked up, an unknown one is answered with \<open>netspace_error\<close>, the only one left
  with its node's address, and with more labels the request goes back with the shortened URL and
  that node's address as the next destination.\<close>

theorem resolve_spec:
  assumes "carries p u"
  shows "resolve_handler db p t =
    (let r = butlast (m_gsn u) in
     if r = [] \<and> m_glq u \<noteq> [] then bindR (resolve_gsn db (m_glq u)) (answer_host p t)
     else if r = [] then Inl (Undefined Empty_container)
     else case by_key m_hostname t (last r) of
       None \<Rightarrow> Inr (code_reply Rc_netspace_error)
     | Some n \<Rightarrow>
         if length r = 1 then address_reply p n
         else bindR (to_v4 (m_addr n)) (\<lambda>a. Inr (forward p (u\<lparr>m_gsn := r\<rparr>) a)))"
  unfolding Let_def by (rule resolve_handler_eq [OF assms])

definition esusx_node :: netspace_node where
  "esusx_node = sample_node\<lparr>m_hostname := ''esusx'', m_addr := V4 (Ipv4 CHR 0x0A CHR 0x00 CHR 0x00 CHR 0x02)\<rparr>"

theorem resolve_spec_witness:
  "resolve_handler sample_db (sample_resolution sample_url) [esusx_node] =
    Inr (forward (sample_resolution sample_url) (sample_url\<lparr>m_gsn := [''cci'', ''esusx'']\<rparr>)
      (Ipv4 CHR 0x0A CHR 0x00 CHR 0x00 CHR 0x02))"
  using resolve_spec [OF sample_carries, of sample_db "[esusx_node]"]
  by (simp add: sample_url_def netspace_url_empty_def esusx_node_def)

text \<open>Following the forwarding answers from node to node ends after as many exchanges as the
  route has labels below the top one, and with the right result: the address of the node found by
  looking each label up at the node of the label before it, or \<open>netspace_error\<close> when some label is
  unknown on the way.\<close>

lemma resolution_follows_route:
  assumes "carries p u" "hdr_type (m_header p) = msgtype_val Mt_gsn_resolution"
    "2 \<le> length (m_gsn u)" "length (url_text u) < 2 ^ 32" "\<forall>a. v4_table (net a)"
  shows "\<exists>q. follow db net (length (m_gsn u) - 1) pos p = Some (Inr q)
    \<and> final_answer (walk net pos (rev (butlast (m_gsn u)))) q"
proof -
  obtain k where k: "length (m_gsn u) = k + 2" using assms(3) by (metis add.commute le_Suc_ex)
  show ?thesis using follow_walk [OF assms(1,2) k assms(4)] assms(5) by (simp add: k)
qed

definition sample_net :: "netspace_ipv4 \<Rightarrow> netspace_table" where
  "sample_net a = (if a = Ipv4 CHR 0x0A CHR 0x00 CHR 0x00 CHR 0x02
     then [sample_node\<lparr>m_hostname := ''cci''\<rparr>] else [esusx_node])"

lemma resolution_follows_route_example:
  "\<exists>q. follow sample_db sample_net 2 ipv4_zero (sample_resolution sample_url) = Some (Inr q)
    \<and> content_as bytes_address sizeof_address q 0 =
        Inr (address_frame (sample_node\<lparr>m_hostname := ''cci''\<rparr>) (Ipv4 CHR 0x0A CHR 0x00 CHR 0x00 CHR 0x01))"
proof -
  have "\<forall>a. v4_table (sample_net a)" by (simp add: v4_table_def sample_net_def esusx_node_def)
  moreover have "hdr_type (m_header (sample_resolution sample_url)) = msgtype_val Mt_gsn_resolution"
    by (simp add: sample_resolution_def)
  moreover have g: "m_gsn sample_url = [''cci'', ''esusx'', ''uk'']" by (simp add: sample_url_def)
  moreover have "walk sample_net ipv4_zero [''esusx'', ''cci''] = Some (sample_node\<lparr>m_hostname := ''cci''\<rparr>)"
    by (simp add: sample_net_def esusx_node_def ipv4_zero_def)
  ultimately show ?thesis
    using resolution_follows_route [OF sample_carries, of sample_net sample_db ipv4_zero] sample_url_short
    by (auto simp: final_answer_def numeral_2_eq_2)
qed

text \<open>A geosub query that the database does not know resolves to the empty text, and the empty
  text is then looked up as a host name: a node that registered with an empty host name receives
  every such query.\<close>

lemma unknown_geosub_goes_to_empty_name:
  assumes "carries p u" "length (m_gsn u) = 1" "m_glq u \<noteq> []" "resolve_gsn db (m_glq u) = Inr []"
    "n \<in> set t" "m_hostname n = []" "table_inv t" "m_addr n = V4 a"
  shows "resolve_handler db p t = Inr (reply (m_header (reply_to p)) (address_bytes (address_frame n a)))"
proof -
  have "butlast (m_gsn u) = []" using assms(2) by (simp add: length_0_conv [symmetric] del: length_0_conv)
  moreover have "by_key m_hostname t [] = Some n"
    using assms(5-7) by_key_mem [of m_hostname t n] by (simp add: table_inv_def)
  ultimately show ?thesis
    using resolve_handler_eq [OF assms(1), of db t] assms(3,4,8)
    by (simp add: answer_host_def address_reply_V4)
qed

lemma unknown_geosub_goes_to_empty_name_example:
  "\<exists>q. resolve_handler sample_db (sample_resolution (netspace_url_empty\<lparr>m_gsn := [''uk''], m_glq := ''zz99''\<rparr>))
      [sample_node\<lparr>m_hostname := []\<rparr>] = Inr q \<and> packet_data q =
    address_bytes (address_frame (sample_node\<lparr>m_hostname := []\<rparr>) (Ipv4 CHR 0x0A CHR 0x00 CHR 0x00 CHR 0x01))"
proof -
  let ?u = "netspace_url_empty\<lparr>m_gsn := [''uk''], m_glq := ''zz99''\<rparr>" and ?n = "sample_node\<lparr>m_hostname := []\<rparr>"
  have "url_wf ?u" by (simp add: netspace_url_empty_def url_wf_def)
  moreover have "length (url_text ?u) < 2 ^ 32" by (simp add: url_text_def netspace_url_empty_def)
  ultimately have c: "carries (sample_resolution ?u) ?u" by (rule sample_resolution_carries)
  have r: "resolve_gsn sample_db ''zz99'' = Inr []" by code_simp
  have "table_inv [?n]" by (simp add: table_inv_def schar_def)
  with unknown_geosub_goes_to_empty_name [OF c, of sample_db ?n "[?n]"] r show ?thesis by simp
qed

end
