(* ===== verification/Query.thy ===== *)
theory Query
  imports Resolution
begin

text \<open>
  Service queries: what \<open>query_one\<close> and \<open>query_all\<close> send to other nodes and how they put the
  answers together, and what becomes of a query without text.
\<close>

section \<open>Requests and answers\<close>

definition request_packet :: "dvsp_header \<Rightarrow> string \<Rightarrow> dvsp_packet" where
  "request_packet h q = \<lparr>m_header = h\<lparr>hdr_size := word_of_nat (length q)\<rparr>, m_content = Live q\<rparr>"

definition request_bytes :: "dvsp_header \<Rightarrow> string \<Rightarrow> netspace_node \<Rightarrow> bytes" where
  "request_bytes h q n = generate_header (m_hostname n) (request_packet h q)
     @ header_bytes (m_header (request_packet h q)) @ q"

text \<open>The text a node answers with, if its answer is a response frame with the code \<open>ok\<close>.\<close>

definition answer_text :: "root_env \<Rightarrow> nat \<Rightarrow> bytes \<Rightarrow> endpoint \<Rightarrow> string option result" where
  "answer_text env k s a = (case env_net env k s a of
     Net_failed \<Rightarrow> Inl (Throw Boost_system_error)
   | Net_reply buf \<Rightarrow>
       bindR (http_to_bin (env_stk env) buf) (\<lambda>raw. bindR (packet_of_serial raw) service_text))"

lemma http_to_bin_c_string: "http_to_bin stk b = Inr d \<Longrightarrow> \<exists>s. c_string b = Inr s"
  by (auto simp: http_to_bin_def bindR_eq_Inr)

lemma ask_peer_answer:
  assumes "http_frame_serialise f = Inr s" "answer_text env (length out) s (frame_endpoint a) = Inr t"
  shows "ask_peer env f a out = Inr (t, out @ [(s, frame_endpoint a)])"
proof (cases "env_net env (length out) s (frame_endpoint a)")
  case (Net_reply buf)
  with assms(2) obtain raw p where raw: "http_to_bin (env_stk env) buf = Inr raw"
      "packet_of_serial raw = Inr p" "service_text p = Inr t"
    by (auto simp: answer_text_def bindR_eq_Inr)
  moreover obtain c where "c_string buf = Inr c" using http_to_bin_c_string [OF raw(1)] by blast
  moreover have "packet_wf p" using raw(2) by (rule packet_of_serial_wf)
  ultimately show ?thesis using assms(1) Net_reply
    by (simp add: ask_peer_def send_frame_def rethrow_sliced_def)
qed (use assms(2) in \<open>simp add: answer_text_def\<close>)

lemma request_packet_wf: "length q < 2 ^ 32 \<Longrightarrow> packet_wf (request_packet h q)"
  by (simp add: request_packet_def packet_wf_def)

lemma filled_request: "q \<noteq> [] \<Longrightarrow> filled q p = request_packet (m_header p) q"
  by (simp add: filled_def request_packet_def)

lemma request_packet_simps [simp]:
  "packet_data (request_packet h q) = q"
  "m_content (request_packet h q) = Live q"
  "hdr_type (m_header (request_packet h q)) = hdr_type h"
  "(request_packet h q)\<lparr>m_header := m_header (request_packet h' q)\<rparr> = request_packet h' q"
  "request_packet (m_header (request_packet h q)) q' = request_packet h q'"
  "(m_header (request_packet h q))\<lparr>addr_dest := a\<rparr> = m_header (request_packet (h\<lparr>addr_dest := a\<rparr>) q)"
  by (simp_all add: request_packet_def packet_data_def)

lemma http_frame_of_request:
  "length q < 2 ^ 32 \<Longrightarrow> \<exists>f. http_frame_of (request_packet h q) (m_hostname n) = Inr f
     \<and> http_frame_serialise f = Inr (request_bytes h q n)"
proof -
  assume "length q < 2 ^ 32"
  then have w: "packet_wf (request_packet h q)" by (rule request_packet_wf)
  have e: "\<lparr>m_header = m_header (request_packet h q), m_content = Live q\<rparr> = request_packet h q"
    by (simp add: request_packet_def)
  show ?thesis
    using http_frame_wf [OF w, of "m_hostname n"] w
    by (simp add: e http_frame_serialise_wf request_bytes_def)
qed

lemma dump_serialised: "packet_wf p \<Longrightarrow> \<exists>b. bindR (serialise p) dump_frames = Inr b"
proof -
  assume p: "packet_wf p"
  then have "packet_of_serial (header_bytes (m_header p) @ packet_data p @ []) =
      Inr \<lparr>m_header = m_header p, m_content = (if packet_data p = [] then Null_ptr else Live (packet_data p))\<rparr>"
    by (intro packet_of_serial_app) (simp add: length_packet_data)
  with p show ?thesis by (simp add: serialise_wf dump_frames_eq)
qed

lemma unwind_Inr [simp]: "unwind p (Inr x) = Inr x"
  by (simp add: unwind_def)

section \<open>One node\<close>

lemma query_one_answer:
  assumes p: "packet_wf p" and q: "q \<noteq> []" "length q < 2 ^ 32"
    and n: "by_key m_suid (nstable st) suid = Some n" "m_addr n = V4 a"
    and ans: "answer_text env (length (outbox st)) (request_bytes (m_header p) q n) (frame_endpoint a) = Inr t"
  shows "query_one env p suid q st =
    Inr (case t of Some s \<Rightarrow> s | None \<Rightarrow> [],
         st\<lparr>outbox := outbox st @ [(request_bytes (m_header p) q n, frame_endpoint a)]\<rparr>)"
proof -
  let ?r = "request_packet (m_header p) q"
  obtain f where f: "http_frame_of ?r (m_hostname n) = Inr f"
      "http_frame_serialise f = Inr (request_bytes (m_header p) q n)"
    using http_frame_of_request [OF q(2), of "m_header p" n] by blast
  have "str_content q p = Inr ?r" using p q by (simp add: filled_request)
  moreover have "ask_peer env f a (outbox st) = Inr (t, outbox st @ [(request_bytes (m_header p) q n, frame_endpoint a)])"
    using f(2) ans by (rule ask_peer_answer)
  moreover have "packet_wf ?r" using q(2) by (rule request_packet_wf)
  ultimately show ?thesis using n f(1)
    by (simp add: query_one_def Let_def table_end_def suid_index.find_end_by_key suid_index.find_deref)
qed

lemma query_one_unknown:
  "packet_wf p \<Longrightarrow> by_key m_suid (nstable st) suid = None \<Longrightarrow> query_one env p suid q st = Inr ([], st)"
  by (simp add: query_one_def Let_def table_end_def suid_index.find_end_by_key)

section \<open>All nodes\<close>

definition is_http :: "netspace_node \<Rightarrow> bool" where
  "is_http n \<longleftrightarrow> m_proto n = protocol_val Proto_http"

definition node_ipv4 :: "netspace_node \<Rightarrow> netspace_ipv4" where
  "node_ipv4 n = (case m_addr n of V4 a \<Rightarrow> a | V6 _ \<Rightarrow> ipv4_zero)"

definition request_for :: "dvsp_header \<Rightarrow> string \<Rightarrow> netspace_node \<Rightarrow> bytes \<times> endpoint" where
  "request_for h q n = (request_bytes (h\<lparr>addr_dest := node_ipv4 n\<rparr>) q n, frame_endpoint (node_ipv4 n))"

definition requests :: "dvsp_header \<Rightarrow> string \<Rightarrow> netspace_node list \<Rightarrow> outbox" where
  "requests h q ns = map (request_for h q) (filter is_http ns)"

text \<open>The answers that came, separated by two colons.\<close>

fun glue :: "bool \<Rightarrow> string option list \<Rightarrow> string" where
  "glue first [] = []"
| "glue first (None # ts) = glue first ts"
| "glue first (Some t # ts) = (if \<not> first then ''::'' else []) @ t @ glue False ts"

fun answers :: "root_env \<Rightarrow> nat \<Rightarrow> outbox \<Rightarrow> string option list \<Rightarrow> bool" where
  "answers env k [] ts = (ts = [])"
| "answers env k ((s, a) # rs) ts =
     (case ts of [] \<Rightarrow> False | t # ts' \<Rightarrow> answer_text env k s a = Inr t \<and> answers env (Suc k) rs ts')"

lemma request_for_header: "request_for (h\<lparr>hdr_size := z, addr_dest := a\<rparr>) q n = request_for h q n"
  by (simp add: request_for_def request_bytes_def request_packet_def)

lemma requests_header: "requests (m_header (request_packet (h\<lparr>addr_dest := a\<rparr>) q)) q ns = requests h q ns"
proof -
  have "m_header (request_packet (h\<lparr>addr_dest := a\<rparr>) q) = h\<lparr>hdr_size := word_of_nat (length q), addr_dest := a\<rparr>"
    by (simp add: request_packet_def)
  then show ?thesis by (simp add: requests_def request_for_header)
qed

lemma query_loop_answers:
  assumes "packet_wf p" "q \<noteq> []" "length q < 2 ^ 32" "v4_table ns"
    "answers env (length out) (requests (m_header p) q ns) ts"
  shows "query_loop env q ns p first ss out = Inr (ss @ glue first ts, out @ requests (m_header p) q ns)"
  using assms
proof (induction ns arbitrary: p first ss out ts)
  case Nil
  then show ?case by (simp add: requests_def)
next
  case (Cons n ns)
  let ?h = "(m_header p)\<lparr>addr_dest := node_ipv4 n\<rparr>"
  let ?r = "request_packet ?h q"
  have wr: "packet_wf ?r" and w0: "packet_wf (request_packet (m_header p) q)"
    using Cons.prems(3) by (simp_all add: request_packet_wf)
  have sc: "str_content q p = Inr (request_packet (m_header p) q)"
    using Cons.prems(1,2) by (simp add: filled_request)
  have a: "m_addr n = V4 (node_ipv4 n)" and v4: "v4_table ns"
    using Cons.prems(4) by (auto simp: v4_table_def node_ipv4_def split: netspace_addr.splits)
  obtain b where b: "bindR (serialise ?r) dump_frames = Inr b" using dump_serialised [OF wr] by blast
  have same: "requests (m_header ?r) q ns = requests (m_header p) q ns" by (rule requests_header)
  show ?case
  proof (cases "is_http n")
    case True
    then have rs: "requests (m_header p) q (n # ns) = (request_bytes ?h q n, frame_endpoint (node_ipv4 n)) # requests (m_header p) q ns"
      by (simp add: requests_def request_for_def)
    with Cons.prems(5) obtain t ts' where ts: "ts = t # ts'"
        "answer_text env (length out) (request_bytes ?h q n) (frame_endpoint (node_ipv4 n)) = Inr t"
        "answers env (Suc (length out)) (requests (m_header p) q ns) ts'"
      by (cases ts) auto
    obtain f where f: "http_frame_of ?r (m_hostname n) = Inr f"
        "http_frame_serialise f = Inr (request_bytes ?h q n)"
      using http_frame_of_request [OF Cons.prems(3), of ?h n] by blast
    have ask: "ask_peer env f (node_ipv4 n) out = Inr (t, out @ [(request_bytes ?h q n, frame_endpoint (node_ipv4 n))])"
      using f(2) ts(2) by (rule ask_peer_answer)
    have IH: "query_loop env q ns ?r first' ss' (out @ [(request_bytes ?h q n, frame_endpoint (node_ipv4 n))])
        = Inr (ss' @ glue first' ts', (out @ [(request_bytes ?h q n, frame_endpoint (node_ipv4 n))]) @ requests (m_header p) q ns)"
      for first' ss'
      using Cons.IH [OF wr Cons.prems(2,3) v4, of "out @ [(request_bytes ?h q n, frame_endpoint (node_ipv4 n))]" ts' first' ss']
        ts(3) same by simp
    show ?thesis
      using True IH by (cases t) (simp_all add: sc a b f(1) ask is_http_def rs ts(1) Let_def)
  next
    case False
    then have rs: "requests (m_header p) q (n # ns) = requests (m_header p) q ns"
      by (simp add: requests_def)
    have "query_loop env q ns ?r first ss out = Inr (ss @ glue first ts, out @ requests (m_header p) q ns)"
      using Cons.IH [OF wr Cons.prems(2,3) v4, of out ts first ss] Cons.prems(5) rs same by simp
    then show ?thesis using False by (simp add: sc a b is_http_def rs Let_def)
  qed
qed

lemma query_all_answers:
  assumes "packet_wf p" "q \<noteq> []" "length q < 2 ^ 32" "v4_table (nstable st)"
    "answers env (length (outbox st)) (requests (m_header p) q (nstable st)) ts"
  shows "query_all env p q st =
    Inr (glue True ts, st\<lparr>outbox := outbox st @ requests (m_header p) q (nstable st)\<rparr>)"
  using query_loop_answers [OF assms] by (simp add: query_all_def)

section \<open>The request handler\<close>

definition owned :: "dvsp_packet \<Rightarrow> dvsp_packet" where
  "owned p = \<lparr>m_header = m_header p, m_content = Live (packet_data p)\<rparr>"

lemma owned_wf: "packet_wf p \<Longrightarrow> packet_wf (owned p)"
  by (simp add: owned_def packet_wf_def length_packet_data)

lemma owned_simps [simp]: "m_header (owned p) = m_header p" "m_content (owned p) = Live (packet_data p)"
  by (simp_all add: owned_def)

definition query_result :: "root_env \<Rightarrow> dvsp_packet \<Rightarrow> netspace_url \<Rightarrow> root_state \<Rightarrow> (string \<times> root_state) result" where
  "query_result env p u st =
     (if hd (m_gsn u) = ''esusx'' then query_all env (owned p) (m_spq u) st
      else query_one env (owned p) (hd (m_gsn u)) (m_spq u) st)"

lemma query_handler_eq:
  assumes "carries p u"
  shows "query_handler env p st = bindR (query_result env p u st) (\<lambda>(ss, st').
    bindR (bindR (serialise (reply (m_header (typed_packet Mt_gsn_response)) ss)) dump_frames) (\<lambda>_.
      Inr (reply (m_header (typed_packet Mt_gsn_response)) ss, st')))"
proof -
  have p: "packet_wf p" and g: "m_gsn u \<noteq> []" using assms by (auto simp: carries_def url_wf_def)
  have c: "packet_copy p = Inr (owned p)" using packet_copy_wf [OF p] by (simp add: owned_def)
  have f: "route_front (u\<lparr>m_url := url_text u\<rparr>) = Inr (hd (m_gsn u))"
    using g by (simp add: route_front_def)
  show ?thesis
    by (simp add: query_handler_def c f carries_text [OF assms] carries_url [OF assms]
        query_result_def owned_wf [OF p] del: str_content_filled)
qed

lemma query_handler_answer:
  assumes "carries p u" "query_result env p u st = Inr (ss, st')" "length ss < 2 ^ 32"
  shows "query_handler env p st = Inr (reply (m_header (typed_packet Mt_gsn_response)) ss, st')"
  using dump_serialised [OF reply_wf [OF assms(3), of "m_header (typed_packet Mt_gsn_response)"]]
    assms(1,2) by (auto simp: query_handler_eq)

section \<open>A query without text\<close>

text \<open>Filling the copied packet with an empty text deletes its block and keeps the pointer; the
  block is deleted again when the packet goes out of scope, or at the next node.\<close>

lemma str_content_empty:
  "m_content p = Live b \<Longrightarrow> str_content [] p =
     Inr (p\<lparr>m_header := (m_header p)\<lparr>hdr_size := 0\<rparr>, m_content := Dangling\<rparr>)"
  by (simp add: str_content_eq copy_content_dangles)

lemma str_content_dangling: "m_content p = Dangling \<Longrightarrow> str_content q p = Inl (Undefined Double_free)"
  by (simp add: str_content_def reset_def)

lemma unwind_dangling:
  "m_content p = Dangling \<Longrightarrow> unwind p m = (case m of Inl (Throw _) \<Rightarrow> Inl (Undefined Double_free) | _ \<Rightarrow> m)"
  by (auto simp: unwind_def packet_destroy_def split: sum.splits fault.splits)

named_theorems no_terminate \<open>calls that never end in \<open>std::terminate\<close>\<close>

lemma bindR_no_terminate [no_terminate]:
  "m \<noteq> Inl Terminated \<Longrightarrow> (\<And>x. f x \<noteq> Inl Terminated) \<Longrightarrow> bindR m f \<noteq> Inl Terminated"
  by (cases m) auto

lemma reads_no_terminate [no_terminate]:
  "read_mem b off n \<noteq> Inl Terminated" "read_ptr ptr off n \<noteq> Inl Terminated"
  "c_string b \<noteq> Inl Terminated" "substr_from s i \<noteq> Inl Terminated" "to_v4 a \<noteq> Inl Terminated"
  "packet_destroy p \<noteq> Inl Terminated" "packet_to_string p off \<noteq> Inl Terminated"
  by (auto simp: read_mem_def read_ptr_def c_string_def substr_from_def packet_destroy_def
      packet_to_string_def Let_def split: heap_ptr.splits elim: to_v4.elims)

lemma hex_loop_no_terminate [no_terminate]: "hex_loop stk n s out \<noteq> Inl Terminated"
  by (induction stk n s out rule: hex_loop.induct) auto

lemma packet_of_serial_no_terminate [no_terminate]: "packet_of_serial s \<noteq> Inl Terminated"
  by (simp add: packet_of_serial_eq Let_def)

lemma content_as_no_terminate [no_terminate]: "content_as dec n p off \<noteq> Inl Terminated"
  unfolding content_as_def by (intro no_terminate) simp

lemma http_to_bin_no_terminate [no_terminate]: "http_to_bin stk b \<noteq> Inl Terminated"
  unfolding http_to_bin_def by (intro no_terminate)

lemma packet_copy_no_terminate [no_terminate]: "packet_copy p \<noteq> Inl Terminated"
  unfolding packet_copy_def by (intro no_terminate) simp

lemma http_frame_of_no_terminate [no_terminate]: "http_frame_of p h \<noteq> Inl Terminated"
  unfolding http_frame_of_def by (intro no_terminate) simp

lemma serialise_no_terminate [no_terminate]: "serialise p \<noteq> Inl Terminated"
  by (auto simp: serialise_def bindR_eq_Inl no_terminate)

lemma service_text_no_terminate [no_terminate]: "service_text p \<noteq> Inl Terminated"
  by (auto simp: service_text_def bindR_eq_Inl no_terminate split: if_splits)

lemma rethrow_no_terminate: "m \<noteq> Inl Terminated \<Longrightarrow> rethrow_sliced m \<noteq> Inl Terminated"
  by (auto simp: rethrow_sliced_def split: sum.splits fault.splits)

lemma send_frame_no_terminate [no_terminate]: "send_frame env f a out \<noteq> Inl Terminated"
  unfolding send_frame_def
  by (intro rethrow_no_terminate)
    (auto simp: http_frame_serialise_def bindR_eq_Inl no_terminate split: net_result.splits)

lemma ask_peer_no_terminate [no_terminate]: "ask_peer env f a out \<noteq> Inl Terminated"
  by (auto simp: ask_peer_def bindR_eq_Inl no_terminate)

lemma dump_no_terminate [no_terminate]: "bindR (serialise p) dump_frames \<noteq> Inl Terminated"
  by (auto simp: dump_frames_eq bindR_eq_Inl no_terminate)

lemma exchange_no_terminate [no_terminate]:
  "bindR (http_frame_of p h) (\<lambda>frame. ask_peer env frame a out) \<noteq> Inl Terminated"
  by (auto simp: bindR_eq_Inl no_terminate)

text \<open>Whatever happens while such a packet is in scope, leaving the scope is undefined.\<close>

lemma scope_dangling:
  assumes "m_content p = Dangling" "m \<noteq> Inl Terminated"
    "\<And>x. m = Inr x \<Longrightarrow> \<exists>u. f x = Inl (Undefined u)"
  shows "\<exists>u. bindR (unwind p m) f = Inl (Undefined u)"
  using assms by (auto simp: unwind_dangling split: sum.splits fault.splits)

lemma destroy_dangling: "m_content p = Dangling \<Longrightarrow> packet_destroy p = Inl (Undefined Double_free)"
  by (simp add: packet_destroy_def)

lemma query_one_no_text:
  assumes "m_content p = Live b" "by_key m_suid (nstable st) suid = Some n"
  shows "\<exists>u. query_one env p suid [] st = Inl (Undefined u)"
proof -
  let ?p = "p\<lparr>m_header := (m_header p)\<lparr>hdr_size := 0\<rparr>, m_content := Dangling\<rparr>"
  let ?m = "bindR (http_frame_of ?p (m_hostname n)) (\<lambda>frame.
      bindR (to_v4 (m_addr n)) (\<lambda>dest. ask_peer env frame dest (outbox st)))"
  have "?m \<noteq> Inl Terminated" by (intro no_terminate)
  then have "\<exists>u. bindR (unwind ?p ?m) (\<lambda>(s, out). bindR (packet_destroy ?p) (\<lambda>_.
      Inr (case s of Some str \<Rightarrow> str | None \<Rightarrow> [], st\<lparr>outbox := out\<rparr>))) = Inl (Undefined u)"
    by (intro scope_dangling) (auto simp: destroy_dangling)
  then show ?thesis
    using assms by (simp add: query_one_def Let_def table_end_def suid_index.find_end_by_key
        suid_index.find_deref str_content_empty)
qed

lemma query_loop_dangling:
  "m_content p = Dangling \<Longrightarrow> query_loop env q ns p first ss out = Inl (Undefined Double_free)"
  by (cases ns) (simp_all add: destroy_dangling str_content_dangling)

lemma query_loop_no_text:
  assumes "m_content p = Live b"
  shows "\<exists>u. query_loop env [] (n # ns) p first ss out = Inl (Undefined u)"
proof -
  let ?p = "p\<lparr>m_header := (m_header p)\<lparr>hdr_size := 0\<rparr>, m_content := Dangling\<rparr>"
  have body: "\<exists>u. (let r = ?p\<lparr>m_header := (m_header ?p)\<lparr>addr_dest := dest\<rparr>\<rparr> in
     bindR (unwind r (bindR (serialise r) dump_frames)) (\<lambda>_.
     if m_proto n = protocol_val Proto_http then
       bindR (unwind r (bindR (http_frame_of r (m_hostname n)) (\<lambda>frame. ask_peer env frame dest out))) (\<lambda>(s, out').
       case s of None \<Rightarrow> query_loop env [] ns r first ss out'
       | Some str \<Rightarrow> query_loop env [] ns r False (ss @ (if \<not> first then ''::'' else []) @ str) out')
     else query_loop env [] ns r first ss out)) = Inl (Undefined u)" for dest
    unfolding Let_def
    by (intro scope_dangling; (rule dump_no_terminate)?)
      (auto simp: query_loop_dangling intro!: scope_dangling exchange_no_terminate split: option.split)
  have "\<exists>u. bindR (unwind ?p (to_v4 (m_addr n))) (\<lambda>dest.
     let r = ?p\<lparr>m_header := (m_header ?p)\<lparr>addr_dest := dest\<rparr>\<rparr> in
     bindR (unwind r (bindR (serialise r) dump_frames)) (\<lambda>_.
     if m_proto n = protocol_val Proto_http then
       bindR (unwind r (bindR (http_frame_of r (m_hostname n)) (\<lambda>frame. ask_peer env frame dest out))) (\<lambda>(s, out').
       case s of None \<Rightarrow> query_loop env [] ns r first ss out'
       | Some str \<Rightarrow> query_loop env [] ns r False (ss @ (if \<not> first then ''::'' else []) @ str) out')
     else query_loop env [] ns r first ss out)) = Inl (Undefined u)"
    by (rule scope_dangling) (simp, rule reads_no_terminate, rule body)
  then show ?thesis using assms by (simp add: str_content_empty)
qed

lemma query_no_text:
  assumes "carries p u" "m_spq u = []"
    and "if hd (m_gsn u) = ''esusx'' then nstable st \<noteq> []
         else by_key m_suid (nstable st) (hd (m_gsn u)) \<noteq> None"
  shows "\<exists>e. query_handler env p st = Inl (Undefined e)"
proof -
  have "\<exists>e. query_result env p u st = Inl (Undefined e)"
  proof (cases "hd (m_gsn u) = ''esusx''")
    case True
    with assms(3) obtain n ns where t: "nstable st = n # ns" by (cases "nstable st") auto
    obtain e where "query_loop env [] (n # ns) (owned p) True [] (outbox st) = Inl (Undefined e)"
      using query_loop_no_text [OF owned_simps(2)] by blast
    with True t assms(2) show ?thesis
      by (simp add: query_result_def query_all_def del: query_loop.simps)
  next
    case False
    with assms(3) obtain n where "by_key m_suid (nstable st) (hd (m_gsn u)) = Some n" by auto
    with query_one_no_text [of "owned p" "packet_data p" st "hd (m_gsn u)" n env] False assms(2)
    show ?thesis by (simp add: query_result_def)
  qed
  then show ?thesis using assms(1) by (auto simp: query_handler_eq)
qed

section \<open>Answers of other nodes\<close>

text \<open>A reply of a node that answers in hexadecimal with an \<open>ok\<close> service frame.\<close>

definition service_reply :: "string \<Rightarrow> bytes" where
  "service_reply txt = header_bytes (dvsp_header_default\<lparr>hdr_type := msgtype_val Mt_gsn_response,
      hdr_size := word_of_nat (5 + length txt)\<rparr>)
     @ service_bytes \<lparr>fs_response = rcode_val Rc_ok, fs_len = NUL\<rparr> @ txt"

lemma answer_text_service:
  assumes "env_net env k s a = Net_reply (hdr @ CRLF2 @ hex_encode (service_reply txt) @ NUL # rest)"
    "http_head hdr" "stops_hex (env_stk env)" "length txt + 5 < 2 ^ 32"
  shows "answer_text env k s a = Inr (Some txt)"
proof -
  let ?h = "dvsp_header_default\<lparr>hdr_type := msgtype_val Mt_gsn_response, hdr_size := word_of_nat (5 + length txt)\<rparr>"
  let ?f = "\<lparr>fs_response = rcode_val Rc_ok, fs_len = NUL\<rparr>"
  let ?p = "\<lparr>m_header = ?h, m_content = Live (service_bytes ?f @ txt)\<rparr>"
  have l: "length (service_bytes ?f) = 5" by (simp add: service_bytes_def)
  have b: "http_to_bin (env_stk env) (hdr @ CRLF2 @ hex_encode (service_reply txt) @ NUL # rest) = Inr (service_reply txt)"
    using http_head_body [OF assms(2) hex_encode_no_NUL] hex_loop_encode [OF assms(3), of "[]"] by simp
  have n: "unat (hdr_size ?h) = length (service_bytes ?f @ txt)"
  proof -
    have "unat (word_of_nat (5 + length txt) :: 32 word) = 5 + length txt"
      using assms(4) by (intro unat_word_of_nat_32) simp
    then show ?thesis using l by (simp del: of_nat_add)
  qed
  then have s: "packet_of_serial (service_reply txt) = Inr ?p"
    using packet_of_serial_app [OF n, of "[]"] by (simp add: service_reply_def service_bytes_def)
  have w: "packet_wf ?p" "packet_data ?p = service_bytes ?f @ txt" using n by (simp_all add: packet_wf_def packet_data_def)
  have "content_as bytes_service sizeof_service ?p 0 = Inr ?f"
    using content_as_ok [OF w(1), of 0 sizeof_service bytes_service] n l w(2) service_codec.dec_enc [of ?f]
    by (simp add: frame_sizes)
  moreover have "packet_to_string ?p sizeof_service = Inr txt"
    using packet_to_string_wf [OF w(1), of sizeof_service] w(2) l
    by (simp add: frame_sizes service_bytes_def)
  ultimately have "service_text ?p = Inr (Some txt)" by (simp add: service_text_def)
  then show ?thesis using assms(1) b s by (simp add: answer_text_def)
qed

section \<open>Properties\<close>

lemma process_request:
  "hdr_type (m_header p) = msgtype_val Mt_gsn_request \<Longrightarrow> process_packet env p a st = query_handler env p st"
proof -
  assume "hdr_type (m_header p) = msgtype_val Mt_gsn_request"
  then have "enum_of msgtype_val (hdr_type (m_header p)) = Some Mt_gsn_request"
    by (simp only: msgtype_enum.enum_of_val)
  then show ?thesis by (simp add: process_packet_def Let_def)
qed

definition response_to_query :: "string \<Rightarrow> dvsp_packet" where
  "response_to_query ss = reply (m_header (typed_packet Mt_gsn_response)) ss"

definition sample_query :: "string \<Rightarrow> netspace_url" where
  "sample_query front = netspace_url_empty\<lparr>m_gsn := [front, ''uk''], m_spq := ''hi''\<rparr>"

definition sample_query_packet :: "netspace_url \<Rightarrow> dvsp_packet" where
  "sample_query_packet u = reply (dvsp_header_default\<lparr>hdr_type := msgtype_val Mt_gsn_request\<rparr>) (url_text u)"

lemma sample_query_carries:
  "plain f \<Longrightarrow> length f < 1000 \<Longrightarrow> carries (sample_query_packet (sample_query f)) (sample_query f)"
  by (simp add: carries_def sample_query_def sample_query_packet_def reply_wf url_wf_def
      netspace_url_empty_def url_text_def)

definition answering_env :: root_env where
  "answering_env = sample_env\<lparr>env_net := (\<lambda>_ _ _. Net_reply (''POST / HTTP/1.1'' @ CRLF2
     @ hex_encode (service_reply ''yes'') @ [NUL]))\<rparr>"

lemma answering_env_text: "answer_text answering_env k s a = Inr (Some ''yes'')"
proof (rule answer_text_service [OF _ http_head_sample])
  show "env_net answering_env k s a = Net_reply (''POST / HTTP/1.1'' @ CRLF2
     @ hex_encode (service_reply ''yes'') @ NUL # [])"
    by (simp add: answering_env_def)
qed (simp_all add: answering_env_def sample_env_def stops_hex_def hex_digit_def)

text \<open>C13: A query request for a well-formed URL with a query text, for the whole network \<open>esusx\<close> and over a
  table of IPv4 nodes, is sent to every node of the table that speaks HTTP, on port 8080, in the order of
  the table, and to no other, provided that every one of these exchanges succeeds and its reply can be read
  (\<open>answers\<close>: an HTTP text whose body decodes to a packet, and a packet of the type response as a service
  frame; what a failed exchange or another reply leads to is not claimed here). The answer then is the
  texts of the replies that are \<open>ok\<close> service frames, in that order, with two colons between each two, other
  replies contributing nothing; the table stays as it is. Texts are below 2^32 bytes.\<close>

theorem query_collects_answers:
  assumes "hdr_type (m_header p) = msgtype_val Mt_gsn_request" "carries p u" "hd (m_gsn u) = ''esusx''"
    "m_spq u \<noteq> []" "v4_table (nstable st)"
    "answers env (length (outbox st)) (requests (m_header p) (m_spq u) (nstable st)) ts"
    "length (m_spq u) < 2 ^ 32" "length (glue True ts) < 2 ^ 32"
  shows "process_packet env p a st = Inr (response_to_query (glue True ts),
    st\<lparr>outbox := outbox st @ map (request_for (m_header p) (m_spq u)) (filter is_http (nstable st))\<rparr>)"
proof -
  have w: "packet_wf (owned p)" using assms(2) by (simp add: carries_def owned_wf)
  have "query_result env p u st = Inr (glue True ts,
      st\<lparr>outbox := outbox st @ requests (m_header p) (m_spq u) (nstable st)\<rparr>)"
    using query_all_answers [OF w assms(4,7,5)] assms(3,6) by (simp add: query_result_def)
  from query_handler_answer [OF assms(2) this assms(8)] show ?thesis
    by (simp add: process_request [OF assms(1)] response_to_query_def requests_def)
qed

theorem query_collects_answers_witness:
  "\<exists>st'. process_packet answering_env (sample_query_packet (sample_query ''esusx'')) sample_addr
      (sample_state\<lparr>nstable := [esusx_node, sample_node\<lparr>m_proto := protocol_val Proto_dvsp\<rparr>, sample_node]\<rparr>)
    = Inr (response_to_query ''yes::yes'', st') \<and> length (outbox st') = 2"
proof -
  let ?u = "sample_query ''esusx''" and ?p = "sample_query_packet (sample_query ''esusx'')"
  let ?st = "sample_state\<lparr>nstable := [esusx_node, sample_node\<lparr>m_proto := protocol_val Proto_dvsp\<rparr>, sample_node]\<rparr>"
  have v: "v4_table (nstable ?st)" by (simp add: v4_table_def esusx_node_def)
  have a: "answers answering_env (length (outbox ?st)) (requests (m_header ?p) (m_spq ?u) (nstable ?st))
      [Some ''yes'', Some ''yes'']"
    by (simp add: requests_def request_for_def is_http_def esusx_node_def answering_env_text)
  have c: "carries ?p ?u" by (rule sample_query_carries) simp_all
  have t: "hdr_type (m_header ?p) = msgtype_val Mt_gsn_request" "hd (m_gsn ?u) = ''esusx''" "m_spq ?u = ''hi''"
    by (simp_all add: sample_query_packet_def sample_query_def netspace_url_empty_def)
  from query_collects_answers [OF t(1) c t(2) _ v a, of sample_addr] t(3) show ?thesis
    by (simp add: sample_state_def is_http_def esusx_node_def)
qed

text \<open>C14: A query request for a well-formed URL with a query text, for one node, is sent to the node with the
  identifier in front of the URL, which has an IPv4 address, on port 8080, and to no other. Provided that
  the exchange succeeds and its reply can be read (an HTTP text whose body decodes to a packet, and a
  packet of the type response as a service frame), the answer is the text of an \<open>ok\<close> service frame, and
  empty for a packet of another type or a frame with another code. With an unknown identifier nothing is
  sent and the answer is empty. Texts are below 2^32 bytes.\<close>

theorem query_asks_one:
  assumes "hdr_type (m_header p) = msgtype_val Mt_gsn_request" "carries p u" "hd (m_gsn u) \<noteq> ''esusx''"
    "m_spq u \<noteq> []" "length (m_spq u) < 2 ^ 32"
    "case by_key m_suid (nstable st) (hd (m_gsn u)) of None \<Rightarrow> ss = [] \<and> out = []
     | Some n \<Rightarrow> m_addr n = V4 ip \<and> out = [(request_bytes (m_header p) (m_spq u) n, frame_endpoint ip)]
        \<and> (\<exists>t. answer_text env (length (outbox st)) (request_bytes (m_header p) (m_spq u) n) (frame_endpoint ip) = Inr t
          \<and> ss = (case t of Some s \<Rightarrow> s | None \<Rightarrow> []))"
    "length ss < 2 ^ 32"
  shows "process_packet env p a st = Inr (response_to_query ss, st\<lparr>outbox := outbox st @ out\<rparr>)"
proof -
  have w: "packet_wf (owned p)" using assms(2) by (simp add: carries_def owned_wf)
  have "query_result env p u st = Inr (ss, st\<lparr>outbox := outbox st @ out\<rparr>)"
    using assms(3,6) query_one_unknown [OF w] query_one_answer [OF w assms(4,5), of st _ _ ip env]
    by (auto simp: query_result_def split: option.splits)
  from query_handler_answer [OF assms(2) this assms(7)] show ?thesis
    by (simp add: process_request [OF assms(1)] response_to_query_def)
qed

theorem query_asks_one_witness:
  "\<exists>st'. process_packet answering_env (sample_query_packet (sample_query ''a1'')) sample_addr sample_state
    = Inr (response_to_query ''yes'', st') \<and> map snd (outbox st') = [(Ipv4 CHR 0x0A CHR 0x00 CHR 0x00 CHR 0x01, 8080)]"
proof -
  let ?u = "sample_query ''a1''" and ?p = "sample_query_packet (sample_query ''a1'')"
  have c: "carries ?p ?u" by (rule sample_query_carries) simp_all
  have t: "hdr_type (m_header ?p) = msgtype_val Mt_gsn_request" "hd (m_gsn ?u) = ''a1''" "m_spq ?u = ''hi''"
    by (simp_all add: sample_query_packet_def sample_query_def netspace_url_empty_def)
  from query_asks_one [OF t(1) c, where st = sample_state and ss = "''yes''" and a = sample_addr
      and out = "[(request_bytes (m_header ?p) ''hi'' sample_node, frame_endpoint (Ipv4 CHR 0x0A CHR 0x00 CHR 0x00 CHR 0x01))]"
      and ip = "Ipv4 CHR 0x0A CHR 0x00 CHR 0x00 CHR 0x01" and env = answering_env] t show ?thesis
    by (simp add: sample_state_def answering_env_text frame_endpoint_def)
qed

text \<open>C16: A request without query text that names a known node, or the whole network of a table that
  is not empty, frees a block twice: the copied packet is filled with the empty text, which deletes
  its block and keeps the pointer. Whatever the other nodes answer, the run is undefined.\<close>

theorem query_without_text:
  assumes "hdr_type (m_header p) = msgtype_val Mt_gsn_request" "carries p u" "m_spq u = []"
    "if hd (m_gsn u) = ''esusx'' then nstable st \<noteq> []
     else hd (m_gsn u) \<in> m_suid ` set (nstable st)"
  shows "\<exists>e. process_packet env p a st = Inl (Undefined e)"
  using query_no_text [OF assms(2,3), of st env] assms(4)
  by (simp add: process_request [OF assms(1)] by_key_None)

theorem query_without_text_witness:
  "\<exists>e. process_packet answering_env
      (sample_query_packet (sample_query ''a1''\<lparr>m_spq := []\<rparr>)) sample_addr sample_state = Inl (Undefined e)"
proof (rule query_without_text [of _ "sample_query ''a1''\<lparr>m_spq := []\<rparr>"])
  show "carries (sample_query_packet (sample_query ''a1''\<lparr>m_spq := []\<rparr>)) (sample_query ''a1''\<lparr>m_spq := []\<rparr>)"
    by (simp add: carries_def sample_query_def sample_query_packet_def reply_wf url_wf_def
      netspace_url_empty_def url_text_def)
qed (simp_all add: sample_query_packet_def sample_query_def sample_state_def)

end
