(* ===== verification/Services.thy ===== *)
theory Services
  imports Query
begin

text \<open>
  The services of the root node, \<open>nodes/root/resolution_service.cpp\<close>, \<open>http_service.cpp\<close>,
  \<open>http_session.cpp\<close> and \<open>entry.cpp\<close>: handlers that Boost's event loop calls, one event at a
  time. An event is the completion of an asynchronous operation, with its error or its data; it
  can only happen while that operation is pending. What is modelled of the sockets is the receive
  buffer, whether a receive is pending, and the bytes sent back.
\<close>

section \<open>The UDP service\<close>

definition recv_size :: nat where "recv_size = 1024"

definition http_size :: nat where "http_size = 2048"

text \<open>The socket writes the data over the front of the buffer; the rest keeps its old contents.\<close>

definition deliver :: "nat \<Rightarrow> bytes \<Rightarrow> bytes \<Rightarrow> bytes" where
  "deliver n data buf = take n data @ drop (min n (length data)) buf"

record udp_service =
  m_recv :: bytes
  listening :: bool

datatype udp_event = Udp_error | Udp_datagram bytes netspace_addr

definition start_recv :: "udp_service \<Rightarrow> udp_service" where
  "start_recv svc = svc\<lparr>listening := True\<rparr>"

fun receive :: "root_env \<Rightarrow> udp_event \<Rightarrow> udp_service \<Rightarrow> root_state
    \<Rightarrow> (udp_service \<times> root_state \<times> bytes option) result" where
  "receive env Udp_error svc st = Inr (svc\<lparr>listening := False\<rparr>, st, None)"
| "receive env (Udp_datagram data remote) svc st =
     (let svc' = svc\<lparr>m_recv := deliver recv_size data (m_recv svc), listening := False\<rparr> in
      bindR (packet_of_serial (m_recv svc')) (\<lambda>in0.
      bindR (process_packet env in0 remote st) (\<lambda>(out, st').
      bindR (serialise out) (\<lambda>s. Inr (start_recv svc', st', Some s)))))"

section \<open>The HTTP service\<close>

text \<open>A session reads once into its own buffer, whose old contents come with the event. The data
  comes with the address of the peer, unless the peer is gone by the time \<open>remote_endpoint\<close> asks for
  it; and the answer is written to the socket, unless the peer is gone by then. In both cases Boost
  throws, and nothing in \<open>read\<close> catches it.\<close>

datatype http_event = Http_error
  | Http_data bytes bytes netspace_addr
  | Http_gone bytes bytes
  | Http_unsent bytes bytes netspace_addr

definition session_input :: "root_env \<Rightarrow> bytes \<Rightarrow> bytes \<Rightarrow> bytes result" where
  "session_input env data old =
     bindR (http_to_bin (env_stk env) (deliver http_size data old)) (\<lambda>raw.
     bindR (dump_frames raw) (\<lambda>_. Inr raw))"

definition session_answer ::
  "root_env \<Rightarrow> bytes \<Rightarrow> netspace_addr \<Rightarrow> root_state \<Rightarrow> (root_state \<times> bytes) result" where
  "session_answer env raw remote st =
     bindR (packet_of_serial raw) (\<lambda>in0.
     bindR (process_packet env in0 remote st) (\<lambda>(out, st').
     bindR (serialise out) (\<lambda>s. Inr (st', s))))"

fun session_read :: "root_env \<Rightarrow> http_event \<Rightarrow> root_state \<Rightarrow> (root_state \<times> bytes option) result" where
  "session_read env Http_error st = Inr (st, None)"
| "session_read env (Http_data data old remote) st =
     bindR (session_input env data old) (\<lambda>raw.
     bindR (session_answer env raw remote st) (\<lambda>(st', s). Inr (st', Some s)))"
| "session_read env (Http_gone data old) st =
     bindR (session_input env data old) (\<lambda>_. Inl (Throw Boost_system_error))"
| "session_read env (Http_unsent data old remote) st =
     bindR (session_input env data old) (\<lambda>raw.
     bindR (session_answer env raw remote st) (\<lambda>_. Inl (Throw Boost_system_error)))"

lemma session_data:
  "session_read env (Http_data data old remote) st =
     bindR (http_to_bin (env_stk env) (deliver http_size data old)) (\<lambda>raw.
     bindR (dump_frames raw) (\<lambda>_.
     bindR (packet_of_serial raw) (\<lambda>in0.
     bindR (process_packet env in0 remote st) (\<lambda>(out, st').
     bindR (serialise out) (\<lambda>s. Inr (st', Some s))))))"
  by (simp add: session_input_def session_answer_def bindR_assoc case_prod_unfold)

text \<open>\<open>start\<close> begins the read; \<open>write\<close>, which nothing calls, sends the front of the buffer, which the
  socket reads, and closes the socket unless that failed.\<close>

definition session_start :: "root_env \<Rightarrow> http_event \<Rightarrow> root_state \<Rightarrow> (root_state \<times> bytes option) result" where
  "session_start env ev st = session_read env ev st"

definition session_write :: "bytes \<Rightarrow> nat \<Rightarrow> bool \<Rightarrow> (bytes \<times> bool) result" where
  "session_write data n err = bindR (read_mem data 0 n) (\<lambda>b. Inr (b, \<not> err))"

record http_service =
  accepting :: bool
  sessions :: nat

text \<open>Accepting goes on after an error and after a connection.\<close>

definition do_accept :: "bool \<Rightarrow> http_service \<Rightarrow> http_service" where
  "do_accept err svc =
     (if err then svc\<lparr>accepting := True\<rparr>
      else svc\<lparr>sessions := sessions svc + 1, accepting := True\<rparr>)"

section \<open>The node\<close>

record node_state =
  root :: root_state
  udp :: udp_service
  http :: http_service

datatype event = Udp udp_event | Accept bool | Session http_event

fun enabled :: "event \<Rightarrow> node_state \<Rightarrow> bool" where
  "enabled (Udp _) s = listening (udp s)"
| "enabled (Accept _) s = accepting (http s)"
| "enabled (Session _) s = (0 < sessions (http s))"

fun node_handle :: "root_env \<Rightarrow> event \<Rightarrow> node_state \<Rightarrow> (node_state \<times> bytes option) result" where
  "node_handle env (Udp ev) s = bindR (receive env ev (udp s) (root s)) (\<lambda>(svc, st, r).
     Inr (s\<lparr>udp := svc, root := st\<rparr>, r))"
| "node_handle env (Accept err) s = Inr (s\<lparr>http := do_accept err (http s)\<rparr>, None)"
| "node_handle env (Session ev) s = bindR (session_read env ev (root s)) (\<lambda>(st, r).
     Inr (s\<lparr>root := st, http := (http s)\<lparr>sessions := sessions (http s) - 1\<rparr>\<rparr>, r))"

definition node_init :: "bytes \<Rightarrow> node_state" where
  "node_init buf = \<lparr>root = \<lparr>nstable = [], outbox = []\<rparr>,
     udp = start_recv \<lparr>m_recv = buf, listening = False\<rparr>,
     http = \<lparr>accepting = True, sessions = 0\<rparr>\<rparr>"

text \<open>\<open>main\<close> catches \<open>std::exception\<close>, reports it and returns; any other exception ends in
  \<open>std::terminate\<close>.\<close>

datatype outcome = Reported exn | Aborted | Undefined_behaviour ub

fun main_catch :: "fault \<Rightarrow> outcome" where
  "main_catch (Throw e) = (if is_std_exception e then Reported e else Aborted)"
| "main_catch Terminated = Aborted"
| "main_catch (Undefined u) = Undefined_behaviour u"

fun run :: "root_env \<Rightarrow> event list \<Rightarrow> node_state \<Rightarrow> outcome + node_state" where
  "run env [] s = Inr s"
| "run env (e # es) s =
     (if enabled e s then
        (case node_handle env e s of Inl f \<Rightarrow> Inl (main_catch f) | Inr (s', _) \<Rightarrow> run env es s')
      else run env es s)"

inductive node_step :: "root_env \<Rightarrow> node_state \<Rightarrow> event \<Rightarrow> node_state \<Rightarrow> bool" for env where
  step: "enabled e s \<Longrightarrow> node_handle env e s = Inr (s', r) \<Longrightarrow> node_step env s e s'"

inductive reachable :: "root_env \<Rightarrow> node_state \<Rightarrow> bool" for env where
  start: "length buf = recv_size \<Longrightarrow> reachable env (node_init buf)"
| more: "reachable env s \<Longrightarrow> node_step env s e s' \<Longrightarrow> reachable env s'"

inductive_cases udp_step: "node_step env s (Udp ev) s'"
inductive_cases accept_step: "node_step env s (Accept err) s'"
inductive_cases session_step: "node_step env s (Session ev) s'"

inductive_simps node_step_iff: "node_step env s e s'"

section \<open>The invariant of the node\<close>

definition node_inv :: "node_state \<Rightarrow> bool" where
  "node_inv s \<longleftrightarrow> table_inv (nstable (root s)) \<and> length (m_recv (udp s)) = recv_size
     \<and> accepting (http s)"

lemma length_deliver: "length buf = n \<Longrightarrow> length (deliver n data buf) = n"
  by (simp add: deliver_def)

lemma node_inv_init: "length buf = recv_size \<Longrightarrow> node_inv (node_init buf)"
  by (simp add: node_inv_def node_init_def table_inv_empty start_recv_def)

lemma receive_inv:
  assumes "asio_ok (env_asio env)" "table_inv (nstable st)" "length (m_recv svc) = recv_size"
    "receive env ev svc st = Inr (svc', st', r)"
  shows "table_inv (nstable st') \<and> length (m_recv svc') = recv_size"
proof (cases ev)
  case Udp_error
  with assms show ?thesis by auto
next
  case (Udp_datagram data remote)
  with assms(4) obtain p out where "packet_of_serial (deliver recv_size data (m_recv svc)) = Inr p"
      "process_packet env p remote st = Inr (out, st')"
      "svc' = start_recv (svc\<lparr>m_recv := deliver recv_size data (m_recv svc), listening := False\<rparr>)"
    by (auto simp: Let_def bindR_eq_Inr)
  with assms(1-3) show ?thesis
    by (auto simp: start_recv_def length_deliver intro: process_packet_inv packet_of_serial_wf)
qed

lemma session_read_inv:
  assumes "asio_ok (env_asio env)" "table_inv (nstable st)" "session_read env ev st = Inr (st', r)"
  shows "table_inv (nstable st')"
proof (cases ev)
  case Http_error
  with assms show ?thesis by auto
next
  case (Http_data data old remote)
  with assms(3) obtain raw p out where "packet_of_serial raw = Inr p"
      "process_packet env p remote st = Inr (out, st')"
    by (auto simp: bindR_eq_Inr session_answer_def)
  with assms(1,2) show ?thesis by (auto intro: process_packet_inv packet_of_serial_wf)
qed (use assms(3) in \<open>auto simp: bindR_eq_Inr\<close>)

lemma node_step_inv:
  assumes "asio_ok (env_asio env)" "node_inv s" "node_step env s e s'"
  shows "node_inv s'"
proof (cases e)
  case (Udp ev)
  with assms receive_inv [OF assms(1), of "root s" "udp s" ev] show ?thesis
    by (fastforce simp: node_inv_def bindR_eq_Inr elim!: udp_step)
next
  case (Accept err)
  with assms show ?thesis by (auto simp: node_inv_def do_accept_def elim!: accept_step)
next
  case (Session ev)
  with assms session_read_inv [OF assms(1), of "root s" ev] show ?thesis
    by (fastforce simp: node_inv_def bindR_eq_Inr elim!: session_step)
qed

lemma reachable_inv: "reachable env s \<Longrightarrow> asio_ok (env_asio env) \<Longrightarrow> node_inv s"
  by (induction rule: reachable.induct) (auto intro: node_inv_init node_step_inv)

section \<open>Steps of the node as steps of the registry\<close>

definition registry_moves :: "root_state \<Rightarrow> root_state \<Rightarrow> bool" where
  "registry_moves st st' \<longleftrightarrow> abs_registry (nstable st') = abs_registry (nstable st)
     \<or> registry_step (abs_registry (nstable st)) (abs_registry (nstable st'))"

lemma receive_moves:
  assumes "asio_ok (env_asio env)" "table_inv (nstable st)" "receive env ev svc st = Inr (svc', st', r)"
  shows "registry_moves st st'"
proof (cases ev)
  case Udp_error
  with assms(3) show ?thesis by (auto simp: registry_moves_def)
next
  case (Udp_datagram data remote)
  with assms(3) obtain p out where "packet_of_serial (deliver recv_size data (m_recv svc)) = Inr p"
      "process_packet env p remote st = Inr (out, st')"
    by (auto simp: Let_def bindR_eq_Inr)
  then show ?thesis
    using process_packet_step [OF packet_of_serial_wf assms(1,2)] by (auto simp: registry_moves_def)
qed

lemma session_read_moves:
  assumes "asio_ok (env_asio env)" "table_inv (nstable st)" "session_read env ev st = Inr (st', r)"
  shows "registry_moves st st'"
proof (cases ev)
  case Http_error
  with assms(3) show ?thesis by (auto simp: registry_moves_def)
next
  case (Http_data data old remote)
  with assms(3) obtain raw p out where "packet_of_serial raw = Inr p"
      "process_packet env p remote st = Inr (out, st')"
    by (auto simp: bindR_eq_Inr session_answer_def)
  then show ?thesis
    using process_packet_step [OF packet_of_serial_wf assms(1,2)] by (auto simp: registry_moves_def)
qed (use assms(3) in \<open>auto simp: bindR_eq_Inr\<close>)

lemma node_step_moves:
  assumes "asio_ok (env_asio env)" "table_inv (nstable (root s))" "node_step env s e s'"
  shows "registry_moves (root s) (root s')"
proof (cases e)
  case (Udp ev)
  with assms(3) obtain svc st r where "receive env ev (udp s) (root s) = Inr (svc, st, r)" "root s' = st"
    by (auto simp: bindR_eq_Inr elim!: udp_step)
  with receive_moves [OF assms(1,2)] show ?thesis by blast
next
  case (Accept err)
  with assms(3) show ?thesis by (auto simp: registry_moves_def elim!: accept_step)
next
  case (Session ev)
  with assms(3) obtain st r where "session_read env ev (root s) = Inr (st, r)" "root s' = st"
    by (auto simp: bindR_eq_Inr elim!: session_step)
  with session_read_moves [OF assms(1,2)] show ?thesis by blast
qed

lemma reachable_registry:
  "reachable env s \<Longrightarrow> asio_ok (env_asio env) \<Longrightarrow>
   rtranclp registry_step (Map.empty, Map.empty) (abs_registry (nstable (root s)))"
proof (induction rule: reachable.induct)
  case (start buf)
  then show ?case by (simp add: node_init_def abs_registry_def)
next
  case (more s e s')
  then have "table_inv (nstable (root s))" using reachable_inv by (auto simp: node_inv_def)
  from node_step_moves [OF more.prems this more.hyps(2)] more.IH [OF more.prems] show ?case
    by (auto simp: registry_moves_def)
qed

text \<open>The request an event hands to the protocol handler, with the sender's address, if it hands it one:
  a connection, an error, and data in which no packet can be read do not.\<close>

fun event_request :: "root_env \<Rightarrow> event \<Rightarrow> node_state \<Rightarrow> (dvsp_packet \<times> netspace_addr) option" where
  "event_request env (Udp (Udp_datagram data a)) s =
     (case packet_of_serial (deliver recv_size data (m_recv (udp s))) of Inl _ \<Rightarrow> None | Inr p \<Rightarrow> Some (p, a))"
| "event_request env (Session (Http_data data old a)) s =
     (case bindR (session_input env data old) packet_of_serial of Inl _ \<Rightarrow> None | Inr p \<Rightarrow> Some (p, a))"
| "event_request env _ s = None"

lemma node_step_effect:
  assumes "asio_ok (env_asio env)" "table_inv (nstable (root s))" "node_step env s e s'"
  shows "case event_request env e s of
      None \<Rightarrow> nstable (root s') = nstable (root s)
    | Some (p, a) \<Rightarrow> registry_effect p a (nstable (root s)) (nstable (root s'))"
  using assms(3) process_packet_effect [OF packet_of_serial_wf assms(1,2)]
  by (cases "(env, e, s)" rule: event_request.cases)
    (auto simp: node_step_iff bindR_eq_Inr Let_def session_answer_def split: sum.splits)

section \<open>Data from the network\<close>

lemma receive_wf_datagram:
  assumes "unat (hdr_size h) = length d" "length d \<le> recv_size - sizeof_header" "length (m_recv svc) = recv_size"
  shows "packet_of_serial (deliver recv_size (header_bytes h @ d) (m_recv svc)) =
    Inr \<lparr>m_header = h, m_content = (if d = [] then Null_ptr else Live d)\<rparr>"
proof -
  have "length (header_bytes h @ d) \<le> recv_size"
    using assms(2) by (simp add: recv_size_def sizeof_header_def)
  then have "deliver recv_size (header_bytes h @ d) (m_recv svc) =
      header_bytes h @ d @ drop (length (header_bytes h @ d)) (m_recv svc)"
    by (simp add: deliver_def)
  then show ?thesis using packet_of_serial_app [OF assms(1)] by simp
qed

text \<open>A header that announces more than came is completed from the old contents of the buffer,
  and more than the buffer holds is read past its end.\<close>

lemma receive_stale:
  assumes "length (m_recv svc) = recv_size" "length d < unat (hdr_size h)"
    "unat (hdr_size h) \<le> recv_size - sizeof_header"
  shows "packet_of_serial (deliver recv_size (header_bytes h @ d) (m_recv svc)) =
    Inr \<lparr>m_header = h, m_content = Live (d @ take (unat (hdr_size h) - length d)
      (drop (sizeof_header + length d) (m_recv svc)))\<rparr>"
proof -
  let ?x = "take (unat (hdr_size h) - length d) (drop (sizeof_header + length d) (m_recv svc))"
  let ?y = "drop (sizeof_header + unat (hdr_size h)) (m_recv svc)"
  have n: "sizeof_header + unat (hdr_size h) \<le> recv_size" "sizeof_header + length d \<le> recv_size"
    using assms by (auto simp: recv_size_def sizeof_header_def)
  have "drop (sizeof_header + length d) (m_recv svc) = ?x @ drop (unat (hdr_size h) - length d)
      (drop (sizeof_header + length d) (m_recv svc))"
    by (rule append_take_drop_id [symmetric])
  also have "drop (unat (hdr_size h) - length d) (drop (sizeof_header + length d) (m_recv svc)) = ?y"
    using assms(2) by (simp add: add.commute)
  finally have "deliver recv_size (header_bytes h @ d) (m_recv svc) = header_bytes h @ (d @ ?x) @ ?y"
    using n by (simp add: deliver_def)
  moreover have "unat (hdr_size h) = length (d @ ?x)" using assms n by simp
  moreover have "d @ ?x \<noteq> []" using assms n by auto
  ultimately show ?thesis using packet_of_serial_app [of h "d @ ?x" ?y] by simp
qed

lemma receive_overread:
  assumes "length (m_recv svc) = recv_size" "recv_size - sizeof_header < unat (hdr_size h)"
    "length d \<le> recv_size - sizeof_header"
  shows "receive env (Udp_datagram (header_bytes h @ d) a) svc st = Inl (Undefined Oob_read)"
proof -
  let ?b = "deliver recv_size (header_bytes h @ d) (m_recv svc)"
  have "?b = header_bytes h @ d @ drop (length (header_bytes h @ d)) (m_recv svc)"
    using assms by (simp add: deliver_def recv_size_def sizeof_header_def)
  then have "take sizeof_header ?b = header_bytes h" by simp
  moreover have "length ?b = recv_size" using assms(1) by (rule length_deliver)
  ultimately have "packet_of_serial ?b = Inl (Undefined Oob_read)"
    using assms(2) by (simp add: packet_of_serial_eq recv_size_def sizeof_header_def)
  then show ?thesis by (simp add: Let_def)
qed

text \<open>A body of hexadecimal text that fits the session's buffer, and ends where the buffer holds a
  zero byte, is read as the bytes it encodes.\<close>

lemma hex_request_read:
  assumes "http_head hdr" "stops_hex (env_stk env)" "length hdr + 4 + 2 * length b < http_size"
    "old ! (length hdr + 4 + 2 * length b) = NUL" "length old = http_size"
  shows "http_to_bin (env_stk env) (deliver http_size (hdr @ CRLF2 @ hex_encode b) old) = Inr b"
proof -
  let ?x = "hdr @ CRLF2 @ hex_encode b"
  have n: "length ?x = length hdr + 4 + 2 * length b" by (simp add: CRLF2_def)
  then have "deliver http_size ?x old = ?x @ drop (length ?x) old"
    using assms(3) by (simp add: deliver_def)
  moreover have "drop (length ?x) old = NUL # drop (Suc (length ?x)) old"
    using assms(3-5) n by (metis Cons_nth_drop_Suc)
  ultimately have data: "deliver http_size ?x old = hdr @ CRLF2 @ hex_encode b @ NUL # drop (Suc (length ?x)) old"
    by simp
  show ?thesis
    unfolding data using http_head_body [OF assms(1) hex_encode_no_NUL] hex_loop_encode [OF assms(2), of "[]"] by simp
qed

section \<open>A service that stopped\<close>

lemma node_step_deaf: "node_step env s e s' \<Longrightarrow> \<not> listening (udp s) \<Longrightarrow> udp s' = udp s"
  by (cases e) (auto simp: bindR_eq_Inr elim!: udp_step accept_step session_step)

lemma run_deaf: "\<not> listening (udp s) \<Longrightarrow> run env es s = Inr s' \<Longrightarrow> udp s' = udp s"
proof (induction es arbitrary: s)
  case (Cons e es)
  then show ?case
    by (auto split: if_splits sum.splits) (metis node_step.step node_step_deaf)
qed simp

lemma run_deaf_skips: "\<not> listening (udp s) \<Longrightarrow>
    run env es s = run env (filter (\<lambda>e. case e of Udp _ \<Rightarrow> False | _ \<Rightarrow> True) es) s"
proof (induction es arbitrary: s)
  case (Cons e es)
  show ?case
  proof (cases e)
    case (Udp ev)
    with Cons show ?thesis by simp
  next
    case (Accept err)
    with Cons show ?thesis by simp
  next
    case (Session ev)
    show ?thesis
    proof (cases "enabled e s \<and> (\<exists>x. node_handle env e s = Inr x)")
      case True
      then obtain s' r where h: "node_handle env e s = Inr (s', r)" by auto
      with True Cons.prems have "\<not> listening (udp s')"
        using node_step_deaf [OF node_step.step] by metis
      with Cons.IH Session True h show ?thesis by simp
    next
      case False
      with Cons Session show ?thesis by (auto split: sum.splits)
    qed
  qed
qed simp

section \<open>Properties\<close>

text \<open>C1: In every state the root node can reach, from an empty table and any contents of its buffer
  by handling any events in any order, no two nodes of the table share a host name or an identifier,
  every host name has at most 125 bytes and every type byte is below 5, the receive buffer keeps its
  1024 bytes, and the HTTP service is still accepting connections.\<close>

theorem reachable_node_invariant:
  assumes "reachable env s" "asio_ok (env_asio env)"
  shows "distinct (map m_hostname (nstable (root s))) \<and> distinct (map m_suid (nstable (root s)))
    \<and> list_all (\<lambda>n. length (m_hostname n) \<le> 125 \<and> schar (m_type n) < 5) (nstable (root s))
    \<and> length (m_recv (udp s)) = 1024 \<and> accepting (http s)"
  using reachable_inv [OF assms] by (simp add: node_inv_def table_inv_def recv_size_def)

definition sample_start :: node_state where
  "sample_start = node_init (replicate 1024 NUL)"

lemma sample_start_reachable: "reachable sample_env sample_start"
  unfolding sample_start_def by (rule reachable.start) (simp add: recv_size_def)

lemma sample_asio: "asio_ok (env_asio sample_env)"
  by (simp add: sample_env_def asio_ok_ref)

theorem reachable_node_invariant_witness:
  "distinct (map m_hostname (nstable (root sample_start))) \<and> accepting (http sample_start)"
  using reachable_node_invariant [OF sample_start_reachable sample_asio] by simp

lemma sample_start_simps: "listening (udp sample_start)" "length (m_recv (udp sample_start)) = recv_size"
  "root sample_start = \<lparr>nstable = [], outbox = []\<rparr>" "accepting (http sample_start)"
  by (simp_all add: sample_start_def node_init_def start_recv_def recv_size_def)

text \<open>C2: The whole node implements the abstract registry: in every state that any events in any
  order lead to, the two maps its table stands for are ones that the registry reaches from the empty
  maps by entering nodes under names that are free and forgetting nodes that are entered. What an event
  does to the table there depends on the request it hands to the handler: a registration whose
  type byte is below 5 does to the maps what the registry does on entering the node it describes with the
  sender's address (nothing, if a name is taken), an unregistration forgets a node with the sender's address, or nothing if there is none, and
  every other event (registrations of other types, resolutions, listings, host name questions,
  queries, unknown types, connections, errors, data without a packet) leaves the table as it is.\<close>

theorem node_implements_registry:
  assumes "reachable env s" "asio_ok (env_asio env)"
  shows "rtranclp registry_step (Map.empty, Map.empty) (abs_registry (nstable (root s)))
    \<and> (\<forall>e s'. node_step env s e s' \<longrightarrow> (case event_request env e s of
        None \<Rightarrow> nstable (root s') = nstable (root s)
      | Some (p, a) \<Rightarrow> registry_effect p a (nstable (root s)) (nstable (root s'))))"
  using reachable_registry [OF assms] node_step_effect [OF assms(2)] reachable_inv [OF assms]
  by (auto simp: node_inv_def)

theorem node_implements_registry_witness:
  "\<exists>d s' s''. serialise (sample_request CHR 0x07 ''acme|a1'') = Inr d
    \<and> node_step sample_env sample_start (Udp (Udp_datagram d sample_addr)) s'
    \<and> fst (abs_registry (nstable (root s'))) ''acme'' = Some sample_node
    \<and> node_step sample_env s' (Accept False) s'' \<and> nstable (root s'') = nstable (root s')
    \<and> rtranclp registry_step (Map.empty, Map.empty) (abs_registry (nstable (root s'')))"
proof -
  let ?p = "sample_request CHR 0x07 ''acme|a1''" and ?s = sample_start
  have w: "packet_wf ?p" using sample_requested(2) by (simp add: readable_request_def)
  have l: "length (packet_data ?p) = 128" "m_content ?p = Live (packet_data ?p)"
    by (simp_all add: sample_request_def register_bytes_def reply_def packet_data_def)
  define d where "d = header_bytes (m_header ?p) @ packet_data ?p"
  have "packet_of_serial (deliver recv_size d (m_recv (udp ?s))) =
      Inr \<lparr>m_header = m_header ?p, m_content = (if packet_data ?p = [] then Null_ptr else Live (packet_data ?p))\<rparr>"
    unfolding d_def using l(1) length_packet_data [OF w]
    by (intro receive_wf_datagram) (simp_all add: sample_start_simps recv_size_def sizeof_header_def)
  also have "\<dots> = Inr ?p" using l by (cases ?p) (auto simp: packet_data_def)
  finally have d: "packet_of_serial (deliver recv_size d (m_recv (udp ?s))) = Inr ?p" .
  have ty: "hdr_type (m_header ?p) = msgtype_val Mt_gsn_register_host" by (simp add: sample_request_def)
  have "register_host ref_asio ?p sample_addr [] = Inr (code_reply Rc_ok, [sample_node])"
    using register_host_eq [OF sample_requested(2) asio_ok_ref, of sample_addr "[]"]
    by (simp add: sample_requested(1) Let_def schar_def)
  then have "process_packet sample_env ?p sample_addr (root ?s) = Inr (code_reply Rc_ok, (root ?s)\<lparr>nstable := [sample_node]\<rparr>)"
    by (simp add: process_typed(1) [OF ty] sample_start_simps sample_env_def)
  moreover obtain b where "serialise (code_reply Rc_ok) = Inr b"
    using serialise_wf [OF reply_wf] by (fastforce simp: code_reply_def response_code_bytes_def)
  ultimately obtain s' r where s': "node_handle sample_env (Udp (Udp_datagram d sample_addr)) ?s = Inr (s', r)"
      "nstable (root s') = [sample_node]" "accepting (http s')"
    using d by (simp add: Let_def sample_start_simps)
  then have st: "node_step sample_env ?s (Udp (Udp_datagram d sample_addr)) s'"
    by (intro node_step.step) (simp_all add: sample_start_simps del: node_handle.simps)
  then have r1: "reachable sample_env s'" by (rule reachable.more [OF sample_start_reachable])
  let ?s2 = "s'\<lparr>http := do_accept False (http s')\<rparr>"
  have st2: "node_step sample_env s' (Accept False) ?s2" using s'(3) by (intro node_step.step) simp_all
  have "serialise ?p = Inr d" using serialise_wf [OF w] by (simp add: d_def)
  moreover have "fst (abs_registry (nstable (root s'))) ''acme'' = Some sample_node"
    by (simp add: s'(2) abs_registry_def)
  ultimately show ?thesis
    using st st2 node_implements_registry [OF r1 sample_asio] by (intro exI [of _ d] exI [of _ s'] exI [of _ ?s2]) fastforce
qed

text \<open>C17: One UDP datagram ends the node: a resolution or query request whose content is empty, or
  is not a text that goes on after \<open>spring://\<close>, raises an exception that does not count as a
  \<open>std::exception\<close>, so the handler of \<open>main\<close> does not catch it and the program aborts.\<close>

theorem bad_url_aborts_node:
  assumes "listening (udp s)" "length (m_recv (udp s)) = recv_size"
    "hdr_type h = msgtype_val Mt_gsn_resolution \<or> hdr_type h = msgtype_val Mt_gsn_request"
    "unat (hdr_size h) = length d" "length d \<le> recv_size - sizeof_header"
    "\<not> (9 < length d \<and> take 9 d = ''spring://'')"
  shows "run env (Udp (Udp_datagram (header_bytes h @ d) a) # es) s = Inl Aborted"
proof -
  let ?p = "\<lparr>m_header = h, m_content = (if d = [] then Null_ptr else Live d)\<rparr>"
  have p: "packet_of_serial (deliver recv_size (header_bytes h @ d) (m_recv (udp s))) = Inr ?p"
    by (rule receive_wf_datagram [OF assms(4,5,2)])
  then have w: "packet_wf ?p" by (rule packet_of_serial_wf)
  have dp: "packet_data ?p = d" by (simp add: packet_data_def)
  have "\<exists>e. process_packet env ?p a st = Inl (Throw e) \<and> \<not> is_std_exception e" for st
  proof -
    have t: "\<exists>e. bindR (packet_to_string ?p 0) (\<lambda>text. bindR (netspace_url_of text) f) = Inl (Throw e)
        \<and> \<not> is_std_exception e" for f :: "netspace_url \<Rightarrow> 'a result"
    proof (cases "d = []")
      case True
      then show ?thesis using packet_to_string_empty [OF w] dp by simp
    next
      case False
      then show ?thesis
        using packet_to_string_wf [OF w] dp assms(6) by (auto simp: netspace_url_of_def decode_simp)
    qed
    show ?thesis
    proof (cases "hdr_type h = msgtype_val Mt_gsn_resolution")
      case True
      then have "enum_of msgtype_val (hdr_type h) = Some Mt_gsn_resolution"
        by (simp only: msgtype_enum.enum_of_val)
      then show ?thesis
        using t by (auto simp: process_packet_def Let_def resolve_handler_def bindR_assoc)
    next
      case False
      with assms(3) have "hdr_type (m_header ?p) = msgtype_val Mt_gsn_request" by simp
      then show ?thesis
        using t by (auto simp: process_request query_handler_def packet_copy_wf [OF w])
    qed
  qed
  then obtain e where "process_packet env ?p a (root s) = Inl (Throw e)" "\<not> is_std_exception e" by blast
  then show ?thesis using assms(1) p by (simp add: Let_def)
qed

theorem bad_url_aborts_node_witness:
  "run sample_env [Udp (Udp_datagram (header_bytes (dvsp_header_default\<lparr>hdr_type := CHR 0x03\<rparr>) @ []) sample_addr)]
    sample_start = Inl Aborted"
  by (rule bad_url_aborts_node)
    (simp_all add: sample_start_simps dvsp_header_default_def recv_size_def sizeof_header_def)

text \<open>C34: A datagram whose header announces more content than fits the receive buffer makes the node
  read past the end of the buffer, however little the datagram holds.\<close>

theorem long_datagram_overreads:
  assumes "listening (udp s)" "length (m_recv (udp s)) = recv_size" "1010 < unat (hdr_size h)"
    "length d \<le> 1010"
  shows "run env (Udp (Udp_datagram (header_bytes h @ d) a) # es) s = Inl (Undefined_behaviour Oob_read)"
  using receive_overread [OF assms(2), of h d env a "root s"] assms(1,3,4)
  by (simp add: recv_size_def sizeof_header_def del: receive.simps)

theorem long_datagram_overreads_witness:
  "run sample_env [Udp (Udp_datagram (header_bytes (dvsp_header_default\<lparr>hdr_size := 2000\<rparr>) @ []) sample_addr)]
    sample_start = Inl (Undefined_behaviour Oob_read)"
  by (rule long_datagram_overreads) (simp_all add: sample_start_simps dvsp_header_default_def)

text \<open>C35: A header that announces more content than came, within the buffer, is completed with what
  earlier datagrams left in the buffer: the packet handed to the protocol is the datagram's content
  followed by old bytes.\<close>

theorem short_datagram_reads_old_bytes:
  assumes "length (m_recv svc) = recv_size" "length d < unat (hdr_size h)" "unat (hdr_size h) \<le> 1010"
  shows "receive env (Udp_datagram (header_bytes h @ d) a) svc st =
    bindR (process_packet env \<lparr>m_header = h, m_content = Live (d @ take (unat (hdr_size h) - length d)
        (drop (sizeof_header + length d) (m_recv svc)))\<rparr> a st) (\<lambda>(out, st').
    bindR (serialise out) (\<lambda>s. Inr (start_recv (svc\<lparr>m_recv := deliver recv_size (header_bytes h @ d) (m_recv svc),
      listening := False\<rparr>), st', Some s)))"
  using receive_stale [OF assms(1,2)] assms(3) by (simp add: Let_def recv_size_def sizeof_header_def)

theorem short_datagram_reads_old_bytes_witness:
  "receive sample_env (Udp_datagram (header_bytes (dvsp_header_default\<lparr>hdr_size := 2\<rparr>) @ ''a'') sample_addr)
     (udp sample_start) sample_state =
    bindR (process_packet sample_env \<lparr>m_header = dvsp_header_default\<lparr>hdr_size := 2\<rparr>,
      m_content = Live [CHR ''a'', NUL]\<rparr> sample_addr sample_state) (\<lambda>(out, st').
    bindR (serialise out) (\<lambda>s. Inr (start_recv ((udp sample_start)\<lparr>m_recv :=
        deliver recv_size (header_bytes (dvsp_header_default\<lparr>hdr_size := 2\<rparr>) @ ''a'') (m_recv (udp sample_start)),
      listening := False\<rparr>), st', Some s)))"
proof -
  have "take 1 (drop (sizeof_header + 1) (m_recv (udp sample_start))) = [NUL]"
    by (simp add: sample_start_def node_init_def start_recv_def sizeof_header_def)
  then show ?thesis
    using short_datagram_reads_old_bytes [OF sample_start_simps(2), of "''a''"
      "dvsp_header_default\<lparr>hdr_size := 2\<rparr>" sample_env sample_addr sample_state]
    by (simp del: receive.simps)
qed

text \<open>C37: After one error on the UDP socket the resolution service never listens again: whatever
  happens later, the run goes on as if the datagrams did not exist, while the HTTP service accepts
  as before.\<close>

theorem udp_error_deafens:
  assumes "listening (udp s)"
  shows "run env (Udp Udp_error # es) s =
      run env (filter (\<lambda>e. case e of Udp _ \<Rightarrow> False | _ \<Rightarrow> True) es) (s\<lparr>udp := (udp s)\<lparr>listening := False\<rparr>\<rparr>)
    \<and> (\<forall>s'. run env (Udp Udp_error # es) s = Inr s' \<longrightarrow> \<not> listening (udp s'))"
proof -
  let ?s = "s\<lparr>udp := (udp s)\<lparr>listening := False\<rparr>\<rparr>"
  have r: "run env (Udp Udp_error # es) s = run env es ?s" using assms by simp
  have d: "\<not> listening (udp ?s)" by simp
  show ?thesis unfolding r using run_deaf [OF d] run_deaf_skips [OF d] d by metis
qed

theorem udp_error_deafens_witness:
  "run sample_env [Udp Udp_error, Udp (Udp_datagram [] sample_addr)] sample_start =
    run sample_env [] (sample_start\<lparr>udp := (udp sample_start)\<lparr>listening := False\<rparr>\<rparr>)"
  using udp_error_deafens [OF sample_start_simps(1), of sample_env "[Udp (Udp_datagram [] sample_addr)]"]
  by (simp del: run.simps)

text \<open>C22: Where an HTTP request is read as it was meant, the two transports do the same. Take a packet of at
  most 1010 bytes of content, and an HTTP request with a header that holds neither a zero byte nor a blank
  line, and with the hexadecimal text of the packet as its body, that ends before the 2048 bytes of the session's
  buffer. If that buffer, which nothing initialises, happens to hold a zero right after the request, and no
  hexadecimal digit lies on the stack after the two digits \<open>http_to_bin\<close> converts (the code sees to
  neither), then the session that receives the request and the UDP service that receives the packet's
  bytes run the same protocol step on the same packet and send back the same bytes, or end in the same fault.\<close>

theorem http_session_as_udp:
  assumes "unat (hdr_size h) = length d" "length d \<le> 1010" "length (m_recv svc) = recv_size"
    "http_head hdr" "stops_hex (env_stk env)" "length hdr + 4 + 2 * (14 + length d) < 2048"
    "old ! (length hdr + 4 + 2 * (14 + length d)) = NUL" "length old = 2048"
  shows "\<exists>svc'. receive env (Udp_datagram (header_bytes h @ d) a) svc st =
    bindR (session_read env (Http_data (hdr @ CRLF2 @ hex_encode (header_bytes h @ d)) old a) st)
      (\<lambda>(st', r). Inr (svc', st', r))"
proof -
  let ?x = "hdr @ CRLF2 @ hex_encode (header_bytes h @ d)" and ?b = "header_bytes h @ d"
  let ?p = "\<lparr>m_header = h, m_content = (if d = [] then Null_ptr else Live d)\<rparr>"
  have raw: "http_to_bin (env_stk env) (deliver http_size ?x old) = Inr ?b"
    using hex_request_read [OF assms(4,5), of ?b old] assms(6-8) by (simp add: sizeof_header_def http_size_def)
  have pk: "packet_of_serial ?b = Inr ?p"
    using packet_of_serial_app [OF assms(1), of "[]"] by simp
  have "length d \<le> recv_size - sizeof_header" using assms(2) by (simp add: recv_size_def sizeof_header_def)
  then have u: "packet_of_serial (deliver recv_size ?b (m_recv svc)) = Inr ?p"
    using receive_wf_datagram [OF assms(1) _ assms(3)] by simp
  let ?svc = "start_recv (svc\<lparr>m_recv := deliver recv_size ?b (m_recv svc), listening := False\<rparr>)"
  have "bindR (bindR m (\<lambda>(out, st'). bindR (serialise out) (\<lambda>s. Inr (st', Some s)))) (\<lambda>(st', r). Inr (?svc, st', r)) =
      bindR m (\<lambda>(out, st'). bindR (serialise out) (\<lambda>s. Inr (?svc, st', Some s)))"
    for m :: "(dvsp_packet \<times> root_state) result"
    by (cases m) (auto simp: bindR_assoc)
  then have "receive env (Udp_datagram ?b a) svc st =
    bindR (session_read env (Http_data ?x old a) st) (\<lambda>(st', r). Inr (?svc, st', r))"
    using raw pk u by (simp add: Let_def dump_frames_eq session_data del: session_read.simps)
  then show ?thesis by blast
qed

theorem http_session_as_udp_witness:
  "\<exists>svc'. receive sample_env (Udp_datagram (header_bytes dvsp_header_default @ []) sample_addr) (udp sample_start) sample_state =
    bindR (session_read sample_env (Http_data (''POST / HTTP/1.1'' @ CRLF2
      @ hex_encode (header_bytes dvsp_header_default @ [])) (replicate 2048 NUL) sample_addr) sample_state)
      (\<lambda>(st', r). Inr (svc', st', r))"
  by (rule http_session_as_udp)
    (simp_all add: dvsp_header_default_def sample_start_simps http_head_sample sample_env_def stops_hex_def hex_digit_def)

end
