(* ===== verification/Answers.thy ===== *)
theory Answers
  imports Services Resolution
begin

text \<open>
  Which requests the root node answers, and what an answer is. Every packet \<open>process_packet\<close>
  returns can be serialised and is of type \<open>gsn_response\<close>, or is the resolution request itself,
  redirected. Over a table of IPv4 nodes and a database whose statements compile, whether a request
  other than a query is answered does not depend on the state of the node: \<open>sane_request\<close> says
  exactly which ones are, and the services go on serving as long as only such requests come in.
\<close>

section \<open>The shape of an answer\<close>

definition answers_to :: "dvsp_packet \<Rightarrow> dvsp_packet \<Rightarrow> bool" where
  "answers_to p out \<longleftrightarrow> (\<exists>h d. out = reply h d
     \<and> (hdr_type h = msgtype_val Mt_gsn_response
        \<or> hdr_type (m_header p) = msgtype_val Mt_gsn_resolution \<and> hdr_type h = hdr_type (m_header p)))"

lemma answers_response: "hdr_type h = msgtype_val Mt_gsn_response \<Longrightarrow> answers_to p (reply h d)"
  by (auto simp: answers_to_def)

lemma answers_code: "answers_to p (code_reply c)"
  by (simp add: code_reply_def answers_response)

lemma reply_redirect:
  "(reply h d)\<lparr>m_header := (m_header (reply h d))\<lparr>addr_dest := a\<rparr>\<rparr> = reply (h\<lparr>addr_dest := a\<rparr>) d"
  by (simp add: reply_def)

lemma serialise_reply: "\<exists>s. serialise (reply h d) = Inr s \<and> length s = packet_size (reply h d)"
proof -
  have "unat (word_of_nat (length d) :: 32 word) \<le> length d" by (simp add: unat_of_nat)
  then have "\<exists>s. serialise (reply h d) = Inr s"
    by (cases "d = []") (auto simp: serialise_def reply_def read_ptr_def)
  then show ?thesis using length_serialise by blast
qed

lemma register_answers: "register_host io p a t = Inr (r, t') \<Longrightarrow> answers_to q r"
  by (auto simp: register_host_def Let_def bindR_eq_Inr answers_code split: if_splits)

lemma unregister_answers: "unregister_host io p a t = Inr (r, t') \<Longrightarrow> answers_to q r"
  by (auto simp: unregister_host_def bindR_eq_Inr answers_code split: if_splits)

lemma address_answers: "address_reply p n = Inr r \<Longrightarrow> answers_to q r"
  by (cases "m_addr n") (auto simp: address_reply_V4 address_reply_V6 answers_response)

lemma answer_host_answers: "answer_host p t h = Inr r \<Longrightarrow> answers_to q r"
  by (auto simp: answer_host_def answers_code address_answers split: option.splits)

lemma hostname_answers: "hostname_handler junk p t = Inr r \<Longrightarrow> answers_to q r"
  by (auto simp: hostname_handler_def Let_def bindR_eq_Inr answers_code answers_response
      filled_reply split: if_splits)

lemma query_answers: "query_handler env p st = Inr (r, st') \<Longrightarrow> answers_to q r"
  by (auto simp: query_handler_def bindR_eq_Inr answers_response filled_reply split: prod.splits)

section \<open>Resolution of any text\<close>

text \<open>What \<open>resolve_gsn\<close> does once the text has been decoded, whatever the URL.\<close>

definition resolve_url :: "gsn_db \<Rightarrow> dvsp_packet \<Rightarrow> netspace_table \<Rightarrow> netspace_url \<Rightarrow> dvsp_packet result" where
  "resolve_url db p t u =
     (let r = butlast (m_gsn u) in
      if r = [] \<and> m_glq u \<noteq> [] then bindR (resolve_gsn db (m_glq u)) (answer_host p t)
      else if r = [] then Inl (Undefined Empty_container)
      else case by_key m_hostname t (last r) of
        None \<Rightarrow> Inr (code_reply Rc_netspace_error)
      | Some n \<Rightarrow>
          if length r = 1 then address_reply p n
          else bindR (to_v4 (m_addr n)) (\<lambda>a. Inr (forward p (u\<lparr>m_gsn := r\<rparr>) a)))"

lemma decoded_url:
  assumes "netspace_url_of s = Inr u"
  shows "m_gsn u \<noteq> []" "9 < length s" "take 9 s = ''spring://''"
  using assms by (auto simp: netspace_url_of_def decode_simp decode_loop_route split: if_splits)

lemma packet_text:
  assumes "packet_wf p" "netspace_url_of (packet_data p) = Inr u"
  shows "packet_to_string p 0 = Inr (packet_data p)"
  using packet_to_string_wf [OF assms(1), of 0] decoded_url(2) [OF assms(2)]
  by (cases "packet_data p = []") auto

lemma resolve_decoded:
  assumes "packet_wf p" "netspace_url_of (packet_data p) = Inr u"
  shows "resolve_handler db p t = resolve_url db p t u"
proof -
  have g: "m_gsn u \<noteq> []" using assms(2) by (rule decoded_url)
  have shown: "fst (url_to_string v) = url_text v" for v by (simp add: url_to_string_def Let_def url_text_def)
  note rhs = resolve_url_def [of db p t u, unfolded Let_def]
  show ?thesis using g
    by (simp add: resolve_handler_def packet_text [OF assms] assms(2) route_pop_back_def route_back_def
        find_host_answer answer_host_def [abs_def] rhs shown reply_redirect forward_def
        del: str_content_filled split: option.split)
qed

lemma resolve_undecoded:
  assumes "packet_wf p" "netspace_url_of (packet_data p) = Inl e"
  shows "\<exists>f. resolve_handler db p t = Inl f"
  using assms packet_to_string_empty [OF assms(1)] packet_to_string_wf [OF assms(1), of 0]
  by (cases "packet_data p = []") (auto simp: resolve_handler_def)

lemma forward_answers:
  "hdr_type (m_header p) = msgtype_val Mt_gsn_resolution \<Longrightarrow> answers_to p (forward p u a)"
  by (auto simp: answers_to_def forward_def)

lemma resolve_answers:
  assumes "packet_wf p" "hdr_type (m_header p) = msgtype_val Mt_gsn_resolution"
    "resolve_handler db p t = Inr r"
  shows "answers_to p r"
proof (cases "netspace_url_of (packet_data p)")
  case (Inl e)
  with resolve_undecoded [OF assms(1) this, of db t] assms(3) show ?thesis by simp
next
  case (Inr u)
  with resolve_decoded [OF assms(1) this] assms(3) have "resolve_url db p t u = Inr r" by simp
  then show ?thesis using assms(2)
    by (auto simp: resolve_url_def Let_def bindR_eq_Inr answers_code
        dest: answer_host_answers address_answers intro: forward_answers split: if_splits option.splits)
qed

lemma process_packet_answers:
  assumes "packet_wf p" "process_packet env p a st = Inr (out, st')"
  shows "answers_to p out"
proof (cases "enum_of msgtype_val (hdr_type (m_header p))")
  case None
  with assms(2) show ?thesis by (auto simp: process_packet_def answers_code)
next
  case (Some mt)
  then have ty: "hdr_type (m_header p) = msgtype_val mt" by (simp add: msgtype_enum.enum_of_Some)
  show ?thesis using assms(2) Some
    by (cases mt)
      (auto simp: process_packet_def Let_def bindR_eq_Inr answers_code local_gsn_def root_nodes_def
        answers_response ty resolve_answers [OF assms(1)]
        dest: register_answers unregister_answers hostname_answers query_answers
        simp del: str_content_filled msgtype_val.simps)
qed

section \<open>Which requests are answered\<close>

definition returns :: "'a result \<Rightarrow> bool" where
  "returns m \<longleftrightarrow> (\<exists>x. m = Inr x)"

lemma returns_simps [simp]: "returns (Inr x)" "\<not> returns (Inl e)"
  by (simp_all add: returns_def)

lemma returnsE: "returns m \<Longrightarrow> (\<And>x. m = Inr x \<Longrightarrow> P) \<Longrightarrow> P"
  by (auto simp: returns_def)

lemma returns_map [simp]: "returns (bindR m (\<lambda>r. Inr (g r))) = returns m"
  by (cases m) auto

lemma returns_map2 [simp]: "returns (bindR m (\<lambda>(r, s). Inr (g r s))) = returns m"
  by (cases m) auto

lemma returns_bind: "returns m \<Longrightarrow> (\<And>x. m = Inr x \<Longrightarrow> returns (f x)) \<Longrightarrow> returns (bindR m f)"
  by (cases m) auto

definition sane_request :: "dvsp_packet \<Rightarrow> bool" where
  "sane_request p \<longleftrightarrow> (let d = packet_data p in
     case enum_of msgtype_val (hdr_type (m_header p)) of
       Some Mt_gsn_register_host \<Rightarrow> sizeof_register \<le> length d
         \<and> (5 \<le> schar (fr_type (request_frame p))
            \<or> 0 \<le> schar (fr_len (request_frame p)) \<and> schar (fr_len (request_frame p)) \<le> 125)
     | Some Mt_gsn_resolution \<Rightarrow> (case netspace_url_of d of
           Inl _ \<Rightarrow> False
         | Inr u \<Rightarrow> 2 \<le> length (m_gsn u) \<or> m_glq u \<noteq> [])
     | Some Mt_gsn_hostname \<Rightarrow> 4 \<le> length d
     | Some Mt_gsn_request \<Rightarrow> False
     | _ \<Rightarrow> True)"

definition db_compiles :: "gsn_db \<Rightarrow> bool" where
  "db_compiles db \<longleftrightarrow> sql_prepare db Select_by_postcode = None \<and> sql_prepare db Select_by_county = None"

lemma db_compiles_resolve: "db_compiles db \<Longrightarrow> q \<noteq> [] \<Longrightarrow> returns (resolve_gsn db q)"
  using resolve_gsn_fault [of db q]
  by (cases "resolve_gsn db q") (auto simp: db_compiles_def, (metis option.distinct(1) sql.exhaust)+)

lemma address_reply_v4: "v4_table t \<Longrightarrow> by_key key t k = Some n \<Longrightarrow> returns (address_reply p n)"
  by (auto dest!: v4_table_by_key simp: address_reply_V4)

lemma forward_v4: "v4_table t \<Longrightarrow> by_key key t k = Some n \<Longrightarrow> returns (bindR (to_v4 (m_addr n)) (\<lambda>a. Inr (g a)))"
  by (auto dest!: v4_table_by_key)

lemma answer_host_v4: "v4_table t \<Longrightarrow> returns (answer_host p t h)"
  by (simp add: answer_host_def address_reply_v4 split: option.split)

lemma butlast_route: "g \<noteq> [] \<Longrightarrow> butlast g \<noteq> [] \<longleftrightarrow> 2 \<le> length g"
  by (cases g rule: rev_cases) (auto simp: Suc_le_eq)

lemma resolve_url_returns:
  assumes "v4_table t" "db_compiles db" "m_gsn u \<noteq> []"
  shows "returns (resolve_url db p t u) \<longleftrightarrow> 2 \<le> length (m_gsn u) \<or> m_glq u \<noteq> []"
  using butlast_route [OF assms(3)] db_compiles_resolve [OF assms(2)] answer_host_v4 [OF assms(1)]
    address_reply_v4 [OF assms(1)] forward_v4 [OF assms(1)]
  by (auto simp: resolve_url_def Let_def intro: returns_bind split: option.split)

lemma resolve_returns:
  assumes "packet_wf p" "v4_table t" "db_compiles db"
  shows "returns (resolve_handler db p t) \<longleftrightarrow> (case netspace_url_of (packet_data p) of
    Inl _ \<Rightarrow> False | Inr u \<Rightarrow> 2 \<le> length (m_gsn u) \<or> m_glq u \<noteq> [])"
proof (cases "netspace_url_of (packet_data p)")
  case (Inl e)
  with resolve_undecoded [OF assms(1) this, of db t] show ?thesis by auto
next
  case (Inr u)
  with resolve_decoded [OF assms(1) this] resolve_url_returns [OF assms(2,3) decoded_url(1) [OF this]]
  show ?thesis by simp
qed

lemma register_returns:
  assumes "packet_wf p" "asio_ok io"
  shows "returns (register_host io p a t) \<longleftrightarrow> sizeof_register \<le> length (packet_data p)
    \<and> (5 \<le> schar (fr_type (request_frame p)) \<or> readable_request p)"
proof (cases "readable_request p")
  case True
  then show ?thesis using register_host_eq [OF True assms(2)] by (auto simp: Let_def readable_request_def)
next
  case False
  show ?thesis
  proof (cases "sizeof_register \<le> length (packet_data p)")
    case True
    then show ?thesis using register_host_unreadable [OF assms(1) False, of io a t] False by auto
  next
    case short: False
    with content_as_short [of p 0 sizeof_register bytes_register] length_packet_data [of p] assms(1)
    have "\<exists>u. register_host io p a t = Inl (Undefined u)" by (auto simp: register_host_def frame_sizes)
    with short show ?thesis by auto
  qed
qed

lemma hostname_returns:
  assumes "packet_wf p" "table_inv t"
  shows "returns (hostname_handler junk p t) \<longleftrightarrow> 4 \<le> length (packet_data p)"
proof (cases "4 \<le> length (packet_data p)")
  case True
  with hostname_handler_eq [OF assms(1) True assms(2)] show ?thesis by (auto split: option.split)
next
  case False
  with content_as_short [of p 0 4 bytes_ipv4] length_packet_data [of p] assms(1) show ?thesis
    by (auto simp: hostname_handler_def)
qed

lemma unregister_returns: "asio_ok io \<Longrightarrow> returns (unregister_host io p a t)"
  by (simp add: unregister_host_eq Let_def)

lemma listing_returns: "returns (local_gsn io p t)" "returns (root_nodes io p t)"
  by (simp_all add: local_gsn_def root_nodes_def del: str_content_filled)

definition serving :: "root_env \<Rightarrow> netspace_table \<Rightarrow> bool" where
  "serving env t \<longleftrightarrow> asio_ok (env_asio env) \<and> db_compiles (env_gsn env) \<and> table_inv t \<and> v4_table t"

lemma request_returns:
  assumes "packet_wf p" "serving env (nstable st)" "hdr_type (m_header p) \<noteq> msgtype_val Mt_gsn_request"
  shows "returns (process_packet env p a st) \<longleftrightarrow> sane_request p"
proof (cases "enum_of msgtype_val (hdr_type (m_header p))")
  case None
  then show ?thesis by (simp add: process_packet_def sane_request_def)
next
  case (Some mt)
  have mt: "mt \<noteq> Mt_gsn_request" using assms(3) Some by (auto simp: msgtype_enum.enum_of_Some)
  have s: "asio_ok (env_asio env)" "db_compiles (env_gsn env)" "table_inv (nstable st)" "v4_table (nstable st)"
    using assms(2) by (simp_all add: serving_def)
  show ?thesis using Some mt
    by (cases mt)
      (auto simp: process_packet_def sane_request_def Let_def resolve_returns [OF assms(1) s(4,2)]
        register_returns [OF assms(1) s(1)] hostname_returns [OF assms(1) s(3)]
        unregister_returns [OF s(1)] listing_returns readable_request_def assms(1)
        simp del: msgtype_val.simps)
qed

section \<open>Traffic of such requests\<close>

fun is_V4 :: "netspace_addr \<Rightarrow> bool" where
  "is_V4 (V4 _) = True"
| "is_V4 (V6 _) = False"

text \<open>Events that bring a whole packet holding an answered request, from an IPv4 sender.\<close>

fun sane_event :: "root_env \<Rightarrow> event \<Rightarrow> bool" where
  "sane_event env (Accept _) = True"
| "sane_event env (Session Http_error) = True"
| "sane_event env (Udp Udp_error) = False"
| "sane_event env (Udp (Udp_datagram data remote)) =
     (is_V4 remote \<and> (case packet_of_serial data of
        Inl _ \<Rightarrow> False | Inr p \<Rightarrow> packet_size p \<le> recv_size \<and> sane_request p))"
| "sane_event env (Session (Http_data data old remote)) =
     (is_V4 remote \<and> (case http_to_bin (env_stk env) (deliver http_size data old) of
        Inl _ \<Rightarrow> False
      | Inr raw \<Rightarrow> (case packet_of_serial raw of Inl _ \<Rightarrow> False | Inr p \<Rightarrow> sane_request p)))"
| "sane_event env (Session (Http_gone data old)) = False"
| "sane_event env (Session (Http_unsent data old remote)) = False"

lemma sane_not_query: "sane_request p \<Longrightarrow> hdr_type (m_header p) \<noteq> msgtype_val Mt_gsn_request"
  using msgtype_enum.enum_of_val [of Mt_gsn_request] by (auto simp: sane_request_def Let_def)

lemma packet_of_serial_prefix:
  assumes "packet_of_serial s = Inr p" "take (packet_size p) s' = take (packet_size p) s"
  shows "packet_of_serial s' = Inr p"
proof -
  let ?h = "bytes_header (take sizeof_header s)" and ?n = "packet_size p"
  have p: "sizeof_header + unat (hdr_size ?h) \<le> length s" "m_header p = ?h"
    "m_content p = (if unat (hdr_size ?h) = 0 then Null_ptr
       else Live (take (unat (hdr_size ?h)) (drop sizeof_header s)))"
    using assms(1) by (auto simp: packet_of_serial_eq Let_def split: if_splits)
  then have n: "?n = sizeof_header + unat (hdr_size ?h)" by (simp add: packet_size_def)
  have "?n \<le> length s'" using arg_cong [OF assms(2), of length] p(1) n by simp
  moreover have "take sizeof_header s' = take sizeof_header s"
    using arg_cong [OF assms(2), of "take sizeof_header"] n by (simp add: min_def)
  moreover have "take (unat (hdr_size ?h)) (drop sizeof_header s') = take (unat (hdr_size ?h)) (drop sizeof_header s)"
    using arg_cong [OF assms(2), of "drop sizeof_header"] n by (simp add: drop_take)
  moreover have "p = \<lparr>m_header = ?h, m_content = m_content p\<rparr>" using p(2) by (cases p) simp
  ultimately show ?thesis using p(1,3) n by (simp add: packet_of_serial_eq Let_def)
qed

lemma deliver_packet:
  assumes "packet_of_serial s = Inr p" "packet_size p \<le> n" "length buf = n"
  shows "packet_of_serial (deliver n s buf) = Inr p"
proof -
  have "packet_size p \<le> length s"
    using assms(1) by (auto simp: packet_of_serial_eq Let_def packet_size_def split: if_splits)
  then have "take (packet_size p) (deliver n s buf) = take (packet_size p) s"
    using assms(2) by (simp add: deliver_def min_def)
  with packet_of_serial_prefix [OF assms(1)] show ?thesis by simp
qed

lemma v4_table_add: "v4_table (t @ [n]) \<longleftrightarrow> v4_table t \<and> is_V4 (m_addr n)"
  by (cases "m_addr n") (auto simp: v4_table_def)

lemma v4_table_remove: "v4_table t \<Longrightarrow> v4_table (take i t @ drop j t)"
  by (auto simp: v4_table_def list_all_iff dest: in_set_takeD in_set_dropD)

lemma request_serving:
  assumes "packet_wf p" "serving env (nstable st)" "is_V4 a" "process_packet env p a st = Inr (out, st')"
  shows "serving env (nstable st')"
proof -
  have io: "asio_ok (env_asio env)" and v: "v4_table (nstable st)" and t: "table_inv (nstable st)"
    using assms(2) by (simp_all add: serving_def)
  from process_packet_table [OF assms(4)] have "v4_table (nstable st')"
  proof (elim disjE exE)
    fix r assume r: "register_host (env_asio env) p a (nstable st) = Inr (r, nstable st')"
    show ?thesis
    proof (cases "readable_request p")
      case True
      have "is_V4 (m_addr (requested_node p a))" using assms(3) by (simp add: requested_node_def)
      with v have "v4_table (nstable st @ [requested_node p a])" by (simp add: v4_table_add)
      with r v show ?thesis by (auto simp: register_host_eq [OF True io] Let_def split: if_splits)
    next
      case False
      with r v register_host_unreadable [OF assms(1) False, of "env_asio env" a "nstable st"]
      show ?thesis by (auto split: if_splits)
    qed
  next
    fix r assume "unregister_host (env_asio env) p a (nstable st) = Inr (r, nstable st')"
    with v v4_table_remove [OF v, of "find_addr (nstable st) a" "find_addr (nstable st) a + 1"]
    show ?thesis by (auto simp: unregister_host_eq [OF io] Let_def split: if_splits)
  qed (use v in simp)
  with assms(2) process_packet_inv [OF assms(1) io t assms(4)] show ?thesis by (simp add: serving_def)
qed

text \<open>One request, from its packet to the bytes of its answer.\<close>

lemma sane_exchange:
  assumes "packet_wf p" "serving env (nstable st)" "is_V4 a" "sane_request p"
  obtains out st' s where "process_packet env p a st = Inr (out, st')" "serialise out = Inr s"
    "serving env (nstable st')" "answers_to p out"
proof -
  have "returns (process_packet env p a st)"
    using request_returns [OF assms(1,2) sane_not_query [OF assms(4)]] assms(4) by blast
  then obtain out st' where r: "process_packet env p a st = Inr (out, st')" by (auto elim: returnsE)
  moreover have o: "answers_to p out" using process_packet_answers [OF assms(1) r] .
  moreover from o obtain s where "serialise out = Inr s" using serialise_reply by (auto simp: answers_to_def)
  ultimately show ?thesis using that request_serving [OF assms(1,2,3) r] by blast
qed

definition serving_node :: "root_env \<Rightarrow> node_state \<Rightarrow> bool" where
  "serving_node env s \<longleftrightarrow> serving env (nstable (root s)) \<and> listening (udp s)
     \<and> length (m_recv (udp s)) = recv_size"

lemma node_datagram:
  assumes "packet_of_serial data = Inr p" "packet_size p \<le> recv_size" "length (m_recv (udp s)) = recv_size"
    "process_packet env p a (root s) = Inr (out, st')" "serialise out = Inr b"
  shows "node_handle env (Udp (Udp_datagram data a)) s =
    Inr (s\<lparr>udp := start_recv ((udp s)\<lparr>m_recv := deliver recv_size data (m_recv (udp s)), listening := False\<rparr>),
      root := st'\<rparr>, Some b)"
  using deliver_packet [OF assms(1-3)] assms(4,5) by (simp add: Let_def)

text \<open>The bytes of an answer, read back, are the answer.\<close>

lemma reply_read_back:
  assumes "length d < 2 ^ 32"
  shows "\<exists>b. serialise (reply h d) = Inr b \<and> packet_of_serial b = Inr (reply h d)"
proof -
  have w: "packet_wf (reply h d)" using assms by (rule reply_wf)
  have "unat (hdr_size (m_header (reply h d))) = length d" using length_packet_data [OF w] by simp
  from packet_of_serial_app [OF this, of "[]"]
  have "packet_of_serial (header_bytes (m_header (reply h d)) @ d) = Inr (reply h d)"
    by (simp add: reply_def [of h d])
  then show ?thesis using serialise_wf [OF w] by simp
qed

lemma code_reply_read_back:
  "\<exists>b. serialise (code_reply c) = Inr b \<and> packet_of_serial b = Inr (code_reply c)"
  unfolding code_reply_def by (rule reply_read_back) (simp add: response_code_bytes_def)

lemma sane_datagram:
  assumes "serving_node env s" "sane_event env (Udp (Udp_datagram data a))"
  shows "\<exists>s' r p out. node_handle env (Udp (Udp_datagram data a)) s = Inr (s', Some r)
    \<and> serving_node env s' \<and> packet_of_serial data = Inr p \<and> answers_to p out \<and> serialise out = Inr r"
proof -
  from assms(2) obtain p where p: "packet_of_serial data = Inr p" "packet_size p \<le> recv_size"
      "sane_request p" and a: "is_V4 a"
    by (auto split: sum.splits)
  have s: "serving env (nstable (root s))" "length (m_recv (udp s)) = recv_size"
    using assms(1) by (simp_all add: serving_node_def)
  obtain out st' r where x: "process_packet env p a (root s) = Inr (out, st')" "serialise out = Inr r"
      "serving env (nstable st')" "answers_to p out"
    by (rule sane_exchange [OF packet_of_serial_wf [OF p(1)] s(1) a p(3)])
  with deliver_packet [OF p(1,2) s(2)] s(2) p(1) show ?thesis
    by (auto simp: Let_def serving_node_def start_recv_def length_deliver)
qed

lemma sane_session:
  assumes "serving_node env s" "sane_event env (Session (Http_data data old a))"
  shows "\<exists>s' r. node_handle env (Session (Http_data data old a)) s = Inr (s', Some r) \<and> serving_node env s'"
proof -
  from assms(2) obtain raw p where raw: "http_to_bin (env_stk env) (deliver http_size data old) = Inr raw"
      and p: "packet_of_serial raw = Inr p" "sane_request p" and a: "is_V4 a"
    by (auto split: sum.splits)
  have s: "serving env (nstable (root s))" using assms(1) by (simp add: serving_node_def)
  obtain out st' r where "process_packet env p a (root s) = Inr (out, st')" "serialise out = Inr r"
      "serving env (nstable st')"
    by (rule sane_exchange [OF packet_of_serial_wf [OF p(1)] s a p(2)])
  with raw p(1) assms(1) show ?thesis
    by (auto simp: serving_node_def dump_frames_eq session_data simp del: session_read.simps)
qed

lemma sane_event_served:
  assumes "serving_node env s" "sane_event env e"
  shows "\<exists>s' r. node_handle env e s = Inr (s', r) \<and> serving_node env s'"
proof (cases e)
  case (Udp ev)
  with assms show ?thesis
    using sane_datagram [OF assms(1)] by (cases ev) (fastforce simp del: node_handle.simps sane_event.simps(4))+
next
  case (Accept err)
  with assms show ?thesis by (simp add: serving_node_def)
next
  case (Session ev)
  with assms show ?thesis
    using sane_session [OF assms(1)] by (cases ev) (fastforce simp: serving_node_def simp del: sane_event.simps(5))+
qed

lemma sane_run: "serving_node env s \<Longrightarrow> list_all (sane_event env) es \<Longrightarrow>
    \<exists>s'. run env es s = Inr s' \<and> serving_node env s'"
proof (induction es arbitrary: s)
  case (Cons e es)
  then obtain s' r where "node_handle env e s = Inr (s', r)" "serving_node env s'"
    using sane_event_served [of env s e] by auto
  with Cons show ?case by (cases "enabled e s") auto
qed simp

section \<open>Properties\<close>

text \<open>C15: Whatever a packet asks, the packet the handler returns for it can be serialised, to as many
  bytes as its \<open>size()\<close> says, owns its content, and is of type \<open>gsn_response\<close>; only the answer to a
  resolution request may instead be that request itself, forwarded.\<close>

theorem answers_are_packets:
  assumes "packet_wf p" "process_packet env p a st = Inr (out, st')"
  shows "(\<exists>s. serialise out = Inr s \<and> length s = packet_size out) \<and> m_content out \<noteq> Dangling
    \<and> (hdr_type (m_header out) = msgtype_val Mt_gsn_response
       \<or> hdr_type (m_header p) = msgtype_val Mt_gsn_resolution \<and> hdr_type (m_header out) = hdr_type (m_header p))"
proof -
  from process_packet_answers [OF assms] obtain h d where "out = reply h d"
      "hdr_type h = msgtype_val Mt_gsn_response
       \<or> hdr_type (m_header p) = msgtype_val Mt_gsn_resolution \<and> hdr_type h = hdr_type (m_header p)"
    by (auto simp: answers_to_def)
  then show ?thesis using serialise_reply [of h d] by (auto simp: reply_def)
qed

theorem answers_are_packets_witness:
  "\<exists>out s. process_packet sample_env (typed_packet Mt_gsn_local_area) sample_addr sample_state = Inr (out, sample_state)
    \<and> packet_data out = ''acme|a1|10.0.0.1;'' \<and> serialise out = Inr s \<and> length s = packet_size out"
  using listings_example answers_are_packets [OF typed_packet_wf(1)] by blast

lemma sample_serving: "serving sample_env [sample_node]"
  using sample_asio sample_table_inv
  by (simp add: serving_def db_compiles_def v4_table_def sample_env_def table_db_def)

text \<open>C10: Exactly which requests other than queries are answered, and which ones end in a fault that ends the
  node: over a table of nodes with IPv4 addresses and a database whose statements compile, a registration
  is answered iff its frame is complete and its length byte is between 0 and 125 (or its type byte is
  refused before), a resolution iff its URL decodes and has two labels or a geosub part, a host name
  request iff it has four bytes; unregistrations, listings and messages of unknown types are always
  answered. The state of the table makes no difference. Queries (\<open>gsn_request\<close>) are left out here: what
  becomes of them depends on other nodes.\<close>

theorem request_answered_iff:
  assumes "packet_wf p" "serving env (nstable st)" "hdr_type (m_header p) \<noteq> msgtype_val Mt_gsn_request"
  shows "(\<exists>out st'. process_packet env p a st = Inr (out, st')) \<longleftrightarrow> sane_request p"
  using request_returns [OF assms] by (simp add: returns_def)

theorem request_answered_iff_witness:
  "\<not> (\<exists>out st'. process_packet sample_env
      (reply (dvsp_header_default\<lparr>hdr_type := CHR 0x03\<rparr>) ''spring://cci'') sample_addr sample_state = Inr (out, st'))
    \<and> (\<exists>out st'. process_packet sample_env
      (reply (dvsp_header_default\<lparr>hdr_type := CHR 0x03\<rparr>) ''spring://cci.esusx'') sample_addr sample_state = Inr (out, st'))"
proof -
  let ?p = "\<lambda>s. reply (dvsp_header_default\<lparr>hdr_type := CHR 0x03\<rparr>) s"
  have "\<not> sane_request (?p ''spring://cci'')" "sane_request (?p ''spring://cci.esusx'')" by code_simp+
  moreover have "packet_wf (?p ''spring://cci'')" "packet_wf (?p ''spring://cci.esusx'')"
    by (rule reply_wf, simp)+
  moreover have "serving sample_env (nstable sample_state)" using sample_serving by (simp add: sample_state_def)
  ultimately show ?thesis using request_answered_iff [of _ sample_env sample_state sample_addr] by simp
qed

text \<open>C21: A peer that goes away ends the node. A session whose request is answered when the peer stays
  ends the whole program when the peer's address cannot be asked for any more, or when the answer cannot
  be written: Boost throws, the session does not catch it, and \<open>main\<close> reports the error and returns,
  whatever events would follow.\<close>

theorem lost_peer_ends_node:
  assumes "serving_node env s" "0 < sessions (http s)" "sane_event env (Session (Http_data data old a))"
  shows "(\<exists>s'. run env (Session (Http_data data old a) # es) s = run env es s' \<and> serving_node env s')
    \<and> run env (Session (Http_gone data old) # es) s = Inl (Reported Boost_system_error)
    \<and> run env (Session (Http_unsent data old a) # es) s = Inl (Reported Boost_system_error)"
proof -
  obtain s' r where s': "node_handle env (Session (Http_data data old a)) s = Inr (s', Some r)" "serving_node env s'"
    using sane_session [OF assms(1,3)] by blast
  then obtain raw x where "session_input env data old = Inr raw" "session_answer env raw a (root s) = Inr x"
    by (auto simp: bindR_eq_Inr)
  with s' assms(2) show ?thesis by (auto simp del: sane_event.simps)
qed

theorem lost_peer_ends_node_witness:
  "run sample_env [Session (Http_unsent (''POST / HTTP/1.1'' @ CRLF2 @ hex_encode (header_bytes dvsp_header_default))
      (replicate 2048 NUL) sample_addr)] (sample_start\<lparr>http := \<lparr>accepting = True, sessions = 1\<rparr>\<rparr>)
    = Inl (Reported Boost_system_error)"
proof -
  let ?s = "sample_start\<lparr>http := \<lparr>accepting = True, sessions = 1\<rparr>\<rparr>"
  have "serving_node sample_env ?s"
    using sample_serving by (simp add: serving_node_def serving_def sample_start_simps table_inv_empty v4_table_def)
  moreover have "sane_event sample_env (Session (Http_data (''POST / HTTP/1.1'' @ CRLF2
      @ hex_encode (header_bytes dvsp_header_default)) (replicate 2048 NUL) sample_addr))"
  proof -
    have "http_to_bin (env_stk sample_env) (deliver http_size (''POST / HTTP/1.1'' @ CRLF2
        @ hex_encode (header_bytes dvsp_header_default)) (replicate 2048 NUL)) = Inr (header_bytes dvsp_header_default)"
      by (rule hex_request_read)
        (simp_all add: http_head_sample sample_env_def stops_hex_def hex_digit_def http_size_def sizeof_header_def)
    moreover have "packet_of_serial (header_bytes dvsp_header_default) = Inr packet_default" by code_simp
    moreover have "sane_request packet_default" by code_simp
    ultimately show ?thesis by simp
  qed
  ultimately show ?thesis using lost_peer_ends_node [of sample_env ?s] by simp
qed

text \<open>The node serves on: from a state with an IPv4 table in which the UDP service listens, any run
  of connections, sessions and datagrams that bring whole packets with answerable requests other than
  queries from IPv4 senders, in any order, keeps the node alive and listening; and in the state it
  leads to, the next such datagram is again answered, with the bytes of a packet that answers it.\<close>

lemma sane_traffic_served:
  assumes "serving env (nstable (root s))" "listening (udp s)" "length (m_recv (udp s)) = 1024"
    "list_all (sane_event env) es"
  shows "\<exists>s'. run env es s = Inr s' \<and> listening (udp s') \<and> serving env (nstable (root s'))
    \<and> (\<forall>data a. sane_event env (Udp (Udp_datagram data a)) \<longrightarrow> (\<exists>s'' r p out.
         node_handle env (Udp (Udp_datagram data a)) s' = Inr (s'', Some r)
         \<and> packet_of_serial data = Inr p \<and> answers_to p out \<and> serialise out = Inr r))"
proof -
  have "serving_node env s" using assms(1-3) by (simp add: serving_node_def recv_size_def)
  from sane_run [OF this assms(4)] obtain s' where s': "run env es s = Inr s'" "serving_node env s'" by blast
  with sane_datagram [OF s'(2)] show ?thesis by (fastforce simp: serving_node_def)
qed

lemma sane_traffic_served_example:
  "\<exists>s'. run sample_env [Accept False, Udp (Udp_datagram (header_bytes (dvsp_header_default\<lparr>hdr_type := CHR 0x04\<rparr>)) sample_addr),
      Session Http_error] sample_start = Inr s' \<and> listening (udp s')"
proof -
  have "serving sample_env (nstable (root sample_start))"
    using sample_serving by (simp add: serving_def sample_start_simps table_inv_empty v4_table_def)
  moreover have "sane_event sample_env (Udp (Udp_datagram (header_bytes (dvsp_header_default\<lparr>hdr_type := CHR 0x04\<rparr>)) sample_addr))"
    by code_simp
  ultimately show ?thesis
    using sane_traffic_served [of sample_env sample_start "[Accept False,
      Udp (Udp_datagram (header_bytes (dvsp_header_default\<lparr>hdr_type := CHR 0x04\<rparr>)) sample_addr), Session Http_error]"]
    by (auto simp: sample_start_simps recv_size_def simp del: run.simps sane_event.simps(4))
qed

end
