(* ===== verification/Network.thy ===== *)
theory Network
  imports Answers
begin

text \<open>
  A network of root nodes. Every address has a running node with its own state and environment, and
  somebody who wants a name resolved sends a datagram to one of them; an answer that is again a
  resolution request goes on, byte for byte, to the node it names. The walk over tables of
  \<open>Resolution\<close> is what these exchanges come to: each of them is one completed receive of the UDP
  service, with the reading and the writing of the bytes, and none changes a table.
\<close>

type_synonym network = "netspace_ipv4 \<Rightarrow> node_state"

abbreviation tables :: "network \<Rightarrow> netspace_ipv4 \<Rightarrow> netspace_table" where
  "tables nodes \<equiv> \<lambda>a. nstable (root (nodes a))"

text \<open>The number bounds the exchanges. \<open>None\<close>: there was no answer, or the number was too small.\<close>

fun ask_around :: "(netspace_ipv4 \<Rightarrow> root_env) \<Rightarrow> netspace_addr \<Rightarrow> nat \<Rightarrow> netspace_ipv4 \<Rightarrow> bytes \<Rightarrow> network
    \<Rightarrow> (bytes \<times> network) result option" where
  "ask_around envs c 0 pos d nodes = None"
| "ask_around envs c (Suc k) pos d nodes =
     (case node_handle (envs pos) (Udp (Udp_datagram d c)) (nodes pos) of
        Inl f \<Rightarrow> Some (Inl f)
      | Inr (s, None) \<Rightarrow> None
      | Inr (s, Some b) \<Rightarrow> (case packet_of_serial b of
            Inl f \<Rightarrow> Some (Inl f)
          | Inr q \<Rightarrow>
              if hdr_type (m_header q) = msgtype_val Mt_gsn_resolution
              then ask_around envs c k (addr_dest (m_header q)) b (nodes(pos := s))
              else Some (Inr (b, nodes(pos := s)))))"

definition serving_network :: "(netspace_ipv4 \<Rightarrow> root_env) \<Rightarrow> network \<Rightarrow> bool" where
  "serving_network envs nodes \<longleftrightarrow> (\<forall>a. serving_node (envs a) (nodes a))"

lemma serving_network_tables: "serving_network envs nodes \<Longrightarrow> v4_table (tables nodes a)"
  by (simp add: serving_network_def serving_node_def serving_def)

text \<open>Traffic in the network: one answerable request, connection or session at a time, at any node. The
  network keeps serving through any amount of it, in any order, and no such event ends a node.\<close>

inductive net_step :: "(netspace_ipv4 \<Rightarrow> root_env) \<Rightarrow> network \<Rightarrow> network \<Rightarrow> bool" for envs where
  net_event: "sane_event (envs a) e \<Longrightarrow> node_handle (envs a) e (nodes a) = Inr (s, r) \<Longrightarrow>
    net_step envs nodes (nodes(a := s))"

lemma net_step_serving: "net_step envs nodes nodes' \<Longrightarrow> serving_network envs nodes \<Longrightarrow> serving_network envs nodes'"
proof (induction rule: net_step.induct)
  case (net_event a e nodes s r)
  then have "serving_node (envs a) (nodes a)" by (simp add: serving_network_def)
  with sane_event_served [OF this net_event(1)] net_event show ?case by (auto simp: serving_network_def)
qed

lemma network_serves_on: "rtranclp (net_step envs) nodes nodes' \<Longrightarrow> serving_network envs nodes \<Longrightarrow> serving_network envs nodes'"
  by (induction rule: rtranclp_induct) (auto intro: net_step_serving)

lemma net_step_enabled:
  "serving_network envs nodes \<Longrightarrow> sane_event (envs a) e \<Longrightarrow> \<exists>nodes'. net_step envs nodes nodes'"
  using sane_event_served [of "envs a" "nodes a" e] by (fastforce simp: serving_network_def intro: net_event)

section \<open>One exchange\<close>

text \<open>What fits a datagram: 1024 bytes less the header.\<close>

definition fits :: "dvsp_packet \<Rightarrow> netspace_url \<Rightarrow> bool" where
  "fits p u \<longleftrightarrow> carries p u \<and> hdr_type (m_header p) = msgtype_val Mt_gsn_resolution
     \<and> 2 \<le> length (m_gsn u) \<and> sizeof_header + length (url_text u) \<le> recv_size"

lemma fits_size: "fits p u \<Longrightarrow> packet_size p \<le> recv_size"
  using length_packet_data [of p] by (auto simp: fits_def carries_def packet_size_def)

lemma fits_forward:
  assumes "fits p u" "2 < length (m_gsn u)"
  shows "fits (forward p (u\<lparr>m_gsn := butlast (m_gsn u)\<rparr>) a) (u\<lparr>m_gsn := butlast (m_gsn u)\<rparr>)"
proof -
  let ?v = "u\<lparr>m_gsn := butlast (m_gsn u)\<rparr>"
  have len: "sizeof_header + length (url_text ?v) \<le> recv_size"
    using assms(1) length_url_text_pop [of u] by (simp add: fits_def)
  have "url_wf ?v" using assms by (intro url_wf_pop) (simp_all add: fits_def carries_def)
  moreover have "length (url_text ?v) < 2 ^ 32" using len by (simp add: recv_size_def)
  ultimately show ?thesis using assms len by (simp add: fits_def forward_carries)
qed

lemma code_reply_short:
  "\<exists>h d. code_reply c = reply h d \<and> length d < 2 ^ 32 \<and> hdr_type h = msgtype_val Mt_gsn_response"
proof (intro exI conjI)
  show "code_reply c = reply (m_header (typed_packet Mt_gsn_response)) (response_code_bytes (rcode_val c))"
    by (rule code_reply_def)
qed (simp_all add: response_code_bytes_def typed_packet_def)

text \<open>The answer is either the last one or the request itself, with its top label removed.\<close>

lemma resolve_answer_cases:
  assumes "fits p u" "v4_table t"
  obtains (last) h d where "resolve_handler db p t = Inr (reply h d)" "length d < 2 ^ 32"
      "hdr_type h = msgtype_val Mt_gsn_response"
  | (onward) a where "2 < length (m_gsn u)"
      "resolve_handler db p t = Inr (forward p (u\<lparr>m_gsn := butlast (m_gsn u)\<rparr>) a)"
proof -
  let ?r = "butlast (m_gsn u)"
  have c: "carries p u" and g: "2 \<le> length (m_gsn u)" using assms(1) by (simp_all add: fits_def)
  then have r: "?r \<noteq> []" using butlast_route [of "m_gsn u"] by force
  note eq = resolve_handler_eq [OF c, of db t]
  show ?thesis
  proof (cases "by_key m_hostname t (last ?r)")
    case None
    with r eq have "resolve_handler db p t = Inr (code_reply Rc_netspace_error)" by simp
    then show ?thesis using code_reply_short last by metis
  next
    case (Some n)
    from v4_table_by_key [OF assms(2) this] obtain a where a: "m_addr n = V4 a" by blast
    show ?thesis
    proof (cases "length ?r = 1")
      case True
      with r Some a eq have
        "resolve_handler db p t = Inr (reply (m_header (reply_to p)) (address_bytes (address_frame n a)))"
        by (simp add: address_reply_V4)
      then show ?thesis
        by (rule last) (simp_all add: address_codec.enc_length frame_sizes)
    next
      case False
      with r g Some a eq show ?thesis by (intro onward) (simp_all add: le_neq_implies_less)
    qed
  qed
qed

text \<open>With two labels the database is not asked, so every node may have its own.\<close>

lemma resolution_any_db: "fits p u \<Longrightarrow> resolve_handler db p t = resolve_handler db' p t"
  using resolve_handler_eq [of p u db t] resolve_handler_eq [of p u db' t] butlast_route [of "m_gsn u"]
  by (force simp: fits_def)

lemma resolution_datagram:
  assumes "serving_node env s" "fits p u" "packet_of_serial d = Inr p"
    "resolve_handler db p (nstable (root s)) = Inr (reply h e)" "length e < 2 ^ 32"
  shows "\<exists>b s'. node_handle env (Udp (Udp_datagram d c)) s = Inr (s', Some b)
    \<and> packet_of_serial b = Inr (reply h e) \<and> serving_node env s' \<and> root s' = root s"
proof -
  obtain b where b: "serialise (reply h e) = Inr b" "packet_of_serial b = Inr (reply h e)"
    using reply_read_back [OF assms(5)] by blast
  have buf: "length (m_recv (udp s)) = recv_size" using assms(1) by (simp add: serving_node_def)
  have ty: "hdr_type (m_header p) = msgtype_val Mt_gsn_resolution" using assms(2) by (simp add: fits_def)
  have "resolve_handler (env_gsn env) p (nstable (root s)) = Inr (reply h e)"
    using resolution_any_db [OF assms(2), of "env_gsn env" "nstable (root s)" db] assms(4) by simp
  then have "process_packet env p c (root s) = Inr (reply h e, root s)"
    by (simp add: process_typed(3) [OF ty])
  from node_datagram [OF assms(3) fits_size [OF assms(2)] buf this b(1)] b(2) assms(1)
  show ?thesis by (auto simp: serving_node_def start_recv_def length_deliver)
qed

section \<open>Following the answers\<close>

lemma serving_network_step:
  assumes "serving_network envs nodes" "serving_node (envs pos) s" "root s = root (nodes pos)"
  shows "serving_network envs (nodes(pos := s))" "tables (nodes(pos := s)) = tables nodes"
  using assms by (auto simp: serving_network_def)

lemma ask_around_follow:
  assumes "serving_network envs nodes" "fits p u" "packet_of_serial d = Inr p" "length (m_gsn u) = k + 2"
  shows "\<exists>b out nodes'. ask_around envs c (Suc k) pos d nodes = Some (Inr (b, nodes'))
    \<and> packet_of_serial b = Inr out \<and> follow db (tables nodes) (Suc k) pos p = Some (Inr out)
    \<and> tables nodes' = tables nodes \<and> serving_network envs nodes'"
  using assms
proof (induction k arbitrary: p u d pos nodes)
  case (0 p u d pos nodes)
  from serving_network_tables [OF 0(1)] have v4: "v4_table (tables nodes pos)" .
  have serving: "serving_node (envs pos) (nodes pos)" using 0(1) by (simp add: serving_network_def)
  show ?case
  proof (cases rule: resolve_answer_cases [OF 0(2) v4, of db, case_names last onward])
    case (last h e)
    with resolution_datagram [OF serving 0(2,3), of db h e c] obtain b s where
      "node_handle (envs pos) (Udp (Udp_datagram d c)) (nodes pos) = Inr (s, Some b)"
      "packet_of_serial b = Inr (reply h e)" "serving_node (envs pos) s" "root s = root (nodes pos)"
      by auto
    with last serving_network_step [OF 0(1)] show ?thesis by (simp del: node_handle.simps)
  qed (use 0(4) in simp)
next
  case (Suc k p u d pos nodes)
  from serving_network_tables [OF Suc.prems(1)] have v4: "v4_table (tables nodes pos)" .
  have serving: "serving_node (envs pos) (nodes pos)" using Suc.prems(1) by (simp add: serving_network_def)
  show ?case
  proof (cases rule: resolve_answer_cases [OF Suc.prems(2) v4, of db, case_names last onward])
    case (last h e)
    with resolution_datagram [OF serving Suc.prems(2,3), of db h e c] obtain b s where
      "node_handle (envs pos) (Udp (Udp_datagram d c)) (nodes pos) = Inr (s, Some b)"
      "packet_of_serial b = Inr (reply h e)" "serving_node (envs pos) s" "root s = root (nodes pos)"
      by auto
    with last serving_network_step [OF Suc.prems(1)] show ?thesis by (simp del: node_handle.simps)
  next
    case (onward a)
    let ?v = "u\<lparr>m_gsn := butlast (m_gsn u)\<rparr>" let ?q = "forward p ?v a"
    have v: "fits ?q ?v" using fits_forward [OF Suc.prems(2) onward(1)] .
    then have short: "length (url_text ?v) < 2 ^ 32" by (simp add: fits_def recv_size_def)
    have q: "?q = reply ((m_header p)\<lparr>addr_dest := a\<rparr>) (url_text ?v)" by (simp add: forward_def)
    from resolution_datagram [OF serving Suc.prems(2,3) _ short, of db _ c] onward(2) q
    obtain b s where s: "node_handle (envs pos) (Udp (Udp_datagram d c)) (nodes pos) = Inr (s, Some b)"
      "packet_of_serial b = Inr ?q" "serving_node (envs pos) s" "root s = root (nodes pos)"
      by metis
    note nodes' = serving_network_step [OF Suc.prems(1) s(3,4)]
    have ty: "hdr_type (m_header ?q) = msgtype_val Mt_gsn_resolution" using v by (simp add: fits_def)
    have "ask_around envs c (Suc (Suc k)) pos d nodes = ask_around envs c (Suc k) a b (nodes(pos := s))"
      using s(1,2) ty by (simp add: ask_around.simps(2) [of _ _ "Suc k"] del: node_handle.simps ask_around.simps msgtype_val.simps)
    moreover have "follow db (tables nodes) (Suc (Suc k)) pos p = follow db (tables nodes) (Suc k) a ?q"
      using onward(2) ty by (simp add: follow.simps(2) [of _ _ "Suc k"] del: follow.simps msgtype_val.simps)
    moreover have "length (m_gsn ?v) = k + 2" using Suc.prems(4) by simp
    ultimately show ?thesis using Suc.IH [OF nodes'(1) v s(2), of a] nodes'(2)
      by (simp del: ask_around.simps follow.simps fun_upd_apply)
  qed
qed

text \<open>The exchanges find what the walk over the tables finds.\<close>

lemma ask_around_walk:
  assumes "serving_network envs nodes" "packet_of_serial d = Inr p" "carries p u"
    "hdr_type (m_header p) = msgtype_val Mt_gsn_resolution" "2 \<le> length (m_gsn u)" "length (url_text u) \<le> 1010"
  shows "\<exists>b out nodes'. ask_around envs c (length (m_gsn u) - 1) pos d nodes = Some (Inr (b, nodes'))
    \<and> packet_of_serial b = Inr out \<and> final_answer (walk (tables nodes) pos (rev (butlast (m_gsn u)))) out
    \<and> tables nodes' = tables nodes \<and> serving_network envs nodes'"
proof -
  obtain k where k: "length (m_gsn u) = k + 2" using assms(5) by (metis add.commute le_Suc_ex)
  have "fits p u" using assms(3-6) by (simp add: fits_def recv_size_def sizeof_header_def)
  moreover have "\<exists>q. follow db (tables nodes) (Suc k) pos p = Some (Inr q)
      \<and> final_answer (walk (tables nodes) pos (rev (butlast (m_gsn u)))) q" for db
    using assms(6) by (intro follow_walk [OF assms(3,4) k]) (simp_all add: serving_network_tables [OF assms(1)])
  moreover have n: "length (m_gsn u) - 1 = Suc k" using k by simp
  ultimately show ?thesis
    using ask_around_follow [OF assms(1) _ assms(2) k, of c pos] unfolding n
    by (metis Inr_inject option.inject)
qed

section \<open>Registration by datagram\<close>

text \<open>A datagram from \<open>a\<close> that registers \<open>n\<close> under names that are free in the table.\<close>

definition registers :: "bytes \<Rightarrow> netspace_addr \<Rightarrow> netspace_node \<Rightarrow> netspace_table \<Rightarrow> bool" where
  "registers d a n t \<longleftrightarrow> (case packet_of_serial d of
     Inl _ \<Rightarrow> False
   | Inr p \<Rightarrow> packet_size p \<le> recv_size \<and> hdr_type (m_header p) = msgtype_val Mt_gsn_register_host
       \<and> readable_request p \<and> schar (fr_type (request_frame p)) < 5
       \<and> n = requested_node p a \<and> \<not> name_taken n t)"

lemma registers_datagram:
  assumes "serving_node env s" "registers d a n (nstable (root s))" "is_V4 a"
  shows "\<exists>s' b. node_handle env (Udp (Udp_datagram d a)) s = Inr (s', Some b)
    \<and> serialise (code_reply Rc_ok) = Inr b \<and> nstable (root s') = nstable (root s) @ [n]
    \<and> serving_node env s'"
proof -
  from assms(2) obtain p where p: "packet_of_serial d = Inr p" "packet_size p \<le> recv_size"
      "hdr_type (m_header p) = msgtype_val Mt_gsn_register_host" "readable_request p"
      "schar (fr_type (request_frame p)) < 5" "n = requested_node p a" "\<not> name_taken n (nstable (root s))"
    by (auto simp: registers_def split: sum.splits)
  have s: "serving env (nstable (root s))" "asio_ok (env_asio env)" "length (m_recv (udp s)) = recv_size"
    using assms(1) by (simp_all add: serving_node_def serving_def)
  obtain b where b: "serialise (code_reply Rc_ok) = Inr b" using code_reply_read_back by blast
  have "register_host (env_asio env) p a (nstable (root s)) = Inr (code_reply Rc_ok, nstable (root s) @ [n])"
    using register_host_eq [OF p(4) s(2), of a] p(5-7) by (simp add: requested_node_def name_taken_def Let_def)
  then have x: "process_packet env p a (root s) =
      Inr (code_reply Rc_ok, (root s)\<lparr>nstable := nstable (root s) @ [n]\<rparr>)"
    by (simp add: process_typed(1) [OF p(3)])
  from node_datagram [OF p(1,2) s(3) x b] b s(3)
    request_serving [OF packet_of_serial_wf [OF p(1)] s(1) assms(3) x]
  show ?thesis by (simp add: serving_node_def start_recv_def length_deliver)
qed

lemma by_hostname_registered: "\<not> name_taken n t \<Longrightarrow> by_key m_hostname (t @ [n]) (m_hostname n) = Some n"
  by (subst by_key_fresh) (auto simp: name_taken_def)

lemma registers_free: "registers d a n t \<Longrightarrow> \<not> name_taken n t" "registers d (V4 ip) n t \<Longrightarrow> m_addr n = V4 ip"
  by (auto simp: registers_def requested_node_def split: sum.splits)

section \<open>Properties\<close>

text \<open>C6: Resolution across a network of running root nodes: whatever answerable requests have reached its
  nodes before, a requester sends the bytes of a resolution request for a well-formed URL to one of them
  and each answer that is again a resolution request, as it stands, to the node its header names. This
  ends after at most one exchange for each label below the top one; the last answer holds the address and
  protocol of the node found by looking each label up at the node of the label before it, or
  \<open>netspace_error\<close> when one of them is unknown on the way; no table has changed and all nodes serve on.\<close>

theorem resolution_over_network:
  assumes "serving_network envs start" "rtranclp (net_step envs) start nodes" "packet_of_serial d = Inr p" "carries p u"
    "hdr_type (m_header p) = msgtype_val Mt_gsn_resolution" "2 \<le> length (m_gsn u)" "length (url_text u) \<le> 1010"
  shows "\<exists>b out nodes'. ask_around envs c (length (m_gsn u) - 1) pos d nodes = Some (Inr (b, nodes'))
    \<and> packet_of_serial b = Inr out \<and> final_answer (walk (tables nodes) pos (rev (butlast (m_gsn u)))) out
    \<and> tables nodes' = tables nodes \<and> serving_network envs nodes'"
  by (rule ask_around_walk [OF network_serves_on [OF assms(2,1)] assms(3-)])

definition sample_network :: network where
  "sample_network a = sample_start\<lparr>root := \<lparr>nstable = sample_net a, outbox = []\<rparr>\<rparr>"

lemma sample_network_serving: "serving_network (\<lambda>_. sample_env) sample_network"
  using sample_serving by (auto simp: serving_network_def serving_node_def serving_def sample_network_def
      sample_start_simps v4_table_def table_inv_def schar_def sample_net_def esusx_node_def)

theorem resolution_over_network_witness:
  "\<exists>d b out nodes'. serialise (sample_resolution sample_url) = Inr d
    \<and> ask_around (\<lambda>_. sample_env) sample_addr 2 ipv4_zero d sample_network = Some (Inr (b, nodes'))
    \<and> packet_of_serial b = Inr out \<and> content_as bytes_address sizeof_address out 0 =
        Inr (address_frame (sample_node\<lparr>m_hostname := ''cci''\<rparr>) (Ipv4 CHR 0x0A CHR 0x00 CHR 0x00 CHR 0x01))"
proof -
  let ?q = "sample_resolution sample_url"
  have g: "m_gsn sample_url = [''cci'', ''esusx'', ''uk'']" and n: "length (url_text sample_url) \<le> 1010"
    by (simp_all add: sample_url_def url_text_def netspace_url_empty_def)
  obtain d where d: "serialise ?q = Inr d" "packet_of_serial d = Inr ?q"
    using reply_read_back [OF sample_url_short] unfolding sample_resolution_def by blast
  have "walk (tables sample_network) ipv4_zero [''esusx'', ''cci''] = Some (sample_node\<lparr>m_hostname := ''cci''\<rparr>)"
    by (simp add: sample_network_def sample_net_def esusx_node_def ipv4_zero_def)
  moreover have "hdr_type (m_header ?q) = msgtype_val Mt_gsn_resolution" by (simp add: sample_resolution_def)
  ultimately show ?thesis
    using resolution_over_network [OF sample_network_serving rtranclp.rtrancl_refl d(2) sample_carries _ _ n, of sample_addr ipv4_zero] g d(1)
    by (auto simp: final_answer_def numeral_2_eq_2 simp del: ask_around.simps walk.simps)
qed

text \<open>C7: A delegated name is found. A host registers a free name, over UDP, at a node of a network in
  which all nodes serve; another host then registers a free name at the address of the first one. Both
  are answered \<open>ok\<close>, and a resolution request for a URL with the second name, the first one and any
  top label, sent to the first node and on from there by whoever wants to know, brings back after two
  exchanges the address and protocol the second host registered with. The first host may be the node
  itself.\<close>

theorem delegated_name_resolves:
  assumes "serving_network envs nodes"
    "registers d1 (V4 ip1) n1 (tables nodes pos)"
    "registers d2 (V4 ip2) n2 (((tables nodes)(pos := tables nodes pos @ [n1])) ip1)"
    "packet_of_serial d = Inr p" "carries p u" "hdr_type (m_header p) = msgtype_val Mt_gsn_resolution"
    "m_gsn u = [m_hostname n2, m_hostname n1, l]" "length (url_text u) \<le> 1010"
  shows "\<exists>s1 s2 ok b out nodes'.
      node_handle (envs pos) (Udp (Udp_datagram d1 (V4 ip1))) (nodes pos) = Inr (s1, Some ok)
    \<and> node_handle (envs ip1) (Udp (Udp_datagram d2 (V4 ip2))) ((nodes(pos := s1)) ip1) = Inr (s2, Some ok)
    \<and> serialise (code_reply Rc_ok) = Inr ok
    \<and> ask_around envs c 2 pos d (nodes(pos := s1, ip1 := s2)) = Some (Inr (b, nodes'))
    \<and> packet_of_serial b = Inr out \<and> content_as bytes_address sizeof_address out 0 = Inr (address_frame n2 ip2)
    \<and> serving_network envs nodes'"
proof -
  let ?t = "tables nodes pos @ [n1]"
  have serving: "serving_node (envs a) (nodes a)" for a using assms(1) by (simp add: serving_network_def)
  obtain s1 ok where s1: "node_handle (envs pos) (Udp (Udp_datagram d1 (V4 ip1))) (nodes pos) = Inr (s1, Some ok)"
      "serialise (code_reply Rc_ok) = Inr ok" "nstable (root s1) = ?t" "serving_node (envs pos) s1"
    using registers_datagram [OF serving assms(2)] by auto
  let ?nodes1 = "nodes(pos := s1)"
  have t1: "tables ?nodes1 = (tables nodes)(pos := ?t)" using s1(3) by auto
  have r2: "registers d2 (V4 ip2) n2 (nstable (root (?nodes1 ip1)))"
    using assms(3) unfolding t1 [symmetric] .
  have serving1: "serving_node (envs a) (?nodes1 a)" for a using serving s1(4) by simp
  obtain s2 where s2: "node_handle (envs ip1) (Udp (Udp_datagram d2 (V4 ip2))) (?nodes1 ip1) = Inr (s2, Some ok)"
      "nstable (root s2) = tables ?nodes1 ip1 @ [n2]" "serving_node (envs ip1) s2"
    using registers_datagram [OF serving1 r2] s1(2) by (auto simp del: fun_upd_apply node_handle.simps)
  let ?nodes2 = "?nodes1(ip1 := s2)"
  have serving2: "serving_network envs ?nodes2" using serving1 s2(3) by (simp add: serving_network_def)
  have t2: "tables ?nodes2 pos = (if pos = ip1 then ?t @ [n2] else ?t)"
    "tables ?nodes2 ip1 = ((tables nodes)(pos := ?t)) ip1 @ [n2]" using s1(3) s2(2) by simp_all
  have "by_key m_hostname ?t (m_hostname n1) = Some n1"
    by (rule by_hostname_registered [OF registers_free(1) [OF assms(2)]])
  then have "by_key m_hostname (tables ?nodes2 pos) (m_hostname n1) = Some n1"
    using registers_free(1) [OF assms(3)] unfolding t2(1) by (auto simp: name_taken_def by_key_append map_add_def split: option.splits)
  moreover have "by_key m_hostname (tables ?nodes2 ip1) (m_hostname n2) = Some n2"
    unfolding t2(2) by (rule by_hostname_registered [OF registers_free(1) [OF assms(3)]])
  ultimately have "walk (tables ?nodes2) pos (rev (butlast (m_gsn u))) = Some n2"
    using registers_free(2) [OF assms(2)] by (simp add: assms(7))
  with ask_around_walk [OF serving2 assms(4-6) _ assms(8), of c pos] s1(1,2) s2(1) registers_free(2) [OF assms(3)]
  show ?thesis by (auto simp: assms(7) final_answer_def numeral_2_eq_2 simp del: ask_around.simps node_handle.simps fun_upd_apply)
qed

theorem delegated_name_resolves_witness:
  "\<exists>d1 d s1 s2 ok b out nodes'.
      serialise (sample_request CHR 0x07 ''acme|a1'') = Inr d1
    \<and> serialise (sample_resolution (netspace_url_empty\<lparr>m_gsn := [''acme'', ''acme'', ''uk'']\<rparr>)) = Inr d
    \<and> node_handle sample_env (Udp (Udp_datagram d1 sample_addr)) sample_start = Inr (s1, Some ok)
    \<and> node_handle sample_env (Udp (Udp_datagram d1 (V4 (Ipv4 CHR 0x0A CHR 0x00 CHR 0x00 CHR 0x02)))) sample_start
        = Inr (s2, Some ok)
    \<and> ask_around (\<lambda>_. sample_env) sample_addr 2 ipv4_zero d
        ((\<lambda>_. sample_start)(ipv4_zero := s1, Ipv4 CHR 0x0A CHR 0x00 CHR 0x00 CHR 0x01 := s2)) = Some (Inr (b, nodes'))
    \<and> packet_of_serial b = Inr out \<and> content_as bytes_address sizeof_address out 0 = Inr \<lparr>fa_response = rcode_val Rc_ok,
        fa_protocol = protocol_val Proto_http, fa_addr = Ipv4 CHR 0x0A CHR 0x00 CHR 0x00 CHR 0x02\<rparr>"
proof -
  let ?p = "sample_request CHR 0x07 ''acme|a1''" and ?u = "netspace_url_empty\<lparr>m_gsn := [''acme'', ''acme'', ''uk'']\<rparr>"
  let ?q = "sample_resolution ?u" and ?b = "V4 (Ipv4 CHR 0x0A CHR 0x00 CHR 0x00 CHR 0x02)"
  let ?nodes = "(\<lambda>_. sample_start) :: network"
  have l: "length (packet_data ?p) = 128" by (simp add: sample_request_def register_bytes_def)
  obtain d1 where d1: "serialise ?p = Inr d1" "packet_of_serial d1 = Inr ?p"
    using reply_read_back [of "packet_data ?p"] l unfolding sample_request_def by fastforce
  have u: "url_wf ?u" "length (url_text ?u) = 21"
    by (simp_all add: netspace_url_empty_def url_wf_def url_text_def)
  then have c: "carries ?q ?u" by (intro sample_resolution_carries) simp_all
  obtain d where d: "serialise ?q = Inr d" "packet_of_serial d = Inr ?q"
    using reply_read_back [of "url_text ?u"] u(2) unfolding sample_resolution_def by fastforce
  have serving: "serving_network (\<lambda>_. sample_env) ?nodes"
    using sample_serving
    by (simp add: serving_network_def serving_node_def serving_def sample_start_simps table_inv_empty v4_table_def)
  have n: "requested_node ?p a = \<lparr>m_type = netnode_val Nt_org, m_addr = a, m_hostname = ''acme'',
      m_proto = protocol_val Proto_http, m_suid = ''a1''\<rparr>" for a
    using arg_cong [OF sample_requested(1), of "m_addr_update (\<lambda>_. a)"] by (simp add: requested_node_def)
  have size: "packet_size ?p \<le> recv_size"
    using l by (simp add: packet_size_def recv_size_def sample_request_def sizeof_header_def reply_def register_bytes_def)
  have ty: "hdr_type (m_header ?p) = msgtype_val Mt_gsn_register_host" "schar (fr_type (request_frame ?p)) < 5"
    using arg_cong [OF n, of m_type] by (simp_all add: sample_request_def requested_node_def schar_def)
  have reg: "registers d1 a (requested_node ?p a) []" for a
    using d1(2) size ty sample_requested(2) by (simp add: registers_def name_taken_def)
  have t: "tables ?nodes x = []" for x by (simp add: sample_start_simps)
  have apart: "Ipv4 CHR 0x0A CHR 0x00 CHR 0x00 CHR 0x01 \<noteq> ipv4_zero" by (simp add: ipv4_zero_def)
  have "m_gsn ?u = [m_hostname (requested_node ?p ?b), m_hostname (requested_node ?p sample_addr), ''uk'']"
    by (simp add: n netspace_url_empty_def)
  note found = delegated_name_resolves [OF serving _ _ d(2) c _ this, where ?d1.0 = d1 and ?d2.0 = d1
      and ?ip1.0 = "Ipv4 CHR 0x0A CHR 0x00 CHR 0x00 CHR 0x01" and ?ip2.0 = "Ipv4 CHR 0x0A CHR 0x00 CHR 0x00 CHR 0x02"
      and pos = ipv4_zero and c = sample_addr]
  from found reg t apart u(2) d1(1) d(1)
  show ?thesis
    by (simp add: address_frame_def n sample_resolution_def del: ask_around.simps node_handle.simps) blast
qed

end
