(* ===== verification/Forge.thy ===== *)
theory Forge
  imports Services
begin

text \<open>
  The command-line client \<open>clients/forge\<close>: it forges a packet of a chosen type, sends it over UDP
  and prints what the answer says. The model returns the printed text. The exchange over UDP is a
  parameter: the datagram that answers the bytes sent to an address, or a failure; it is cut to the
  client's array of 512 bytes, which holds \<open>forge_recv\<close> before, as an uninitialised array does. The
  parsed command line is a map from option names, and the help text is given.
\<close>

record forge_env =
  forge_asio :: asio
  forge_local :: netspace_ipv4
  forge_udp :: "netspace_ipv4 \<Rightarrow> bytes \<Rightarrow> bytes option"
  forge_recv :: bytes
  forge_junk :: bytes

definition forge_recv_size :: nat where "forge_recv_size = 512"

definition endl :: string where "endl = [CHR 0x0A]"

definition rcode_to_string :: "32 word \<Rightarrow> string" where
  "rcode_to_string code = (case enum_of rcode_val code of
     Some Rc_ok \<Rightarrow> ''ok''
   | Some Rc_malformed_content \<Rightarrow> ''malformed_content''
   | Some Rc_netspace_error \<Rightarrow> ''netspace_error''
   | Some Rc_network_error \<Rightarrow> ''network_error''
   | _ \<Rightarrow> ''undefined'')"

definition view_frame_response :: "dvsp_packet \<Rightarrow> string result" where
  "view_frame_response p =
     bindR (content_as bytes_response_code sizeof_response_code p 0) (\<lambda>code.
       Inr (''Response: '' @ rcode_to_string code @ endl @ endl))"

fun view_addresses :: "dvsp_packet \<Rightarrow> nat list \<Rightarrow> string result" where
  "view_addresses p [] = Inr []"
| "view_addresses p (i # is) =
     bindR (content_as bytes_ipv4 4 p (sizeof_network + 1 + 4 * i)) (\<lambda>node.
     bindR (view_addresses p is) (\<lambda>rest. Inr (ipv4_to_string node @ endl @ rest)))"

definition view_frame_network :: "dvsp_packet \<Rightarrow> string result" where
  "view_frame_network p =
     bindR (content_as bytes_network sizeof_network p 0) (\<lambda>frame.
       let head = ''Response: '' @ rcode_to_string (fn_response frame) @ endl in
       if fn_response frame \<noteq> rcode_val Rc_ok then Inr (head @ endl)
       else bindR (view_addresses p [0..<nat (schar (fn_total frame))]) (\<lambda>s. Inr (head @ s @ endl)))"

definition view_frame_hostname :: "dvsp_packet \<Rightarrow> string result" where
  "view_frame_hostname p =
     bindR (content_as bytes_hostname sizeof_hostname p 0) (\<lambda>frame.
       let head = ''Response: '' @ rcode_to_string (fh_response frame) @ endl; n = schar (fh_len frame) in
       if fh_response frame \<noteq> rcode_val Rc_ok then Inr (head @ endl)
       else if n < 0 then Inl (Throw Std_length_error)
       else if int (length (fh_hostname frame)) < n then Inl (Undefined Oob_read)
       else Inr (head @ take (nat n) (fh_hostname frame) @ '':''
              @ (if fh_protocol frame = protocol_val Proto_http then ''http'' else ''dvsp'') @ endl @ endl))"

definition dispatch_packet :: "forge_env \<Rightarrow> dvsp_packet \<Rightarrow> (string \<times> dvsp_packet) result" where
  "dispatch_packet env packet =
     (let p = packet\<lparr>m_header := (m_header packet)\<lparr>addr_orig := forge_local env\<rparr>\<rparr> in
      bindR (serialise p) (\<lambda>serial.
        case forge_udp env (addr_dest (m_header packet)) serial of
          None \<Rightarrow> Inl (Throw Boost_system_error)
        | Some data \<Rightarrow> bindR (packet_of_serial (deliver forge_recv_size data (forge_recv env)))
            (\<lambda>out. Inr (''OK'' @ endl, out))))"

text \<open>A packet of a type, addressed to the target.\<close>

definition forge_packet :: "netspace_addr \<Rightarrow> dvsp_msgtype \<Rightarrow> dvsp_packet result" where
  "forge_packet target mt = bindR (to_v4 target) (\<lambda>dest.
     Inr (packet_default\<lparr>m_header := (m_header packet_default)
       \<lparr>addr_dest := dest, hdr_size := 0, hdr_type := msgtype_val mt\<rparr>\<rparr>))"

definition forge_send :: "forge_env \<Rightarrow> dvsp_packet \<Rightarrow> (dvsp_packet \<Rightarrow> string result) \<Rightarrow> string result" where
  "forge_send env p view = bindR (dispatch_packet env p) (\<lambda>(s, out). bindR (view out) (\<lambda>v. Inr (s @ v)))"

definition forge_gsn_register_host :: "forge_env \<Rightarrow> netspace_addr \<Rightarrow> string \<Rightarrow> char \<Rightarrow> string result" where
  "forge_gsn_register_host env target hostname proto =
     bindR (forge_packet target Mt_gsn_register_host) (\<lambda>p.
     bindR (construct_frame_register (forge_junk env) (netnode_val Nt_org) hostname proto) (\<lambda>frame.
     bindR (copy_content (register_bytes frame) p) (\<lambda>p'.
       forge_send env p' view_frame_response)))"

definition forge_gsn_unregister_host :: "forge_env \<Rightarrow> netspace_addr \<Rightarrow> string result" where
  "forge_gsn_unregister_host env target =
     bindR (forge_packet target Mt_gsn_unregister_host) (\<lambda>p. forge_send env p view_frame_response)"

definition forge_gsn_local_area :: "forge_env \<Rightarrow> netspace_addr \<Rightarrow> string result" where
  "forge_gsn_local_area env target =
     bindR (forge_packet target Mt_gsn_local_area) (\<lambda>p. forge_send env p view_frame_response)"

definition forge_gsn_request :: "forge_env \<Rightarrow> netspace_addr \<Rightarrow> string \<Rightarrow> string result" where
  "forge_gsn_request env target content =
     bindR (forge_packet target Mt_gsn_request) (\<lambda>p.
     bindR (str_content content p) (\<lambda>p'. forge_send env p' view_frame_network))"

definition forge_gsn_hostname :: "forge_env \<Rightarrow> netspace_addr \<Rightarrow> string \<Rightarrow> string result" where
  "forge_gsn_hostname env target content =
     bindR (forge_packet target Mt_gsn_hostname) (\<lambda>p.
     bindR (parse_addr (forge_asio env) content) (\<lambda>a.
     bindR (to_v4 a) (\<lambda>addr.
     bindR (copy_content (ipv4_bytes addr) p) (\<lambda>p'. forge_send env p' view_frame_hostname))))"

definition run_forge ::
  "forge_env \<Rightarrow> dvsp_msgtype \<Rightarrow> netspace_addr \<Rightarrow> string \<Rightarrow> char \<Rightarrow> string result" where
  "run_forge env type target content proto =
     (let say = (\<lambda>s m. bindR m (\<lambda>v. Inr (s @ v))) in
      case type of
        Mt_gsn_register_host \<Rightarrow>
          say ''Forging `gsn_register_host`... '' (forge_gsn_register_host env target content proto)
      | Mt_gsn_unregister_host \<Rightarrow>
          say ''Forging `gsn_unregister_host`... '' (forge_gsn_unregister_host env target)
      | Mt_gsn_local_area \<Rightarrow>
          say ''Forging `gsn_local_area`... '' (forge_gsn_local_area env target)
      | Mt_gsn_hostname \<Rightarrow>
          say ''Forging `gsn_local_area`... '' (forge_gsn_hostname env target content)
      | Mt_gsn_request \<Rightarrow>
          say ''Forging `gsn_request`... '' (forge_gsn_request env target content)
      | _ \<Rightarrow> Inr (''Unimplemented frame'' @ endl))"

definition parse_msgtype :: "string \<Rightarrow> dvsp_msgtype" where
  "parse_msgtype str =
     (if str = ''gsn_register_host'' then Mt_gsn_register_host
      else if str = ''gsn_unregister_host'' then Mt_gsn_unregister_host
      else if str = ''gsn_resolution'' then Mt_gsn_resolution
      else if str = ''gsn_local_area'' then Mt_gsn_local_area
      else if str = ''gtn_root_nodes'' then Mt_gtn_root_nodes
      else if str = ''gsn_hostname'' then Mt_gsn_hostname
      else if str = ''gsn_request'' then Mt_gsn_request
      else Mt_undefined)"

text \<open>The exit code and the output.\<close>

definition forge_main :: "forge_env \<Rightarrow> string \<Rightarrow> (string \<Rightarrow> string option) \<Rightarrow> (nat \<times> string) result" where
  "forge_main env help vars =
     bindR (parse_addr (forge_asio env) ''127.0.0.1'') (\<lambda>localhost.
     if vars ''help'' \<noteq> None then Inr (1, help @ endl)
     else
       let ptype = (case vars ''type'' of None \<Rightarrow> Mt_gsn_register_host | Some s \<Rightarrow> parse_msgtype s) in
       if vars ''type'' \<noteq> None \<and> ptype = Mt_undefined
       then Inr (1, ''Undefined or unimplemented packet type'' @ endl @ endl)
       else
         bindR (case vars ''target'' of None \<Rightarrow> Inr localhost
                | Some s \<Rightarrow> parse_addr (forge_asio env) s) (\<lambda>target.
         let content = (case vars ''content'' of None \<Rightarrow> [] | Some s \<Rightarrow> s);
             proto = (case vars ''protocol'' of None \<Rightarrow> protocol_val Proto_dvsp
                      | Some s \<Rightarrow> if s = ''http'' then protocol_val Proto_http else protocol_val Proto_dvsp) in
         bindR (run_forge env ptype target content proto) (\<lambda>out. Inr (0, out))))"

section \<open>Sending and viewing\<close>

lemma code_reply_wf [simp]: "packet_wf (code_reply c)"
  unfolding code_reply_def by (rule reply_wf) (simp add: response_code_bytes_def)

lemma code_reply_data: "packet_data (code_reply c) = response_code_bytes (rcode_val c)"
  by (simp add: code_reply_def)

text \<open>An answer that fits the client's array is read as it was sent; a longer one is read past the
  array's end.\<close>

lemma client_receives:
  assumes "packet_wf p" "length (packet_data p) \<le> 498"
  shows "\<exists>b. serialise p = Inr b
    \<and> packet_of_serial (deliver forge_recv_size b old) = Inr (reply (m_header p) (packet_data p))"
proof -
  have n: "unat (hdr_size (m_header p)) = length (packet_data p)" using length_packet_data [OF assms(1)] by simp
  have "deliver forge_recv_size (header_bytes (m_header p) @ packet_data p) old = header_bytes (m_header p)
      @ packet_data p @ drop (length (header_bytes (m_header p) @ packet_data p)) old"
    using assms(2) by (simp add: deliver_def forge_recv_size_def sizeof_header_def)
  moreover have "(m_header p)\<lparr>hdr_size := of_nat (length (packet_data p))\<rparr> = m_header p"
    using n [symmetric] by simp
  ultimately show ?thesis using serialise_wf [OF assms(1)] packet_of_serial_app [OF n] by (simp add: reply_def)
qed

lemma client_overreads:
  assumes "packet_wf p" "498 < length (packet_data p)" "length old = forge_recv_size"
  shows "\<exists>b. serialise p = Inr b
    \<and> packet_of_serial (deliver forge_recv_size b old) = Inl (Undefined Oob_read)"
proof -
  let ?b = "header_bytes (m_header p) @ packet_data p"
  have "length (deliver forge_recv_size ?b old) = forge_recv_size" "take sizeof_header (deliver forge_recv_size ?b old) =
      header_bytes (m_header p)"
    using assms(2,3) by (simp_all add: deliver_def forge_recv_size_def sizeof_header_def)
  then show ?thesis using serialise_wf [OF assms(1)] length_packet_data [OF assms(1)] assms(2)
    by (simp add: packet_of_serial_eq Let_def forge_recv_size_def sizeof_header_def)
qed

lemma view_code_reply: "view_frame_response (reply h (response_code_bytes (rcode_val c))) =
    Inr (''Response: '' @ rcode_to_string (rcode_val c) @ endl @ endl)"
  by (simp add: view_frame_response_def content_as_def read_ptr_def reply_def frame_sizes
      response_code_bytes_def bytes_response_code_def
      length_greater_0_conv [symmetric] del: length_greater_0_conv)

section \<open>The command line\<close>

text \<open>What \<open>main\<close> answers by itself: the help text and an unknown type end with status 1, and the two types
  that \<open>parse_msgtype\<close> knows but \<open>run_forge\<close> does not end with success.\<close>

lemma forge_main_help:
  "parse_addr (forge_asio env) ''127.0.0.1'' = Inr a \<Longrightarrow> vars ''help'' = Some s \<Longrightarrow>
   forge_main env help vars = Inr (1, help @ endl)"
  by (simp add: forge_main_def)

lemma forge_main_unknown_type:
  "parse_addr (forge_asio env) ''127.0.0.1'' = Inr a \<Longrightarrow> vars ''help'' = None \<Longrightarrow> vars ''type'' = Some s \<Longrightarrow>
   parse_msgtype s = Mt_undefined \<Longrightarrow>
   forge_main env help vars = Inr (1, ''Undefined or unimplemented packet type'' @ endl @ endl)"
  by (simp add: forge_main_def)

lemma forge_main_unimplemented:
  assumes "parse_addr (forge_asio env) ''127.0.0.1'' = Inr a" "vars ''help'' = None" "vars ''target'' = None"
    "vars ''type'' = Some s" "s = ''gsn_resolution'' \<or> s = ''gtn_root_nodes''"
  shows "forge_main env help vars = Inr (0, ''Unimplemented frame'' @ endl)"
proof -
  have "parse_msgtype s = Mt_gsn_resolution \<or> parse_msgtype s = Mt_gtn_root_nodes"
    using assms(5) by (auto simp: parse_msgtype_def)
  then have "parse_msgtype s \<noteq> Mt_undefined" "run_forge env (parse_msgtype s) a c p = Inr (''Unimplemented frame'' @ endl)" for c p
    by (auto simp: run_forge_def Let_def)
  with assms(1-4) show ?thesis by (simp add: forge_main_def Let_def)
qed

section \<open>Registering over the network\<close>

text \<open>The packet a registration sends.\<close>

definition register_request :: "forge_env \<Rightarrow> netspace_ipv4 \<Rightarrow> frame_register \<Rightarrow> dvsp_packet" where
  "register_request env dest frame = \<lparr>m_header = \<lparr>hdr_type = msgtype_val Mt_gsn_register_host,
     hdr_part = CHR 0x00, hdr_size = 128, addr_orig = forge_local env, addr_dest = dest\<rparr>,
     m_content = Live (register_bytes frame)\<rparr>"

lemma register_request_simps [simp]:
  "m_header (register_request env dest f) = \<lparr>hdr_type = msgtype_val Mt_gsn_register_host,
     hdr_part = CHR 0x00, hdr_size = 128, addr_orig = forge_local env, addr_dest = dest\<rparr>"
  "packet_data (register_request env dest f) = register_bytes f"
  by (simp_all add: register_request_def packet_data_def)

lemma register_request_wf: "length (fr_hostname f) = 125 \<Longrightarrow> packet_wf (register_request env dest f)"
  using register_codec.enc_length [of f] by (simp add: register_request_def packet_wf_def frame_sizes)

lemma forge_register_eq:
  assumes f: "construct_frame_register (forge_junk env) (netnode_val Nt_org) h proto = Inr f"
    "length (fr_hostname f) = 125"
  shows "forge_gsn_register_host env (V4 dest) h proto =
    bindR (serialise (register_request env dest f)) (\<lambda>serial.
      case forge_udp env dest serial of
        None \<Rightarrow> Inl (Throw Boost_system_error)
      | Some data \<Rightarrow> bindR (packet_of_serial (deliver forge_recv_size data (forge_recv env))) (\<lambda>out.
          bindR (view_frame_response out) (\<lambda>v. Inr (''OK'' @ endl @ v))))"
proof -
  let ?hd = "\<lparr>hdr_type = CHR 0x01, hdr_part = CHR 0x00, hdr_size = 0, addr_orig = ipv4_zero, addr_dest = dest\<rparr>"
  have l: "length (register_bytes f) = 128"
    using register_codec.enc_length [OF f(2)] by (simp add: frame_sizes)
  have fp: "forge_packet (V4 dest) Mt_gsn_register_host = Inr (packet_default\<lparr>m_header := ?hd\<rparr>)"
    by (simp add: forge_packet_def packet_default_def dvsp_header_default_def)
  have f1: "construct_frame_register (forge_junk env) (CHR 0x02) h proto = Inr f" using f(1) by simp
  have "copy_content (register_bytes f) (packet_default\<lparr>m_header := ?hd\<rparr>) = Inr (reply ?hd (register_bytes f))"
    using copy_content_null [of "packet_default\<lparr>m_header := ?hd\<rparr>"] by simp
  moreover have "(reply ?hd (register_bytes f))\<lparr>m_header :=
      (m_header (reply ?hd (register_bytes f)))\<lparr>addr_orig := forge_local env\<rparr>\<rparr> = register_request env dest f"
    using l by (auto simp: reply_def register_request_def)
  ultimately show ?thesis
    by (cases "serialise (register_request env dest f)")
      (simp_all add: forge_gsn_register_host_def fp f1 forge_send_def dispatch_packet_def Let_def bindR_assoc
        split: option.split del: copy_content_filled)
qed

section \<open>A registration, end to end\<close>

text \<open>The client's exchange when the target is a node that listens: the node receives the datagram
  and its answer is the datagram the client receives.\<close>

definition node_exchange ::
  "root_env \<Rightarrow> node_state \<Rightarrow> netspace_addr \<Rightarrow> bytes \<Rightarrow> bytes option" where
  "node_exchange renv s client data =
     (case node_handle renv (Udp (Udp_datagram data client)) s of
        Inr (_, Some r) \<Rightarrow> Some r | _ \<Rightarrow> None)"

text \<open>What the node holds for a registered client.\<close>

definition client_node :: "netspace_addr \<Rightarrow> string \<Rightarrow> char \<Rightarrow> netspace_node" where
  "client_node client h proto = \<lparr>m_type = netnode_val Nt_org, m_addr = client,
     m_hostname = fst (name_parts h), m_proto = proto, m_suid = snd (name_parts h)\<rparr>"

definition register_answer :: "netspace_node \<Rightarrow> netspace_table \<Rightarrow> dvsp_rcode" where
  "register_answer n t = (if name_taken n t then Rc_netspace_duplicate else Rc_ok)"

lemma request_frame_register:
  "length (fr_hostname f) = 125 \<Longrightarrow> request_frame (register_request env dest f) = f"
  using register_codec.enc_length [of f] register_codec.dec_enc [of f] by (simp add: request_frame_def)

lemma register_request_reads:
  assumes "length h \<le> 125" "length (forge_junk env) = 125"
    "construct_frame_register (forge_junk env) (netnode_val Nt_org) h proto = Inr f"
  shows "length (fr_hostname f) = 125" "readable_request (register_request env dest f)"
    "requested_node (register_request env dest f) client = client_node client h proto"
proof -
  from construct_frame_register_ok [OF assms(1,2)] assms(3)
  have f: "fr_type f = netnode_val Nt_org" "fr_len f = char_of (length h)" "fr_protocol f = proto"
      "length (fr_hostname f) = 125" "take (length h) (fr_hostname f) = h"
    by (metis Inr_inject)+
  have l: "schar (fr_len f) = int (length h)" using assms(1) by (simp add: f(2) schar_char_of)
  show "length (fr_hostname f) = 125" by (rule f(4))
  show "readable_request (register_request env dest f)"
    using assms(1) l register_codec.enc_length [OF f(4)] f(4)
    by (simp add: readable_request_def register_request_wf request_frame_register)
  have "request_name (register_request env dest f) = h"
    by (simp add: request_name_def request_frame_register [OF f(4)] l f(5))
  then show "requested_node (register_request env dest f) client = client_node client h proto"
    by (simp add: requested_node_def client_node_def request_frame_register [OF f(4)] f(1,3))
qed

text \<open>The node on the datagram of a request.\<close>

lemma node_handle_register:
  assumes io: "asio_ok (env_asio renv)" and buf: "length (m_recv (udp s)) = recv_size"
    and p: "p = register_request env dest f" "length (fr_hostname f) = 125" "readable_request p"
    and ty: "schar (m_type (requested_node p client)) < 5"
  shows "\<exists>s' r. node_handle renv (Udp (Udp_datagram (header_bytes (m_header p) @ packet_data p) client)) s = Inr (s', Some r)
    \<and> serialise (code_reply (register_answer (requested_node p client) (nstable (root s)))) = Inr r
    \<and> nstable (root s') = (if name_taken (requested_node p client) (nstable (root s))
        then nstable (root s) else nstable (root s) @ [requested_node p client]) \<and> listening (udp s')"
proof -
  have l: "length (register_bytes f) = 128"
    using register_codec.enc_length [OF p(2)] by (simp add: frame_sizes)
  have "packet_of_serial (deliver recv_size (header_bytes (m_header p) @ packet_data p) (m_recv (udp s))) = Inr p"
    using receive_wf_datagram [of "m_header p" "packet_data p" "udp s"] l buf
    by (auto simp: p(1) recv_size_def sizeof_header_def) (simp add: register_request_def)
  moreover have "process_packet renv p client (root s) =
      Inr (code_reply (register_answer (requested_node p client) (nstable (root s))),
        (root s)\<lparr>nstable := (if name_taken (requested_node p client) (nstable (root s))
          then nstable (root s) else nstable (root s) @ [requested_node p client])\<rparr>)"
  proof -
    have "hdr_type (m_header p) = msgtype_val Mt_gsn_register_host" using p(1) by simp
    then have "enum_of msgtype_val (hdr_type (m_header p)) = Some Mt_gsn_register_host"
      by (simp only: msgtype_enum.enum_of_val)
    with register_host_eq [OF p(3) io, of client "nstable (root s)"] ty show ?thesis
      by (simp add: process_packet_def Let_def register_answer_def name_taken_def)
  qed
  ultimately show ?thesis
    by (simp add: Let_def serialise_wf start_recv_def)
qed

section \<open>Properties\<close>

text \<open>C12: Registering with the client, from end to end. When the client forges a registration of a
  name of at most 125 bytes for a node that listens, the node receives exactly the client's packet,
  appends to its table a node with the client's address and the name's two parts (or refuses a taken
  name), and the client prints the code the node answered with; the refusal, whose code the client
  does not know, is printed as \<open>undefined\<close>.\<close>

theorem forge_register_end_to_end:
  fixes proto :: char
  assumes "length h \<le> 125" "length (forge_junk env) = 125" "asio_ok (env_asio renv)"
    "listening (udp s)" "length (m_recv (udp s)) = recv_size"
    "forge_udp env dest = node_exchange renv s client"
  defines "n \<equiv> client_node client h proto" and "t \<equiv> nstable (root s)"
  shows "run_forge env Mt_gsn_register_host (V4 dest) h proto =
      Inr (''Forging `gsn_register_host`... '' @ ''OK'' @ endl @ ''Response: ''
        @ (if name_taken n t then ''undefined'' else ''ok'') @ endl @ endl)
    \<and> (\<exists>f data s' r. construct_frame_register (forge_junk env) (netnode_val Nt_org) h proto = Inr f
      \<and> serialise (register_request env dest f) = Inr data
      \<and> node_handle renv (Udp (Udp_datagram data client)) s = Inr (s', Some r)
      \<and> nstable (root s') = (if name_taken n t then t else t @ [n]) \<and> listening (udp s'))"
proof -
  obtain f where f: "construct_frame_register (forge_junk env) (netnode_val Nt_org) h proto = Inr f"
    using construct_frame_register_ok [OF assms(1,2)] by blast
  note rr = register_request_reads [OF assms(1,2) f]
  let ?p = "register_request env dest f"
  have n: "requested_node ?p client = n" unfolding n_def by (rule rr(3))
  have "schar (m_type (requested_node ?p client)) < 5" by (simp add: n n_def client_node_def schar_def)
  from node_handle_register [OF assms(3,5) refl rr(1,2) this] obtain s' r where
    s': "node_handle renv (Udp (Udp_datagram (header_bytes (m_header ?p) @ packet_data ?p) client)) s = Inr (s', Some r)"
      "serialise (code_reply (register_answer n t)) = Inr r"
      "nstable (root s') = (if name_taken n t then t else t @ [n])" "listening (udp s')"
    unfolding n t_def by blast
  have data: "serialise ?p = Inr (header_bytes (m_header ?p) @ packet_data ?p)"
    by (rule serialise_wf [OF register_request_wf [OF rr(1)]])
  have udp: "forge_udp env dest (header_bytes (m_header ?p) @ packet_data ?p) = Some r"
    using s'(1) by (simp add: assms(6) node_exchange_def del: node_handle.simps register_request_simps)
  let ?c = "code_reply (register_answer n t)"
  have "packet_of_serial (deliver forge_recv_size r (forge_recv env)) = Inr (reply (m_header ?c) (packet_data ?c))"
    using client_receives [of ?c "forge_recv env"] s'(2) by (simp add: code_reply_data response_code_bytes_def)
  then have q: "packet_of_serial (deliver forge_recv_size r (forge_recv env)) =
      Inr (reply (m_header ?c) (response_code_bytes (rcode_val (register_answer n t))))"
    by (simp only: code_reply_data)
  have code: "rcode_to_string (rcode_val (register_answer n t)) = (if name_taken n t then ''undefined'' else ''ok'')"
    by (simp add: rcode_to_string_def rcode_enum.enum_of_val register_answer_def del: rcode_val.simps)
  have "forge_gsn_register_host env (V4 dest) h proto =
      Inr (''OK'' @ endl @ ''Response: '' @ (if name_taken n t then ''undefined'' else ''ok'') @ endl @ endl)"
    unfolding forge_register_eq [OF f rr(1)] data using udp q code
    by (simp add: view_code_reply del: register_request_simps rcode_val.simps)
  then have "run_forge env Mt_gsn_register_host (V4 dest) h proto =
      Inr (''Forging `gsn_register_host`... '' @ ''OK'' @ endl @ ''Response: ''
        @ (if name_taken n t then ''undefined'' else ''ok'') @ endl @ endl)"
    by (simp add: run_forge_def Let_def)
  with f data s' show ?thesis by blast
qed

definition sample_forge :: forge_env where
  "sample_forge = \<lparr>forge_asio = ref_asio, forge_local = ipv4_zero,
     forge_udp = (\<lambda>_. node_exchange sample_env sample_start sample_addr),
     forge_recv = replicate 512 NUL, forge_junk = replicate 125 NUL\<rparr>"

theorem forge_register_end_to_end_witness:
  "run_forge sample_forge Mt_gsn_register_host (V4 ipv4_zero) ''acme|a1'' (protocol_val Proto_http) =
    Inr (''Forging `gsn_register_host`... OK'' @ endl @ ''Response: ok'' @ endl @ endl)"
  using forge_register_end_to_end [of "''acme|a1''" sample_forge sample_env sample_start ipv4_zero sample_addr
      "protocol_val Proto_http"] sample_start_simps sample_asio
  by (simp add: sample_forge_def name_taken_def)

end
