(* ===== verification/Forge_Queries.thy ===== *)
theory Forge_Queries
  imports Forge
begin

text \<open>
  The client's other questions, end to end: the host name of an address, the list of the
  organisations of a node's area, and a service query. As for registrations, the client's exchange
  is the node's own step, and what is proved is what the client prints.
\<close>

section \<open>A question to a node that listens\<close>

text \<open>The packet as it is sent: the sender's address is filled in.\<close>

definition sent :: "forge_env \<Rightarrow> dvsp_packet \<Rightarrow> dvsp_packet" where
  "sent env p = p\<lparr>m_header := (m_header p)\<lparr>addr_orig := forge_local env\<rparr>\<rparr>"

lemma sent_reply: "sent env (reply h d) = reply (h\<lparr>addr_orig := forge_local env\<rparr>) d"
  by (simp add: sent_def reply_def)

text \<open>The node on the datagram of a packet.\<close>

lemma node_answers:
  assumes node: "listening (udp s)" "length (m_recv (udp s)) = recv_size" and d: "length d \<le> 1010"
    and ans: "process_packet renv (reply h d) client (root s) = Inr (out, st')" "packet_wf out"
  shows "\<exists>data s' b. serialise (reply h d) = Inr data
    \<and> node_handle renv (Udp (Udp_datagram data client)) s = Inr (s', Some b) \<and> serialise out = Inr b
    \<and> root s' = st' \<and> listening (udp s')"
proof -
  have w: "packet_wf (reply h d)" using d by (intro reply_wf) simp
  define hd where "hd = m_header (reply h d)"
  have n: "unat (hdr_size hd) = length d" using length_packet_data [OF w] by (simp add: hd_def)
  have s1: "serialise (reply h d) = Inr (header_bytes hd @ d)" using serialise_wf [OF w] by (simp add: hd_def)
  have "packet_of_serial (deliver recv_size (header_bytes hd @ d) (m_recv (udp s))) =
      Inr \<lparr>m_header = hd, m_content = (if d = [] then Null_ptr else Live d)\<rparr>"
    using d by (intro receive_wf_datagram [OF n _ node(2)]) (simp add: recv_size_def sizeof_header_def)
  also have "\<lparr>m_header = hd, m_content = (if d = [] then Null_ptr else Live d)\<rparr> = reply h d"
    by (simp add: hd_def reply_def)
  finally show ?thesis using s1 ans(1) serialise_wf [OF ans(2)] by (simp add: Let_def start_recv_def)
qed

lemma dispatch_to_node:
  assumes udp: "forge_udp env dest = node_exchange renv s client"
    and node: "listening (udp s)" "length (m_recv (udp s)) = recv_size"
    and q: "sent env p = reply h d" "length d \<le> 1010" "addr_dest (m_header p) = dest"
    and ans: "process_packet renv (reply h d) client (root s) = Inr (out, st')" "packet_wf out"
    and arr: "length (forge_recv env) = forge_recv_size"
  shows "dispatch_packet env p = (if length (packet_data out) \<le> 498
    then Inr (''OK'' @ endl, reply (m_header out) (packet_data out)) else Inl (Undefined Oob_read))"
proof -
  obtain data s' b where x: "serialise (reply h d) = Inr data"
      "node_handle renv (Udp (Udp_datagram data client)) s = Inr (s', Some b)" "serialise out = Inr b"
    using node_answers [OF node q(2) ans] by blast
  then have "forge_udp env dest data = Some b" by (simp add: udp node_exchange_def del: node_handle.simps)
  then have "dispatch_packet env p = bindR (packet_of_serial (deliver forge_recv_size b (forge_recv env)))
      (\<lambda>o'. Inr (''OK'' @ endl, o'))"
    using x(1) q(1,3) by (simp add: dispatch_packet_def Let_def sent_def)
  then show ?thesis
    using x(3) client_receives [OF ans(2), of "forge_recv env"] client_overreads [OF ans(2) _ arr] by auto
qed

section \<open>Host names\<close>

definition hostname_request :: "forge_env \<Rightarrow> netspace_ipv4 \<Rightarrow> netspace_ipv4 \<Rightarrow> dvsp_packet" where
  "hostname_request env dest a = reply \<lparr>hdr_type = msgtype_val Mt_gsn_hostname, hdr_part = CHR 0x00,
     hdr_size = 0, addr_orig = forge_local env, addr_dest = dest\<rparr> (ipv4_bytes a)"

lemma process_hostname:
  "hdr_type (m_header p) = msgtype_val Mt_gsn_hostname \<Longrightarrow>
   process_packet renv p c st = bindR (hostname_handler (env_junk renv) p (nstable st)) (\<lambda>r. Inr (r, st))"
  using msgtype_enum.enum_of_val [of Mt_gsn_hostname]
  by (simp add: process_packet_def Let_def del: msgtype_val.simps)

lemma forge_hostname_eq:
  assumes "asio_ok (forge_asio env)"
  shows "\<exists>p. sent env p = hostname_request env dest a \<and> addr_dest (m_header p) = dest
    \<and> forge_gsn_hostname env (V4 dest) (addr_string (forge_asio env) (V4 a)) = forge_send env p view_frame_hostname"
proof -
  let ?h = "\<lparr>hdr_type = msgtype_val Mt_gsn_hostname, hdr_part = CHR 0x00, hdr_size = 0,
     addr_orig = ipv4_zero, addr_dest = dest\<rparr>"
  have fp: "forge_packet (V4 dest) Mt_gsn_hostname = Inr (packet_default\<lparr>m_header := ?h\<rparr>)"
    by (simp add: forge_packet_def packet_default_def dvsp_header_default_def)
  have "copy_content (ipv4_bytes a) (packet_default\<lparr>m_header := ?h\<rparr>) = Inr (reply ?h (ipv4_bytes a))"
    using copy_content_null [of "packet_default\<lparr>m_header := ?h\<rparr>"] by simp
  with fp assms have "forge_gsn_hostname env (V4 dest) (addr_string (forge_asio env) (V4 a)) =
      forge_send env (reply ?h (ipv4_bytes a)) view_frame_hostname"
    by (simp add: forge_gsn_hostname_def del: msgtype_val.simps)
  moreover have "sent env (reply ?h (ipv4_bytes a)) = hostname_request env dest a"
    by (simp add: sent_reply hostname_request_def)
  ultimately show ?thesis by (intro exI [of _ "reply ?h (ipv4_bytes a)"]) simp
qed

definition shown_protocol :: "char \<Rightarrow> string" where
  "shown_protocol p = (if p = protocol_val Proto_http then ''http'' else ''dvsp'')"

lemma view_hostname_reply:
  assumes "length (m_hostname n) \<le> 125" "length junk = 125"
  shows "view_frame_hostname (reply h (hostname_bytes (hostname_reply junk n))) =
    Inr (''Response: ok'' @ endl @ m_hostname n @ '':'' @ shown_protocol (m_proto n) @ endl @ endl)"
proof -
  have "rcode_to_string (rcode_val Rc_ok) = ''ok''"
    by (simp add: rcode_to_string_def rcode_enum.enum_of_val del: rcode_val.simps)
  moreover have "schar (fh_len (hostname_reply junk n)) = int (length (m_hostname n))"
    using assms(1) by (simp add: hostname_reply_def schar_char_of)
  ultimately show ?thesis using assms hostname_reply_reads [OF assms]
    by (simp add: view_frame_hostname_def Let_def shown_protocol_def del: rcode_val.simps protocol_val.simps)
      (simp add: hostname_reply_def)
qed

text \<open>The answer to an unknown address is a bare code, of which the client reads a whole host name.\<close>

lemma code_size: "length (response_code_bytes c) = 4"
  by (simp add: response_code_bytes_def)

lemma view_hostname_code: "view_frame_hostname (reply h (response_code_bytes c)) = Inl (Undefined Oob_read)"
  by (simp add: view_frame_hostname_def content_as_def read_ptr_def reply_def frame_sizes response_code_bytes_def
      length_greater_0_conv [symmetric] del: length_greater_0_conv)

section \<open>Listings\<close>

definition area_request :: "forge_env \<Rightarrow> netspace_ipv4 \<Rightarrow> dvsp_packet" where
  "area_request env dest = reply \<lparr>hdr_type = msgtype_val Mt_gsn_local_area, hdr_part = CHR 0x00,
     hdr_size = 0, addr_orig = forge_local env, addr_dest = dest\<rparr> []"

lemma forge_area_eq:
  "\<exists>p. sent env p = area_request env dest \<and> addr_dest (m_header p) = dest
    \<and> forge_gsn_local_area env (V4 dest) = forge_send env p view_frame_response"
proof -
  let ?p = "packet_default\<lparr>m_header := \<lparr>hdr_type = msgtype_val Mt_gsn_local_area, hdr_part = CHR 0x00,
     hdr_size = 0, addr_orig = ipv4_zero, addr_dest = dest\<rparr>\<rparr>"
  have "forge_packet (V4 dest) Mt_gsn_local_area = Inr ?p"
    by (simp add: forge_packet_def packet_default_def dvsp_header_default_def)
  then have "forge_gsn_local_area env (V4 dest) = forge_send env ?p view_frame_response"
    by (simp add: forge_gsn_local_area_def del: msgtype_val.simps)
  then show ?thesis by (intro exI [of _ ?p]) (simp add: sent_def area_request_def reply_def packet_default_def)
qed

text \<open>The listing as a text.\<close>

definition area_text :: "asio \<Rightarrow> netspace_table \<Rightarrow> string" where
  "area_text io t = concat (map (network_entry io) (filter (\<lambda>n. m_type n = netnode_val Nt_org) t))"

lemma process_area:
  assumes "hdr_type h = msgtype_val Mt_gsn_local_area" "length (area_text (env_asio renv) (nstable st)) < 2 ^ 32"
  shows "\<exists>out. process_packet renv (reply h d) c st = Inr (out, st) \<and> packet_wf out
    \<and> packet_data out = area_text (env_asio renv) (nstable st)"
proof -
  have e: "enum_of msgtype_val (hdr_type (m_header (reply h d))) = Some Mt_gsn_local_area"
    using assms(1) msgtype_enum.enum_of_val [of Mt_gsn_local_area] by simp
  have n: "netspace_node_copy = (\<lambda>n. n)" by (rule ext) simp
  have "local_gsn (env_asio renv) (reply h d) (nstable st) =
      Inr (reply (m_header (reply_to (reply h d))) (area_text (env_asio renv) (nstable st)))"
    by (simp add: local_gsn_def nodes_of_def construct_frame_network_def area_text_def n del: str_content_filled)
  with e assms(2) reply_wf show ?thesis by (simp add: process_packet_def Let_def)
qed

lemma view_text_as_code: "view_frame_response (reply h d) =
    (if d = [] then Inl (Undefined Null_deref)
     else if length d < 4 then Inl (Undefined Oob_read)
     else Inr (''Response: '' @ rcode_to_string (bytes_response_code (take 4 d)) @ endl @ endl))"
  by (auto simp: view_frame_response_def content_as_def read_ptr_def frame_sizes reply_def)

section \<open>Queries\<close>

text \<open>The client sends the text of a query as it is, and takes the answer, which is a text, for a frame
  with a result code, a count and a list of addresses.\<close>

lemma forge_request_eq:
  "\<exists>p. sent env p = reply \<lparr>hdr_type = msgtype_val Mt_gsn_request, hdr_part = CHR 0x00, hdr_size = 0,
      addr_orig = forge_local env, addr_dest = dest\<rparr> q \<and> addr_dest (m_header p) = dest
    \<and> forge_gsn_request env (V4 dest) q = forge_send env p view_frame_network"
proof -
  let ?h = "\<lparr>hdr_type = msgtype_val Mt_gsn_request, hdr_part = CHR 0x00, hdr_size = 0,
     addr_orig = ipv4_zero, addr_dest = dest\<rparr>"
  have fp: "forge_packet (V4 dest) Mt_gsn_request = Inr (packet_default\<lparr>m_header := ?h\<rparr>)"
    by (simp add: forge_packet_def packet_default_def dvsp_header_default_def)
  have "copy_content q (packet_default\<lparr>m_header := ?h\<rparr>) = Inr (reply ?h q)"
    using copy_content_null [of "packet_default\<lparr>m_header := ?h\<rparr>"] by simp
  with fp have "forge_gsn_request env (V4 dest) q = forge_send env (reply ?h q) view_frame_network"
    by (simp add: forge_gsn_request_def str_content_eq noexcept_call_def del: msgtype_val.simps)
  then show ?thesis by (intro exI [of _ "reply ?h q"]) (simp add: sent_reply)
qed

lemma view_text_as_network:
  assumes "bytes_word (take 4 d) \<noteq> rcode_val Rc_ok"
  shows "view_frame_network (reply h d) =
    (if d = [] then Inl (Undefined Null_deref) else if length d < 7 then Inl (Undefined Oob_read)
     else Inr (''Response: '' @ rcode_to_string (bytes_word (take 4 d)) @ endl @ endl))"
  using assms by (auto simp: view_frame_network_def content_as_def read_ptr_def frame_sizes reply_def
      bytes_network_def Let_def min_def)

lemma forge_request_misread:
  assumes "listening (udp s)" "length (m_recv (udp s)) = recv_size" "length q \<le> 1010"
    "forge_udp env dest = node_exchange renv s client" "length (forge_recv env) = forge_recv_size"
    "process_packet renv (reply \<lparr>hdr_type = msgtype_val Mt_gsn_request, hdr_part = CHR 0x00, hdr_size = 0,
      addr_orig = forge_local env, addr_dest = dest\<rparr> q) client (root s) = Inr (response_to_query d, st')"
    "length d < 2 ^ 32" "bytes_word (take 4 d) \<noteq> rcode_val Rc_ok"
  shows "run_forge env Mt_gsn_request (V4 dest) q proto =
    (if d = [] then Inl (Undefined Null_deref)
     else if length d < 7 \<or> 498 < length d then Inl (Undefined Oob_read)
     else Inr (''Forging `gsn_request`... '' @ ''OK'' @ endl @ ''Response: ''
       @ rcode_to_string (bytes_word (take 4 d)) @ endl @ endl))"
proof -
  let ?h = "\<lparr>hdr_type = msgtype_val Mt_gsn_request, hdr_part = CHR 0x00, hdr_size = 0,
      addr_orig = forge_local env, addr_dest = dest\<rparr>"
  obtain p where p: "sent env p = reply ?h q" "addr_dest (m_header p) = dest"
      "forge_gsn_request env (V4 dest) q = forge_send env p view_frame_network"
    using forge_request_eq [of env dest q] by blast
  have w: "packet_wf (response_to_query d)" using assms(7) reply_wf by (simp add: response_to_query_def)
  have e: "packet_data (response_to_query d) = d" by (simp add: response_to_query_def)
  from dispatch_to_node [OF assms(4,1,2) p(1) assms(3) p(2) assms(6) w assms(5)]
  have "dispatch_packet env p = (if length d \<le> 498
      then Inr (''OK'' @ endl, reply (m_header (response_to_query d)) d) else Inl (Undefined Oob_read))"
    unfolding e .
  with view_text_as_network [OF assms(8), of "m_header (response_to_query d)"] show ?thesis
    by (auto simp: run_forge_def Let_def p(3) forge_send_def)
qed

section \<open>Properties\<close>

text \<open>C32: Asking a node that listens, with a table that satisfies the node's invariant, for the host name of an
  address with the client, end to end: for an address that a
  node of the table has, the client prints \<open>ok\<close>, that node's host name and its protocol; for an unknown
  address the node answers with a bare code, of whose four bytes the client reads a whole host name
  frame, past the end of its block. In both cases the node that received the client's datagram has
  answered it, its table is as it was, and it goes on listening.\<close>

theorem forge_hostname_end_to_end:
  fixes proto :: char
  assumes "asio_ok (forge_asio env)" "table_inv (nstable (root s))" "length (env_junk renv) = 125"
    "listening (udp s)" "length (m_recv (udp s)) = recv_size"
    "forge_udp env dest = node_exchange renv s client" "length (forge_recv env) = forge_recv_size"
  shows "run_forge env Mt_gsn_hostname (V4 dest) (addr_string (forge_asio env) (V4 a)) proto =
    (case by_key m_addr (nstable (root s)) (V4 a) of
       None \<Rightarrow> Inl (Undefined Oob_read)
     | Some n \<Rightarrow> Inr (''Forging `gsn_local_area`... '' @ ''OK'' @ endl @ ''Response: ok'' @ endl
         @ m_hostname n @ '':'' @ shown_protocol (m_proto n) @ endl @ endl))
    \<and> (\<exists>data s' r. serialise (hostname_request env dest a) = Inr data
      \<and> node_handle renv (Udp (Udp_datagram data client)) s = Inr (s', Some r)
      \<and> nstable (root s') = nstable (root s) \<and> listening (udp s'))"
    (is "?printed \<and> ?kept")
proof -
  let ?h = "\<lparr>hdr_type = msgtype_val Mt_gsn_hostname, hdr_part = CHR 0x00, hdr_size = 0,
     addr_orig = forge_local env, addr_dest = dest\<rparr>"
  let ?q = "reply ?h (ipv4_bytes a)" and ?t = "nstable (root s)"
  obtain p where p: "sent env p = ?q" "addr_dest (m_header p) = dest"
      "forge_gsn_hostname env (V4 dest) (addr_string (forge_asio env) (V4 a)) = forge_send env p view_frame_hostname"
    using forge_hostname_eq [OF assms(1), of dest a] by (auto simp: hostname_request_def)
  have w: "packet_wf ?q" by (rule reply_wf) simp
  have k: "bytes_ipv4 (take 4 (packet_data ?q)) = a" by simp
  have out: "process_packet renv ?q client (root s) = bindR (hostname_handler (env_junk renv) ?q ?t) (\<lambda>r. Inr (r, root s))"
    by (rule process_hostname) simp
  note handler = hostname_handler_eq [OF w _ assms(2), unfolded k, of "env_junk renv"]
  note send = dispatch_to_node [OF assms(6,4,5) p(1) _ p(2) _ _ assms(7)]
  have run: "run_forge env Mt_gsn_hostname (V4 dest) (addr_string (forge_asio env) (V4 a)) proto =
      bindR (forge_send env p view_frame_hostname) (\<lambda>v. Inr (''Forging `gsn_local_area`... '' @ v))"
    by (simp add: run_forge_def Let_def p(3))
  have kept: ?kept if "process_packet renv ?q client (root s) = Inr (o', root s)" "packet_wf o'" for o'
    using node_answers [OF assms(4,5) _ that] by (simp add: hostname_request_def del: node_handle.simps) metis
  show ?thesis
  proof (cases "by_key m_addr ?t (V4 a)")
    case None
    with out handler have "process_packet renv ?q client (root s) = Inr (code_reply Rc_netspace_error, root s)" by simp
    from kept [OF this] send [OF _ this] None show ?thesis
      by (simp add: run forge_send_def code_reply_data view_hostname_code code_size del: rcode_val.simps)
  next
    case (Some n)
    then have n: "length (m_hostname n) \<le> 125"
      using assms(2) by (auto simp: table_inv_def list_all_iff dest: by_key_SomeD)
    let ?b = "hostname_bytes (hostname_reply (env_junk renv) n)"
    let ?o = "reply (m_header (typed_packet Mt_gsn_response)) ?b"
    have "length (fh_hostname (hostname_reply (env_junk renv) n)) = 125"
      using n assms(3) by (simp add: hostname_reply_def)
    then have l: "length ?b = sizeof_hostname"
      using hostname_codec.enc_length [of "hostname_reply (env_junk renv) n"] by simp
    then have "packet_wf ?o" by (intro reply_wf) (simp add: frame_sizes)
    moreover from out handler Some have "process_packet renv ?q client (root s) = Inr (?o, root s)" by simp
    ultimately have "dispatch_packet env p = Inr (''OK'' @ endl, reply (m_header ?o) ?b)" ?kept
      using send l kept by (simp_all add: frame_sizes)
    with Some show ?thesis
      by (simp add: run forge_send_def view_hostname_reply [OF n assms(3)])
  qed
qed

theorem forge_hostname_end_to_end_witness:
  "run_forge (sample_forge\<lparr>forge_udp := (\<lambda>_. node_exchange sample_env (sample_start\<lparr>root := sample_state\<rparr>) sample_addr)\<rparr>)
      Mt_gsn_hostname (V4 ipv4_zero) ''10.0.0.1'' CHR 0x00 =
    Inr (''Forging `gsn_local_area`... OK'' @ endl @ ''Response: ok'' @ endl @ ''acme:http'' @ endl @ endl)"
proof -
  have a: "addr_string ref_asio (V4 (Ipv4 CHR 0x0A CHR 0x00 CHR 0x00 CHR 0x01)) = ''10.0.0.1''" by code_simp
  show ?thesis
    using forge_hostname_end_to_end [of "sample_forge\<lparr>forge_udp := (\<lambda>_. node_exchange sample_env
        (sample_start\<lparr>root := sample_state\<rparr>) sample_addr)\<rparr>" "sample_start\<lparr>root := sample_state\<rparr>" sample_env
        ipv4_zero sample_addr "Ipv4 CHR 0x0A CHR 0x00 CHR 0x00 CHR 0x01" "CHR 0x00"]
      sample_table_inv asio_ok_ref a
    by (simp add: sample_forge_def sample_start_simps sample_state_def sample_env_def shown_protocol_def forge_recv_size_def)
qed

text \<open>C19: Asking a node that listens for its area with the client, end to end: the node answers with the
  text of its organisations (below 2^32 bytes), but the client reads the answer as a result code. With no organisation in
  the table it reads through a null pointer; a listing of more than 498 bytes does not fit the client's
  array of 512, past whose end it is read (as is one of fewer than four bytes, if there were one); for any other
  it prints the name of the code that the first four characters of the listing happen to spell. The
  node has answered the client's datagram, its table is as it was and it goes on listening.\<close>

theorem forge_area_misread:
  fixes proto :: char and renv :: root_env and s :: node_state
  defines "d \<equiv> area_text (env_asio renv) (nstable (root s))"
  assumes "listening (udp s)" "length (m_recv (udp s)) = recv_size"
    "forge_udp env dest = node_exchange renv s client" "length d < 2 ^ 32"
    "length (forge_recv env) = forge_recv_size"
  shows "run_forge env Mt_gsn_local_area (V4 dest) content proto =
    (if d = [] then Inl (Undefined Null_deref)
     else if length d < 4 \<or> 498 < length d then Inl (Undefined Oob_read)
     else Inr (''Forging `gsn_local_area`... '' @ ''OK'' @ endl @ ''Response: ''
       @ rcode_to_string (bytes_response_code (take 4 d)) @ endl @ endl))
    \<and> (\<exists>data s' r. serialise (area_request env dest) = Inr data
      \<and> node_handle renv (Udp (Udp_datagram data client)) s = Inr (s', Some r)
      \<and> nstable (root s') = nstable (root s) \<and> listening (udp s'))"
proof -
  let ?h = "\<lparr>hdr_type = msgtype_val Mt_gsn_local_area, hdr_part = CHR 0x00, hdr_size = 0,
     addr_orig = forge_local env, addr_dest = dest\<rparr>"
  obtain p where p: "sent env p = reply ?h []" "addr_dest (m_header p) = dest"
      "forge_gsn_local_area env (V4 dest) = forge_send env p view_frame_response"
    using forge_area_eq [of env dest] by (auto simp: area_request_def)
  obtain out where o: "process_packet renv (reply ?h []) client (root s) = Inr (out, root s)" "packet_wf out"
      "packet_data out = d"
    using process_area [of ?h renv "root s" "[]" client] assms(5) unfolding d_def by auto
  from dispatch_to_node [OF assms(4,2,3) p(1) _ p(2) o(1,2) assms(6)] o(3)
  have "dispatch_packet env p = (if length d \<le> 498
      then Inr (''OK'' @ endl, reply (m_header out) d) else Inl (Undefined Oob_read))" by simp
  moreover have "\<exists>data s' r. serialise (area_request env dest) = Inr data
      \<and> node_handle renv (Udp (Udp_datagram data client)) s = Inr (s', Some r)
      \<and> nstable (root s') = nstable (root s) \<and> listening (udp s')"
    using node_answers [OF assms(2,3) _ o(1,2)] by (simp add: area_request_def del: node_handle.simps) metis
  ultimately show ?thesis
    by (auto simp: run_forge_def Let_def p(3) forge_send_def view_text_as_code simp del: node_handle.simps)
qed

theorem forge_area_misread_witness:
  "run_forge (sample_forge\<lparr>forge_udp := (\<lambda>_. node_exchange sample_env (sample_start\<lparr>root := sample_state\<rparr>) sample_addr)\<rparr>)
      Mt_gsn_local_area (V4 ipv4_zero) [] CHR 0x00 =
    Inr (''Forging `gsn_local_area`... OK'' @ endl @ ''Response: undefined'' @ endl @ endl)"
proof -
  have t: "area_text (env_asio sample_env) (nstable sample_state) = ''acme|a1|10.0.0.1;''" by code_simp
  have w: "bytes_response_code ''acme'' = 1701667681" by (simp add: bytes_response_code_def bytes_word_def)
  have "rcode_val e \<noteq> 1701667681" for e by (cases e) simp_all
  then have "find (\<lambda>e. rcode_val e = 1701667681) Enum.enum = None" by (simp add: find_None_iff)
  then have c: "rcode_to_string (bytes_response_code ''acme'') = ''undefined''"
    unfolding w by (simp add: rcode_to_string_def enum_of_def)
  show ?thesis
    using forge_area_misread [of "sample_start\<lparr>root := sample_state\<rparr>" "sample_forge\<lparr>forge_udp := (\<lambda>_. node_exchange sample_env
        (sample_start\<lparr>root := sample_state\<rparr>) sample_addr)\<rparr>" ipv4_zero sample_env sample_addr "[]" "CHR 0x00"] t c
    by (simp add: sample_forge_def sample_start_simps forge_recv_size_def)
qed

end
