(* ===== verification/Peers.thy ===== *)
theory Peers
  imports Answers
begin

text \<open>
  The two ends of the repository's HTTP framing against each other: what a query makes of an answer in
  the form in which a root node answers, and what the session of a root node makes of a request in
  the form in which \<open>send_frame\<close> writes one. A request carries the packet's bytes as they are, while the
  session expects their hexadecimal text; the answer of a session is a bare packet, while the asking
  side expects an HTTP text. \<open>send_frame\<close> connects to port 8080 and the HTTP service listens on 55380,
  so that the peer of a query is other software than a root node, unless somebody forwards the port.
\<close>

section \<open>The header of a request\<close>

abbreviation CR :: char where "CR \<equiv> CHR 0x0D"

text \<open>A host name that the header can hold.\<close>

definition header_name :: "string \<Rightarrow> bool" where
  "header_name h \<longleftrightarrow> CR \<notin> set h \<and> NUL \<notin> set h \<and> length h \<le> 125"

lemma search_line:
  "CR \<notin> set l \<Longrightarrow> search CRLF2 (l @ CRLF @ s) =
     (if take 2 s = CRLF then Some (length l) else map_option (\<lambda>i. i + length l + 2) (search CRLF2 s))"
proof (induction l)
  case Nil
  then show ?case
    by (cases "search CRLF2 s") (auto simp: CRLF_def CRLF2_def numeral_2_eq_2)
next
  case (Cons c l)
  then show ?case by (cases "search CRLF2 s") (auto simp: CRLF2_def)
qed

fun lines :: "string list \<Rightarrow> string" where
  "lines [] = []"
| "lines [l] = l"
| "lines (l # l' # ls) = l @ CRLF @ lines (l' # ls)"

lemma take_lines: "\<forall>l \<in> set (l # ls). CR \<notin> set l \<and> l \<noteq> [] \<Longrightarrow> take 2 (lines (l # ls) @ s) \<noteq> CRLF"
  by (cases l; cases ls) (auto simp: CRLF_def numeral_2_eq_2)

lemma CRLF2_twice: "CRLF2 = CRLF @ CRLF" by (simp add: CRLF_def CRLF2_def)

lemma search_lines: "ls \<noteq> [] \<Longrightarrow> \<forall>l \<in> set ls. CR \<notin> set l \<and> l \<noteq> [] \<Longrightarrow>
   search CRLF2 (lines ls @ CRLF2) = Some (length (lines ls))"
proof (induction ls rule: lines.induct)
  case (2 l)
  then have "CR \<notin> set l" by simp
  from search_line [OF this, of CRLF] show ?case by (simp add: CRLF2_twice) (simp add: CRLF_def)
next
  case (3 l l' ls)
  then have l: "CR \<notin> set l" and IH: "search CRLF2 (lines (l' # ls) @ CRLF2) = Some (length (lines (l' # ls)))"
    by auto
  have "take 2 (lines (l' # ls) @ CRLF2) \<noteq> CRLF" using "3.prems" by (intro take_lines) simp
  with search_line [OF l, of "lines (l' # ls) @ CRLF2"] IH show ?case
    by (simp del: lines.simps(2,3) add: lines.simps(3) [of l]) (simp add: CRLF_def)
qed simp

lemma decimal_length: "0 < k \<Longrightarrow> n < 10 ^ k \<Longrightarrow> length (decimal n) \<le> k"
proof (induction k arbitrary: n)
  case (Suc k)
  show ?case
  proof (cases "n < 10")
    case True
    then show ?thesis by (simp add: decimal.simps [of n])
  next
    case False
    with Suc.prems have "n div 10 < 10 ^ k" "0 < k" by (auto intro: Suc_lessI gr0I)
    with Suc.IH [of "n div 10"] False show ?thesis by (simp add: decimal.simps [of n])
  qed
qed simp

lemma decimal_clean: "CR \<notin> set (decimal n)" "NUL \<notin> set (decimal n)"
  by (rule decimal_not_in, simp)+

text \<open>The lines of the header, without the blank line that ends it.\<close>

definition header_lines :: "string \<Rightarrow> dvsp_packet \<Rightarrow> string list" where
  "header_lines hostname frame =
     [''POST /spring/spring_hook.php HTTP/1.1'', ''Host: '' @ hostname, ''User-Agent: SpringDVS'',
      ''Content-Type: application/octet-stream'', ''Content-Length: '' @ decimal (packet_size frame)]"

lemma generate_header_lines: "generate_header hostname frame = lines (header_lines hostname frame) @ CRLF2"
  by (simp add: generate_header_def header_lines_def CRLF2_twice)

lemma header_lines_head:
  assumes "header_name hostname"
  shows "http_head (lines (header_lines hostname frame)) \<and> length (lines (header_lines hostname frame)) \<le> 300"
proof -
  let ?h = "lines (header_lines hostname frame)"
  have "search CRLF2 (?h @ CRLF2) = Some (length ?h)"
    using assms decimal_clean by (intro search_lines) (auto simp: header_lines_def header_name_def)
  moreover have "unat (hdr_size (m_header frame)) < 2 ^ LENGTH(32)" by (rule unsigned_less)
  then have "packet_size frame < 10 ^ 11" by (simp add: packet_size_def sizeof_header_def)
  then have "length (decimal (packet_size frame)) \<le> 11" by (intro decimal_length) simp_all
  then have "length ?h \<le> 300"
    using assms by (simp add: header_lines_def header_name_def CRLF_def)
  moreover have "NUL \<notin> set ?h"
    using assms decimal_clean by (simp add: header_lines_def header_name_def CRLF_def)
  ultimately show ?thesis by (simp add: http_head_def)
qed

section \<open>A request at the session of a root node\<close>

lemma request_kills_session:
  assumes "header_name (m_hostname n)" "hdr_type h \<noteq> NUL" "hdr_part h = NUL"
  shows "session_read env (Http_data (request_bytes h q n) old a) st = Inl (Undefined Oob_write)"
proof -
  let ?p = "request_packet h q"
  let ?h = "lines (header_lines (m_hostname n) ?p)"
  obtain r where r: "header_bytes (m_header ?p) @ q = [hdr_type h] @ NUL # r"
    using assms(3) by (simp add: header_bytes_def request_packet_def)
  have h: "http_head ?h" "length ?h \<le> 300" using header_lines_head [OF assms(1)] by blast+
  have "length (?h @ CRLF2 @ [hdr_type h] @ [NUL]) \<le> http_size"
    using h(2) by (simp add: http_size_def CRLF2_def)
  then have "\<exists>r'. deliver http_size ((?h @ CRLF2 @ [hdr_type h] @ [NUL]) @ r) old
      = (?h @ CRLF2 @ [hdr_type h] @ [NUL]) @ r'"
    unfolding deliver_def take_append by simp
  then obtain r' where d: "deliver http_size (request_bytes h q n) old = ?h @ CRLF2 @ [hdr_type h] @ NUL # r'"
    unfolding request_bytes_def r generate_header_lines by auto
  have "http_to_bin (env_stk env) (deliver http_size (request_bytes h q n) old) = Inl (Undefined Oob_write)"
    unfolding d using http_head_body [OF h(1), of "[hdr_type h]"] assms(2) by simp
  then show ?thesis by (simp add: session_input_def)
qed

text \<open>A session that receives a request in this form, whoever brings it to the session's port: the second
  byte of the packet, the part number, is zero unless the client that asked first has set it, so the
  session decodes a text of one digit into a block of no bytes and writes past its end. The host name in
  the header is one that does not break it (\<open>header_name\<close>).\<close>

lemma session_dies_of_frame:
  assumes "header_name (m_hostname n)" "hdr_type h = msgtype_val Mt_gsn_request" "hdr_part h = NUL"
    "0 < sessions (http s)"
  shows "run env (Session (Http_data (fst (request_for h q n)) old a) # es) s =
    Inl (Undefined_behaviour Oob_write)"
proof -
  have "hdr_type (h\<lparr>addr_dest := b\<rparr>) \<noteq> NUL" "hdr_part (h\<lparr>addr_dest := b\<rparr>) = NUL" for b
    using assms(2,3) by simp_all
  from request_kills_session [OF assms(1) this, of env] assms(4) show ?thesis
    by (simp add: request_for_def del: session_read.simps)
qed

lemma session_dies_of_frame_example:
  "run sample_env [Accept False, Session (Http_data (fst (request_for
      (dvsp_header_default\<lparr>hdr_type := msgtype_val Mt_gsn_request\<rparr>) ''hi'' sample_node)) [] sample_addr)] sample_start =
    Inl (Undefined_behaviour Oob_write)"
proof -
  have "header_name (m_hostname sample_node)" by (simp add: header_name_def)
  moreover have "0 < sessions (http (sample_start\<lparr>http := do_accept False (http sample_start)\<rparr>))"
    by (simp add: do_accept_def)
  ultimately show ?thesis
    using session_dies_of_frame [of sample_node "dvsp_header_default\<lparr>hdr_type := msgtype_val Mt_gsn_request\<rparr>"
        "sample_start\<lparr>http := do_accept False (http sample_start)\<rparr>" sample_env "''hi''" "[]" sample_addr "[]"]
    by (simp add: sample_start_simps dvsp_header_default_def del: run.simps(2) msgtype_val.simps)
      (simp add: sample_start_simps)
qed

section \<open>A bare packet as an answer\<close>

lemma packet_not_http:
  assumes "t \<noteq> NUL"
  shows "http_to_bin stk (t # NUL # r) = Inl (Throw Std_out_of_range)"
proof -
  have "c_string (t # NUL # r) = Inr [t]" using assms by (simp add: c_string_def)
  moreover have "pos_add (str_find_sub CRLF2 [t]) 4 = 3"
    by (simp add: str_find_sub_def CRLF2_def npos_def pos_add_def)
  ultimately show ?thesis by (simp add: http_to_bin_def substr_from_def)
qed

lemma send_frame_bare:
  assumes "http_frame_serialise f = Inr s" "env_net env (length out) s (frame_endpoint a) = Net_reply (t # NUL # r)" "t \<noteq> NUL"
  shows "send_frame env f a out = Inl (Throw Std_exception)"
proof -
  have "c_string (t # NUL # r) = Inr [t]" using assms(3) by (simp add: c_string_def)
  then show ?thesis using assms by (simp add: send_frame_def packet_not_http rethrow_sliced_def)
qed

lemma query_one_bare:
  assumes p: "packet_wf p" and q: "q \<noteq> []" "length q < 2 ^ 32"
    and n: "by_key m_suid (nstable st) suid = Some n" "m_addr n = V4 a"
    and ans: "env_net env (length (outbox st)) (request_bytes (m_header p) q n) (frame_endpoint a) = Net_reply (t # NUL # r)"
    and t: "t \<noteq> NUL"
  shows "query_one env p suid q st = Inl (Throw Std_exception)"
proof -
  let ?r = "request_packet (m_header p) q"
  obtain f where f: "http_frame_of ?r (m_hostname n) = Inr f"
      "http_frame_serialise f = Inr (request_bytes (m_header p) q n)"
    using http_frame_of_request [OF q(2), of "m_header p" n] by blast
  have "str_content q p = Inr ?r" using p q by (simp add: filled_request)
  moreover have "send_frame env f a (outbox st) = Inl (Throw Std_exception)"
    using f(2) ans t by (rule send_frame_bare)
  moreover have "packet_wf ?r" using q(2) by (rule request_packet_wf)
  ultimately show ?thesis using n f(1)
    by (simp add: query_one_def Let_def table_end_def suid_index.find_end_by_key suid_index.find_deref
        ask_peer_def unwind_def)
qed

section \<open>Properties\<close>

text \<open>C20: A node that answers a query with a bare packet, the form in which the sessions of a root node
  answer, brings the asking node down: its first bytes are the type and a zero, in which no HTTP body can be found; the
  search for it throws, and \<open>main\<close> reports a plain \<open>std::exception\<close> and returns.\<close>

theorem bare_answer_ends_node:
  assumes "listening (udp s)" "length (m_recv (udp s)) = recv_size"
    "packet_of_serial data = Inr p" "packet_size p \<le> recv_size"
    "hdr_type (m_header p) = msgtype_val Mt_gsn_request" "carries p u" "hd (m_gsn u) \<noteq> ''esusx''"
    "m_spq u \<noteq> []" "length (m_spq u) < 2 ^ 32"
    "by_key m_suid (nstable (root s)) (hd (m_gsn u)) = Some n" "m_addr n = V4 ip"
    "env_net env (length (outbox (root s))) (request_bytes (m_header p) (m_spq u) n) (frame_endpoint ip) = Net_reply (t # NUL # r)"
    "t \<noteq> NUL"
  shows "run env (Udp (Udp_datagram data a) # es) s = Inl (Reported Std_exception)"
proof -
  have w: "packet_wf (owned p)" using assms(6) by (simp add: carries_def owned_wf)
  have "query_one env (owned p) (hd (m_gsn u)) (m_spq u) (root s) = Inl (Throw Std_exception)"
    using query_one_bare [OF w assms(8,9,10,11) _ assms(13), of env r] assms(12) by simp
  then have "process_packet env p a (root s) = Inl (Throw Std_exception)"
    using assms(7) by (simp add: process_request [OF assms(5)] query_handler_eq [OF assms(6)] query_result_def)
  moreover have "packet_of_serial (deliver recv_size data (m_recv (udp s))) = Inr p"
    by (rule deliver_packet [OF assms(3,4,2)])
  ultimately show ?thesis using assms(1) by (simp add: Let_def)
qed

definition bare_env :: root_env where
  "bare_env = sample_env\<lparr>env_net := (\<lambda>_ _ _. Net_reply (header_bytes (m_header (code_reply Rc_ok))))\<rparr>"

theorem bare_answer_ends_node_witness:
  "run bare_env [Udp (Udp_datagram (header_bytes (m_header (sample_query_packet (sample_query ''a1'')))
      @ url_text (sample_query ''a1'')) sample_addr)] (sample_start\<lparr>root := sample_state\<rparr>) = Inl (Reported Std_exception)"
proof -
  let ?u = "sample_query ''a1''" and ?p = "sample_query_packet (sample_query ''a1'')"
  let ?s = "sample_start\<lparr>root := sample_state\<rparr>"
  have c: "carries ?p ?u" by (rule sample_query_carries) simp_all
  have u: "m_spq ?u = ''hi''" "hd (m_gsn ?u) = ''a1''"
    by (simp_all add: sample_query_def netspace_url_empty_def)
  have p: "packet_of_serial (header_bytes (m_header ?p) @ url_text ?u) = Inr ?p" "packet_size ?p \<le> recv_size"
    by code_simp+
  have t: "hdr_type (m_header ?p) = msgtype_val Mt_gsn_request" by (simp add: sample_query_packet_def)
  have n: "by_key m_suid (nstable (root ?s)) (hd (m_gsn ?u)) = Some sample_node"
    by (simp add: sample_state_def u)
  have s: "listening (udp ?s)" "length (m_recv (udp ?s)) = recv_size" by (simp_all add: sample_start_simps)
  obtain r where r: "header_bytes (m_header (code_reply Rc_ok)) = CHR 0x08 # NUL # r"
    by (simp add: header_bytes_def code_reply_def reply_def typed_packet_def packet_default_def dvsp_header_default_def)
  show ?thesis
    by (rule bare_answer_ends_node [OF s p t c _ _ _ n, where t = "CHR 0x08" and r = r])
      (simp_all add: u bare_env_def r)
qed

end
