(* ===== verification/Startup.thy ===== *)
theory Startup
  imports Services
begin

text \<open>
  \<open>nodes/root/entry.cpp\<close> as a whole: the objects \<open>main\<close> constructs, in their order, which of them
  can fail and inside or outside of the \<open>try\<close> block, the event loop, and the status the process
  ends with. The outside world is what opening the database gives, which ports are free, and what
  the receive buffer, which no constructor writes, holds at first.
\<close>

record world =
  sqlite_open :: "string + gsn_db"
  udp_free :: "nat \<Rightarrow> bool"
  tcp_free :: "nat \<Rightarrow> bool"
  recv_memory :: bytes

definition HTTP_PORT :: nat where "HTTP_PORT = 55380"

text \<open>The constructors of the services: binding the socket may throw, then the first asynchronous
  operation is started.\<close>

definition resolution_service_new :: "world \<Rightarrow> udp_service result" where
  "resolution_service_new w =
     (if udp_free w GSN_SERVICE_PORT then Inr (start_recv \<lparr>m_recv = recv_memory w, listening = False\<rparr>)
      else Inl (Throw Boost_system_error))"

definition http_service_new :: "world \<Rightarrow> http_service result" where
  "http_service_new w =
     (if tcp_free w HTTP_PORT then Inr \<lparr>accepting = True, sessions = 0\<rparr>
      else Inl (Throw Boost_system_error))"

definition services_new :: "world \<Rightarrow> node_state result" where
  "services_new w =
     bindR (resolution_service_new w) (\<lambda>rn.
     bindR (http_service_new w) (\<lambda>hs.
       Inr \<lparr>root = \<lparr>nstable = [], outbox = []\<rparr>, udp = rn, http = hs\<rparr>))"

text \<open>An exception that leaves \<open>main\<close>, from outside of the \<open>try\<close> block, ends the program.\<close>

fun uncaught :: "fault \<Rightarrow> outcome" where
  "uncaught (Throw e) = Aborted"
| "uncaught Terminated = Aborted"
| "uncaught (Undefined u) = Undefined_behaviour u"

definition root_main :: "world \<Rightarrow> root_env \<Rightarrow> event list \<Rightarrow> outcome + node_state" where
  "root_main w env es =
     (case metaspace_open (sqlite_open w) of
        Inl f \<Rightarrow> Inl (uncaught f)
      | Inr db \<Rightarrow>
          (case services_new w of
             Inl f \<Rightarrow> Inl (main_catch f)
           | Inr s \<Rightarrow> run (env\<lparr>env_gsn := db\<rparr>) es s))"

text \<open>\<open>io_service::run\<close> goes on while an asynchronous operation is pending.\<close>

definition work_pending :: "node_state \<Rightarrow> bool" where
  "work_pending s \<longleftrightarrow> listening (udp s) \<or> accepting (http s) \<or> 0 < sessions (http s)"

text \<open>The exit status: \<open>main\<close> returns 0 after reporting an exception; \<open>std::terminate\<close> gives none.\<close>

fun exit_status :: "outcome \<Rightarrow> int option" where
  "exit_status (Reported e) = Some 0"
| "exit_status Aborted = None"
| "exit_status (Undefined_behaviour u) = None"

text \<open>The organisation and the trusted node only say their name: output and status.\<close>

definition org_main :: "string \<times> int" where
  "org_main = (''Organisation Node'' @ [CHR 0x0A], 0)"

definition trusted_main :: "string \<times> int" where
  "trusted_main = (''Trusted Node'' @ [CHR 0x0A], 0)"

section \<open>The start of the node\<close>

lemma services_new_eq:
  "services_new w = (if udp_free w GSN_SERVICE_PORT \<and> tcp_free w HTTP_PORT
     then Inr (node_init (recv_memory w)) else Inl (Throw Boost_system_error))"
  by (simp add: services_new_def resolution_service_new_def http_service_new_def node_init_def)

lemma root_main_eq:
  "root_main w env es =
     (case sqlite_open w of
        Inl msg \<Rightarrow> Inl Aborted
      | Inr db \<Rightarrow>
          if udp_free w GSN_SERVICE_PORT \<and> tcp_free w HTTP_PORT
          then run (env\<lparr>env_gsn := db\<rparr>) es (node_init (recv_memory w))
          else Inl (Reported Boost_system_error))"
  by (cases "udp_free w GSN_SERVICE_PORT \<and> tcp_free w HTTP_PORT")
    (auto simp: root_main_def metaspace_open_def services_new_eq split: sum.split)

lemma run_reachable: "reachable env s \<Longrightarrow> run env es s = Inr s' \<Longrightarrow> reachable env s'"
proof (induction es arbitrary: s)
  case (Cons e es)
  then show ?case by (auto split: if_splits sum.splits) (metis node_step.step reachable.more)
qed simp

text \<open>Every way in which a run can end.\<close>

lemma run_outcome: "run env es s = Inl out \<Longrightarrow>
   \<exists>es1 e es2 s1 f. es = es1 @ e # es2 \<and> run env es1 s = Inr s1 \<and> node_handle env e s1 = Inl f \<and> out = main_catch f"
proof (induction es arbitrary: s)
  case (Cons e es)
  show ?case
  proof (cases "enabled e s")
    case False
    with Cons obtain es1 e' es2 s1 f where "es = es1 @ e' # es2" "run env es1 s = Inr s1"
        "node_handle env e' s1 = Inl f" "out = main_catch f"
      by fastforce
    with False show ?thesis
      by (intro exI [of _ "e # es1"] exI [of _ e'] exI [of _ es2] exI [of _ s1] exI [of _ f]) simp
  next
    case True
    show ?thesis
    proof (cases "node_handle env e s")
      case (Inl f)
      with True Cons.prems show ?thesis
        by (intro exI [of _ "[]"] exI [of _ e] exI [of _ es] exI [of _ s] exI [of _ f]) simp
    next
      case (Inr x)
      then obtain s' r where x: "node_handle env e s = Inr (s', r)" by (cases x) auto
      with True Cons obtain es1 e' es2 s1 f where "es = es1 @ e' # es2" "run env es1 s' = Inr s1"
          "node_handle env e' s1 = Inl f" "out = main_catch f"
        by fastforce
      with True x show ?thesis
        by (intro exI [of _ "e # es1"] exI [of _ e'] exI [of _ es2] exI [of _ s1] exI [of _ f]) simp
    qed
  qed
qed simp

section \<open>Properties\<close>

text \<open>C18: How the root node starts: when \<open>sqlite3_open\<close> reports an error (SQLite creates a file \<open>gsn.db\<close> that
  is missing, so this is a file it can neither open nor create) it aborts, whatever else happens; with
  the database open, but with one of its two ports taken, it reports Boost's exception and returns with
  status 0, as if it had done its work; otherwise it runs, and as long as no event ends in a fault the event
  loop has work pending, so \<open>main\<close> never comes to its end by itself.\<close>

theorem root_main_starts:
  assumes "length (recv_memory w) = 1024" "asio_ok (env_asio env)"
  shows "case root_main w env es of
      Inl out \<Rightarrow>
        (if Sum_Type.isl (sqlite_open w) then out = Aborted
         else if \<not> (udp_free w 55301 \<and> tcp_free w 55380)
           then out = Reported Boost_system_error \<and> exit_status out = Some 0
         else (\<exists>es1 e es2 s f. es = es1 @ e # es2 \<and> root_main w env es1 = Inr s
           \<and> node_handle (env\<lparr>env_gsn := Sum_Type.projr (sqlite_open w)\<rparr>) e s = Inl f \<and> out = main_catch f))
    | Inr s \<Rightarrow> \<not> Sum_Type.isl (sqlite_open w) \<and> udp_free w 55301 \<and> tcp_free w 55380 \<and> work_pending s"
proof (cases "sqlite_open w")
  case (Inl msg)
  then show ?thesis by (simp add: root_main_eq)
next
  case (Inr db)
  let ?s0 = "node_init (recv_memory w)" and ?env = "env\<lparr>env_gsn := db\<rparr>"
  show ?thesis
  proof (cases "udp_free w GSN_SERVICE_PORT \<and> tcp_free w HTTP_PORT")
    case False
    with Inr show ?thesis by (auto simp: root_main_eq GSN_SERVICE_PORT_def HTTP_PORT_def)
  next
    case True
    then have m: "root_main w env es' = run ?env es' ?s0" for es' using Inr by (simp add: root_main_eq)
    have r: "reachable ?env ?s0" using assms(1) by (intro reachable.start) (simp add: recv_size_def)
    show ?thesis
    proof (cases "run ?env es ?s0")
      case out: (Inl out)
      with run_outcome [OF out] True Inr show ?thesis
        by (simp add: m GSN_SERVICE_PORT_def HTTP_PORT_def)
    next
      case s: (Inr s)
      then have "node_inv s" using reachable_inv [OF run_reachable [OF r s]] assms(2) by simp
      with s True Inr show ?thesis
        by (simp add: m GSN_SERVICE_PORT_def HTTP_PORT_def work_pending_def node_inv_def)
    qed
  qed
qed

definition sample_world :: world where
  "sample_world = \<lparr>sqlite_open = Inr sample_db, udp_free = (\<lambda>_. True), tcp_free = (\<lambda>p. p \<noteq> 55380),
     recv_memory = replicate 1024 NUL\<rparr>"

theorem root_main_starts_witness:
  "root_main (sample_world\<lparr>tcp_free := (\<lambda>_. True)\<rparr>) sample_env [Udp Udp_error] =
      Inr ((node_init (replicate 1024 NUL))\<lparr>udp := \<lparr>m_recv = replicate 1024 NUL, listening = False\<rparr>\<rparr>)
    \<and> work_pending ((node_init (replicate 1024 NUL))\<lparr>udp := \<lparr>m_recv = replicate 1024 NUL, listening = False\<rparr>\<rparr>)
    \<and> root_main sample_world sample_env [] = Inl (Reported Boost_system_error)"
proof -
  let ?w = "sample_world\<lparr>tcp_free := (\<lambda>_. True)\<rparr>"
  have "root_main ?w sample_env [Udp Udp_error] =
      Inr ((node_init (replicate 1024 NUL))\<lparr>udp := \<lparr>m_recv = replicate 1024 NUL, listening = False\<rparr>\<rparr>)"
    by (simp add: root_main_eq sample_world_def node_init_def start_recv_def)
  moreover have "root_main sample_world sample_env [] = Inl (Reported Boost_system_error)"
    by (simp add: root_main_eq sample_world_def HTTP_PORT_def)
  ultimately show ?thesis
    using root_main_starts [OF _ sample_asio, of ?w "[Udp Udp_error]"]
    by (simp add: sample_world_def)
qed

end
