(* ===== verification/Counter_Loop.thy ===== *)
theory Counter_Loop
  imports Netspace_Url Dvsp_Packet
begin

text \<open>
  The loops of \<open>netspace_url.cpp\<close> with their real counter: \<open>auto i = 0u\<close> is a 32-bit unsigned
  integer compared with a 64-bit length, so it wraps round to 0 after 2^32 - 1. \<open>u32_loop\<close> is such a
  loop; it may go on for ever, then its value is \<open>None\<close>. The lemmas say when the loops of the
  decoder and of the printer end, and that the folds by which \<open>Netspace_Url\<close> models them are what
  they compute then.
\<close>

section \<open>A loop with a 32-bit counter\<close>

partial_function (option) u32_loop ::
  "(nat \<Rightarrow> bool) \<Rightarrow> (nat \<Rightarrow> 's \<Rightarrow> 's) \<Rightarrow> 32 word \<Rightarrow> 's \<Rightarrow> 's option" where
  "u32_loop grd body i s =
     (if grd (unat i) then u32_loop grd body (i + 1) (body (unat i) s) else Some s)"

lemma u32_loop_ends:
  assumes "n < 2 ^ 32" "\<And>i. grd i \<longleftrightarrow> i < n"
  shows "i \<le> n \<Longrightarrow> u32_loop grd body (word_of_nat i) s = Some (fold body [i..<n] s)"
proof (induction "n - i" arbitrary: i s)
  case 0
  then have "i = n" by simp
  then show ?case using assms by (subst u32_loop.simps) simp
next
  case (Suc k)
  then have i: "i < n" by simp
  then have u: "unat (word_of_nat i :: 32 word) = i" using assms(1) by simp
  have "u32_loop grd body (word_of_nat i) s = u32_loop grd body (word_of_nat (Suc i)) (body i s)"
    using i u assms(2) by (subst u32_loop.simps) (simp add: add.commute)
  also have "\<dots> = Some (fold body [Suc i..<n] (body i s))"
    using Suc.hyps(1) [of "Suc i" "body i s"] Suc.hyps(2) i by simp
  finally show ?case using i by (simp add: upt_conv_Cons)
qed

text \<open>A bound that no 32-bit value reaches is never passed.\<close>

lemma u32_loop_never:
  assumes "\<And>i. i < 2 ^ 32 \<Longrightarrow> grd i"
  shows "u32_loop grd body i s = None"
proof (rule ccontr)
  assume "u32_loop grd body i s \<noteq> None"
  then obtain y where "u32_loop grd body i s = Some y" by auto
  then have "\<not> (\<forall>i < 2 ^ 32. grd i)"
  proof (rule u32_loop.raw_induct [of "\<lambda>grd body i s y. \<not> (\<forall>i < 2 ^ 32. grd i)", rotated])
    fix loop :: "(nat \<Rightarrow> bool) \<Rightarrow> (nat \<Rightarrow> 'a \<Rightarrow> 'a) \<Rightarrow> 32 word \<Rightarrow> 'a \<Rightarrow> 'a option" and grd body i s y
    assume "\<And>grd body i s y. loop grd body i s = Some y \<Longrightarrow> \<not> (\<forall>i < 2 ^ 32. grd i)"
      "(if grd (unat i) then loop grd body (i + 1) (body (unat i) s) else Some s) = Some y"
    moreover have "unat i < 2 ^ 32" using unsigned_less [of i] by simp
    ultimately show "\<not> (\<forall>i < 2 ^ 32. grd i)" by (auto split: if_splits)
  qed
  with assms show False by blast
qed

lemma u32_loop_zero: "n < 2 ^ 32 \<Longrightarrow> u32_loop (\<lambda>i. i < n) body 0 s = Some (fold body [0..<n] s)"
  using u32_loop_ends [of n "\<lambda>i. i < n" 0] by simp

section \<open>The decoder of URLs\<close>

text \<open>\<open>url[i]\<close> of a \<open>std::string\<close> is the terminator at the end.\<close>

definition char_at :: "string \<Rightarrow> nat \<Rightarrow> char" where
  "char_at s i = (if i < length s then s ! i else NUL)"

definition decode_loop32 :: "string \<Rightarrow> netspace_url \<Rightarrow> netspace_url option" where
  "decode_loop32 url u = map_option (\<lambda>(t, st, u'). u')
     (u32_loop (\<lambda>i. i \<le> length url) (\<lambda>i. decode_char (char_at url i)) 0 ([], Cmpt_gsn, u))"

definition decode32 :: "netspace_url \<Rightarrow> netspace_url result option" where
  "decode32 u =
     (if length (m_url u) \<le> 9 \<or> take 9 (m_url u) \<noteq> ''spring://''
      then Some (Inl (Throw Netspace_malformed_url))
      else map_option (\<lambda>u'. if length (m_gsn u') = 0 then Inl (Throw Netspace_malformed_url) else Inr u')
        (decode_loop32 (drop 9 (m_url u)) u))"

lemma map_char_at: "map (char_at s) [0..<Suc (length s)] = s @ [NUL]"
  by (rule nth_equalityI) (auto simp: char_at_def nth_append nth_map_upt simp del: upt_Suc)

lemma fold_upt_map: "fold (\<lambda>i. f (g i)) xs s = fold f (map g xs) s"
  by (induction xs arbitrary: s) auto

lemma decode_loop32_short: "length s + 1 < 2 ^ 32 \<Longrightarrow> decode_loop32 s u = Some (decode_loop s u)"
  using u32_loop_zero [of "Suc (length s)" "\<lambda>i. decode_char (char_at s i)" "([], Cmpt_gsn, u)"]
  by (simp add: decode_loop32_def decode_loop_def fold_upt_map map_char_at less_Suc_eq_le case_prod_unfold
      del: upt_Suc fold_append)

lemma decode_loop32_long: "2 ^ 32 \<le> length s + 1 \<Longrightarrow> decode_loop32 s u = None"
  unfolding decode_loop32_def by (subst u32_loop_never) auto

lemma decode32_short: "length (m_url u) < 2 ^ 32 + 8 \<Longrightarrow> decode32 u = Some (decode u)"
proof -
  assume "length (m_url u) < 2 ^ 32 + 8"
  then have "decode_loop32 (drop 9 (m_url u)) u = Some (decode_loop (drop 9 (m_url u)) u)"
    by (intro decode_loop32_short) simp
  then show ?thesis by (simp only: decode32_def decode_def option.map Let_def if_distrib [of Some])
qed

section \<open>The printer of URLs\<close>

text \<open>The part of \<open>to_string\<close> that prints a route that is not empty.\<close>

definition route_text32 :: "string list \<Rightarrow> string option" where
  "route_text32 g = map_option (\<lambda>ss. ss @ last g)
     (u32_loop (\<lambda>i. i < length g - 1) (\<lambda>i ss. ss @ g ! i @ ''.'') 0 [])"

lemma route_text_fold:
  "fold (\<lambda>x ss. ss @ x @ ''.'') (butlast g) ss @ last g = ss @ route_text g" if "g \<noteq> []"
  using that by (induction g arbitrary: ss rule: route_text.induct) auto

lemma route_text32_short:
  assumes "g \<noteq> []" "length g \<le> 2 ^ 32"
  shows "route_text32 g = Some (route_text g)"
proof -
  have "map ((!) g) [0..<length g - 1] = butlast g"
    by (rule nth_equalityI) (auto simp: nth_butlast)
  moreover have "length g - 1 < 2 ^ 32" using assms by (cases g) auto
  ultimately show ?thesis
    using route_text_fold [OF assms(1), of "[]"] fold_upt_map [of "\<lambda>x ss. ss @ x @ ''.''" "(!) g" "[0..<length g - 1]" "[]"]
    by (simp add: route_text32_def u32_loop_zero)
qed

lemma route_text32_long: "2 ^ 32 < length g \<Longrightarrow> route_text32 g = None"
  unfolding route_text32_def by (subst u32_loop_never) auto

section \<open>Packets\<close>

text \<open>The content of a packet is too short to keep the decoder from ending.\<close>

lemma packet_text_short: "packet_to_string p off = Inr s \<Longrightarrow> length s < 2 ^ 32"
proof -
  assume "packet_to_string p off = Inr s"
  then have "length s \<le> unat (hdr_size (m_header p))"
    by (auto simp: packet_to_string_def Let_def read_ptr_def read_mem_eq_Inr split: if_splits heap_ptr.splits)
  also have "\<dots> < 2 ^ 32" using unsigned_less [of "hdr_size (m_header p)"] by simp
  finally show ?thesis .
qed

section \<open>Properties\<close>

text \<open>C31: When the decoder of URLs ends: its 32-bit counter is compared with \<open>i <= len\<close>, so for the text
  after the prefix it runs for ever exactly from 2^32 - 1 bytes on; below that it ends, with the result
  by which the other theories model it.\<close>

theorem url_decoder_ends:
  "decode32 u =
    (if 2 ^ 32 + 8 \<le> length (m_url u) \<and> take 9 (m_url u) = ''spring://'' then None else Some (decode u))"
proof (cases "length (m_url u) < 2 ^ 32 + 8")
  case True
  then show ?thesis by (simp add: decode32_short)
next
  case False
  then have "decode_loop32 (drop 9 (m_url u)) u = None" by (intro decode_loop32_long) simp
  with False show ?thesis by (simp add: decode32_def decode_def)
qed

text \<open>No request makes the decoder run for ever: for the text of any packet, and of any part of it, the
  loop ends with the model's result; and a route of at most 2^32 labels is printed by a loop that ends.\<close>

lemma packet_url_ends:
  assumes "packet_to_string p off = Inr s"
  shows "decode32 (netspace_url_empty\<lparr>m_url := s\<rparr>) = Some (netspace_url_of s)"
  using decode32_short [of "netspace_url_empty\<lparr>m_url := s\<rparr>"] packet_text_short [OF assms]
  by (simp add: netspace_url_of_def)

lemma packet_url_ends_example:
  "decode32 (netspace_url_empty\<lparr>m_url := ''abc''\<rparr>) = Some (netspace_url_of ''abc'')"
  by (rule packet_url_ends [of sample_packet 0]) code_simp

end
