(* ===== verification/Metaspace_Handle.thy ===== *)
theory Metaspace_Handle
  imports Metaspace_Gsn
begin

text \<open>
  What \<open>metaspace_gsn.cpp\<close> does to the objects behind its results: the mutex and the pointer \<open>m_db\<close> of
  an object, and the connections such pointers lead to. \<open>Metaspace_Gsn\<close> models the answers; here every
  call also returns the state it leaves, whether or not it throws. The connections are a store from
  pointers to the number of statements compiled on them, without an entry once a connection is closed,
  so that two objects can hold one pointer. \<open>sqlite3_prepare_v2\<close> opens a statement unless it
  fails, \<open>sqlite3_finalize\<close> would close it and is never called, and \<open>sqlite3_close\<close> refuses, and leaves the
  connection open, while a statement is (SQLite's documentation).
\<close>

type_synonym connections = "nat \<rightharpoonup> nat"

record gsn_handle =
  m_db :: nat
  m_locked :: bool

text \<open>\<open>sqlite3_open\<close> gives a pointer that no open connection has.\<close>

definition handle_open :: "nat \<Rightarrow> string + gsn_db \<Rightarrow> connections \<Rightarrow> (gsn_db \<times> gsn_handle \<times> connections) result" where
  "handle_open ptr r cs = bindR (metaspace_open r) (\<lambda>db.
     Inr (db, \<lparr>m_db = ptr, m_locked = False\<rparr>, cs(ptr \<mapsto> 0)))"

definition sqlite3_prepare :: "gsn_db \<Rightarrow> sql \<Rightarrow> nat \<Rightarrow> connections \<Rightarrow> connections result" where
  "sqlite3_prepare db q ptr cs = (case cs ptr of
     None \<Rightarrow> Inl (Undefined Use_after_free)
   | Some n \<Rightarrow> Inr (case sql_prepare db q of Some _ \<Rightarrow> cs | None \<Rightarrow> cs(ptr \<mapsto> n + 1)))"

text \<open>\<open>sqlite3_close\<close>: whether it closed, and the connections afterwards.\<close>

definition sqlite3_close :: "nat \<Rightarrow> connections \<Rightarrow> (bool \<times> connections) result" where
  "sqlite3_close ptr cs = (case cs ptr of
     None \<Rightarrow> Inl (Undefined Use_after_free)
   | Some n \<Rightarrow> Inr (if 0 < n then (False, cs) else (True, cs(ptr := None))))"

definition from_outcode_h :: "gsn_db \<Rightarrow> string \<Rightarrow> nat \<Rightarrow> connections \<Rightarrow> string result \<times> connections" where
  "from_outcode_h db outcode ptr cs = (case sqlite3_prepare db Select_by_postcode ptr cs of
     Inl f \<Rightarrow> (Inl f, cs) | Inr cs' \<Rightarrow> (from_outcode db outcode, cs'))"

definition from_county_h :: "gsn_db \<Rightarrow> string \<Rightarrow> nat \<Rightarrow> connections \<Rightarrow> string result \<times> connections" where
  "from_county_h db county ptr cs = (case sqlite3_prepare db Select_by_county ptr cs of
     Inl f \<Rightarrow> (Inl f, cs) | Inr cs' \<Rightarrow> (from_county db county, cs'))"

text \<open>\<open>std::lock_guard\<close>: locking a mutex that its own thread holds is undefined; the guard unlocks on
  every way out of the scope.\<close>

definition lock_guard :: "(gsn_handle \<Rightarrow> connections \<Rightarrow> 'a result \<times> connections)
    \<Rightarrow> gsn_handle \<Rightarrow> connections \<Rightarrow> 'a result \<times> gsn_handle \<times> connections" where
  "lock_guard body h cs =
     (if m_locked h then (Inl (Undefined Double_lock), h, cs)
      else case body (h\<lparr>m_locked := True\<rparr>) cs of (r, cs') \<Rightarrow> (r, h\<lparr>m_locked := False\<rparr>, cs'))"

definition resolve_gsn_h ::
  "gsn_db \<Rightarrow> string \<Rightarrow> gsn_handle \<Rightarrow> connections \<Rightarrow> string result \<times> gsn_handle \<times> connections" where
  "resolve_gsn_h db query h cs =
     (if length query = 0 then (Inl (Throw (Metaspace_query_fail ''Empty query'')), h, cs)
      else lock_guard (\<lambda>this cs. case has_outcode query of (found, outcode) \<Rightarrow>
        if found then from_outcode_h db outcode (m_db this) cs else from_county_h db query (m_db this) cs) h cs)"

text \<open>The copy constructor copies the pointer and has a mutex of its own; the destructor closes what the
  pointer leads to.\<close>

definition metaspace_copy :: "gsn_handle \<Rightarrow> gsn_handle" where
  "metaspace_copy orig = \<lparr>m_db = m_db orig, m_locked = False\<rparr>"

definition metaspace_destroy :: "gsn_handle \<Rightarrow> connections \<Rightarrow> connections result" where
  "metaspace_destroy h cs = bindR (sqlite3_close (m_db h) cs) (\<lambda>(closed, cs'). Inr cs')"

fun resolve_all :: "gsn_db \<Rightarrow> string list \<Rightarrow> gsn_handle \<Rightarrow> connections \<Rightarrow> string result list \<times> gsn_handle \<times> connections" where
  "resolve_all db [] h cs = ([], h, cs)"
| "resolve_all db (q # qs) h cs = (case resolve_gsn_h db q h cs of (r, h', cs') \<Rightarrow>
     case resolve_all db qs h' cs' of (rs, x) \<Rightarrow> (r # rs, x))"

section \<open>Results and state\<close>

definition reaches :: "gsn_db \<Rightarrow> string \<Rightarrow> bool" where
  "reaches db q \<longleftrightarrow> q \<noteq> [] \<and> sql_prepare db (if outcode_match q then Select_by_postcode else Select_by_county) = None"

text \<open>Seen from outside the calls are those of \<open>Metaspace_Gsn\<close>, and the mutex is free afterwards.\<close>

lemma resolve_gsn_h_eq:
  assumes "\<not> m_locked h" "cs (m_db h) = Some n"
  shows "resolve_gsn_h db q h cs =
    (resolve_gsn db q, h, if reaches db q then cs(m_db h \<mapsto> n + 1) else cs)"
  using assms by (auto simp: resolve_gsn_h_def resolve_gsn_def lock_guard_def from_outcode_h_def from_county_h_def
      reaches_def has_outcode_def outcode_match_c_str sqlite3_prepare_def simp del: takeWhile.simps split: option.split)

lemma resolve_closed: "q \<noteq> [] \<Longrightarrow> \<not> m_locked h \<Longrightarrow> cs (m_db h) = None \<Longrightarrow>
   fst (resolve_gsn_h db q h cs) = Inl (Undefined Use_after_free)"
  by (simp add: resolve_gsn_h_def lock_guard_def from_outcode_h_def from_county_h_def sqlite3_prepare_def
      split: prod.split)

lemma resolve_all_eq: "\<not> m_locked h \<Longrightarrow> cs (m_db h) = Some n \<Longrightarrow>
   resolve_all db qs h cs =
     (map (resolve_gsn db) qs, h, cs(m_db h \<mapsto> n + length (filter (reaches db) qs)))"
proof (induction qs arbitrary: cs n)
  case Nil
  then show ?case by (simp add: fun_upd_idem)
next
  case (Cons q qs)
  then show ?case by (auto simp: resolve_gsn_h_eq fun_eq_iff)
qed

section \<open>Properties\<close>

text \<open>C40: The database of the node outlives its object: any number of resolutions give the answers of
  the queries one by one and leave the mutex free, also those that throw, but every one that reaches
  the database leaves a compiled statement open; after the first of them no destructor, of the object or of
  a copy made of it, closes the connection. If none has reached the database, the destructor
  closes the connection, and the copy, which holds the same pointer, is then left with a closed one,
  so that destroying it too, or resolving anything with it, is undefined; so it is with the
  two objects destroyed in the other order.\<close>

theorem resolutions_leak_statements:
  assumes "handle_open ptr r cs0 = Inr (db, h, cs)" "resolve_all db qs h cs = (rs, h', cs')"
  defines "copy \<equiv> metaspace_copy h'"
  shows "rs = map (resolve_gsn db) qs \<and> \<not> m_locked h' \<and> cs' = cs0(ptr \<mapsto> length (filter (reaches db) qs))
    \<and> (if \<exists>q \<in> set qs. reaches db q then metaspace_destroy h' cs' = Inr cs' \<and> metaspace_destroy copy cs' = Inr cs'
       else metaspace_destroy h' cs' = Inr (cs0(ptr := None)) \<and> metaspace_destroy copy cs' = Inr (cs0(ptr := None))
         \<and> metaspace_destroy copy (cs0(ptr := None)) = Inl (Undefined Use_after_free)
         \<and> metaspace_destroy h' (cs0(ptr := None)) = Inl (Undefined Use_after_free)
         \<and> (\<forall>q. q = [] \<or> fst (resolve_gsn_h db q copy (cs0(ptr := None))) = Inl (Undefined Use_after_free)))"
proof -
  have o: "h = \<lparr>m_db = ptr, m_locked = False\<rparr>" "cs = cs0(ptr \<mapsto> 0)"
    using assms(1) by (auto simp: handle_open_def bindR_eq_Inr)
  then have s: "rs = map (resolve_gsn db) qs" "h' = h" "cs' = cs0(ptr \<mapsto> length (filter (reaches db) qs))"
    using assms(2) resolve_all_eq [of h cs 0 db qs] by simp_all
  have "(\<exists>q \<in> set qs. reaches db q) \<longleftrightarrow> 0 < length (filter (reaches db) qs)"
    by (auto simp: filter_empty_conv)
  then show ?thesis
    using s o(1) resolve_closed [of _ copy "cs0(ptr := None)" db]
    by (auto simp: metaspace_destroy_def sqlite3_close_def metaspace_copy_def copy_def)
qed

theorem resolutions_leak_statements_witness:
  "\<exists>h cs h' cs'. handle_open 7 (Inr sample_db) Map.empty = Inr (sample_db, h, cs)
    \<and> resolve_all sample_db [''TN37 6XX'', '''', ''nowhere''] h cs =
      ([Inr ''esusx'', Inl (Throw (Metaspace_query_fail ''Empty query'')), Inr []], h', cs')
    \<and> cs' 7 = Some 2 \<and> metaspace_destroy h' cs' = Inr cs'
    \<and> metaspace_destroy h cs = Inr Map.empty
    \<and> metaspace_destroy (metaspace_copy h) Map.empty = Inl (Undefined Use_after_free)"
proof -
  let ?h = "\<lparr>m_db = 7, m_locked = False\<rparr>" and ?cs = "[7 \<mapsto> 0] :: connections"
  let ?qs = "[''TN37 6XX'', '''', ''nowhere'']"
  have o: "handle_open 7 (Inr sample_db) Map.empty = Inr (sample_db, ?h, ?cs)"
    by (simp add: handle_open_def metaspace_open_def)
  obtain rs h' cs' where r: "resolve_all sample_db ?qs ?h ?cs = (rs, h', cs')" by (rule prod_cases3)
  have m: "map (resolve_gsn sample_db) ?qs =
      [Inr ''esusx'', Inl (Throw (Metaspace_query_fail ''Empty query'')), Inr []]" by code_simp
  have "map (reaches sample_db) ?qs = [True, False, True]" by code_simp
  then have "\<exists>q \<in> set ?qs. reaches sample_db q" "length (filter (reaches sample_db) ?qs) = 2" by simp_all
  note q = this
  have "rs = map (resolve_gsn sample_db) ?qs" "cs' = [7 \<mapsto> length (filter (reaches sample_db) ?qs)]"
      "metaspace_destroy h' cs' = Inr cs'"
    using resolutions_leak_statements [OF o r, unfolded if_P [OF q(1)]] by blast+
  with m q(2) have used: "rs = [Inr ''esusx'', Inl (Throw (Metaspace_query_fail ''Empty query'')), Inr []]"
      "cs' 7 = Some 2" "metaspace_destroy h' cs' = Inr cs'" by simp_all
  have "resolve_all sample_db [] ?h ?cs = ([], ?h, ?cs)" by simp
  from resolutions_leak_statements [OF o this] have "metaspace_destroy ?h ?cs = Inr Map.empty"
    "metaspace_destroy (metaspace_copy ?h) Map.empty = Inl (Undefined Use_after_free)" by simp_all
  then show ?thesis using o r used by blast
qed

end
