(* ===== verification/Exceptions.thy ===== *)
theory Exceptions
  imports Prelude
begin

text \<open>
  \<open>shared/include/exceptions.hpp\<close>: an exception object keeps a reference to the string of its
  message, not the string. Strings live in a store; a temporary is created for an argument that is
  not a string yet and destroyed at the end of the full expression that needed it. Every exception
  class is modelled by how its constructor gets its message: from its own macro argument
  (\<open>EXCEPTION_STATIC\<close>) or from its caller (\<open>EXCEPTION\<close>).
\<close>

record string_store =
  objects :: "nat \<Rightarrow> string option"
  fresh :: nat

definition new_string :: "string \<Rightarrow> string_store \<Rightarrow> nat \<times> string_store" where
  "new_string s st = (fresh st, st\<lparr>objects := (objects st)(fresh st \<mapsto> s), fresh := fresh st + 1\<rparr>)"

definition destroy_string :: "nat \<Rightarrow> string_store \<Rightarrow> string_store" where
  "destroy_string r st = st\<lparr>objects := (objects st)(r := None)\<rparr>"

record exception_object =
  m_msg :: nat

definition exception_base :: "nat \<Rightarrow> exception_object" where
  "exception_base m = \<lparr>m_msg = m\<rparr>"

definition what :: "exception_object \<Rightarrow> string_store \<Rightarrow> string result" where
  "what e st = (case objects st (m_msg e) of Some s \<Rightarrow> Inr s | None \<Rightarrow> Inl (Undefined Use_after_free))"

text \<open>\<open>ename() : exception_base(msg)\<close>: the literal becomes a temporary of the initialiser.\<close>

definition exception_static :: "string \<Rightarrow> string_store \<Rightarrow> exception_object \<times> string_store" where
  "exception_static msg st = (case new_string msg st of (r, st') \<Rightarrow>
     (exception_base r, destroy_string r st'))"

text \<open>\<open>ename(const std::string& m) : exception_base(m)\<close>: the reference is passed on.\<close>

definition exception_with :: "nat \<Rightarrow> exception_object" where
  "exception_with m = exception_base m"

text \<open>\<open>throw ename(s)\<close> with a character array: the temporary lives until the exception is thrown.\<close>

definition throw_text :: "string \<Rightarrow> string_store \<Rightarrow> exception_object \<times> string_store" where
  "throw_text s st = (case new_string s st of (r, st') \<Rightarrow> (exception_with r, destroy_string r st'))"

section \<open>Messages\<close>

text \<open>A message can be read while the string it was given lives, and in no other case.\<close>

lemma what_alive: "objects st r = Some s \<Longrightarrow> what (exception_with r) st = Inr s"
  by (simp add: what_def exception_with_def exception_base_def)

lemma what_static: "exception_static msg st = (e, st') \<Longrightarrow> what e st' = Inl (Undefined Use_after_free)"
  by (auto simp: exception_static_def new_string_def exception_base_def destroy_string_def what_def)

lemma what_thrown: "throw_text s st = (e, st') \<Longrightarrow> what e st' = Inl (Undefined Use_after_free)"
  by (auto simp: throw_text_def new_string_def exception_with_def exception_base_def destroy_string_def what_def)

text \<open>Nothing the program does later brings the message back: an identity is never reused.\<close>

lemma new_string_keeps: "r < fresh st \<Longrightarrow> objects (snd (new_string s st)) r = objects st r"
  by (simp add: new_string_def)

lemma dangling_for_good:
  "m_msg e < fresh st \<Longrightarrow> what e st = Inl (Undefined Use_after_free) \<Longrightarrow>
   what e (snd (new_string s st)) = Inl (Undefined Use_after_free)
   \<and> what e (destroy_string r st) = Inl (Undefined Use_after_free)"
  by (auto simp: what_def new_string_keeps destroy_string_def split: option.splits)

end
