(* ===== verification/Activity.thy ===== *)
theory Activity
  imports Prelude "HOL-Library.Signed_Division"
begin

text \<open>
  \<open>shared/activity/activity.cpp\<close> and \<open>activity.hpp\<close>: a record of the activity log, its digest
  and its representation. SHA-512 is OpenSSL's, so it is the parameter \<open>sha\<close>; the code relies on
  its digests having 64 bytes (\<open>sha_ok\<close>). The header is copied byte for byte, with the four bytes
  of padding after \<open>type\<close>; the default constructor leaves them as it finds them (parameter
  \<open>pad\<close>). Memory that runs out is not modelled.
\<close>

datatype activity_type = At_undefined | At_root_verify | At_org_verify | At_trusted_verify | At_training

fun activity_type_val :: "activity_type \<Rightarrow> 32 word" where
  "activity_type_val At_undefined = 0"
| "activity_type_val At_root_verify = 1"
| "activity_type_val At_org_verify = 2"
| "activity_type_val At_trusted_verify = 3"
| "activity_type_val At_training = 4"

record activity_header =
  ah_hash :: bytes
  ah_timestamp :: "64 word"
  ah_type :: "32 word"
  ah_pad :: bytes
  ah_msg_size :: "64 word"
  ah_signature :: bytes

record activity =
  act_header :: activity_header
  act_content :: string

section \<open>The representation of a header\<close>

definition hash_size :: nat where "hash_size = 64"

definition sizeof_activity_header :: nat where "sizeof_activity_header = 344"

definition activity_header_bytes :: "activity_header \<Rightarrow> bytes" where
  "activity_header_bytes h = ah_hash h @ word_bytes 8 (ah_timestamp h) @ word_bytes 4 (ah_type h)
     @ ah_pad h @ word_bytes 8 (ah_msg_size h) @ ah_signature h"

definition bytes_activity_header :: "bytes \<Rightarrow> activity_header" where
  "bytes_activity_header s = \<lparr>ah_hash = take 64 s, ah_timestamp = bytes_word (take 8 (drop 64 s)),
     ah_type = bytes_word (take 4 (drop 72 s)), ah_pad = take 4 (drop 76 s),
     ah_msg_size = bytes_word (take 8 (drop 80 s)), ah_signature = take 256 (drop 88 s)\<rparr>"

section \<open>Operations\<close>

definition activity_header_default :: "bytes \<Rightarrow> activity_header" where
  "activity_header_default pad = \<lparr>ah_hash = replicate 64 NUL, ah_timestamp = 0,
     ah_type = activity_type_val At_undefined, ah_pad = pad, ah_msg_size = 0,
     ah_signature = replicate 256 NUL\<rparr>"

definition activity_default :: "bytes \<Rightarrow> activity" where
  "activity_default pad = \<lparr>act_header = activity_header_default pad, act_content = []\<rparr>"

definition activity_content :: "activity \<Rightarrow> string" where
  "activity_content r = act_content r"

definition activity_head :: "activity \<Rightarrow> activity_header" where
  "activity_head r = act_header r"

definition activity_size :: "activity \<Rightarrow> nat" where
  "activity_size a = sizeof_activity_header + length (act_content a)"

definition activity_size_partial :: "activity \<Rightarrow> nat" where
  "activity_size_partial a = activity_size a - hash_size"

definition activity_serialise :: "activity \<Rightarrow> bytes" where
  "activity_serialise a = activity_header_bytes (act_header a) @ act_content a"

definition activity_serialise_partial :: "activity \<Rightarrow> bytes" where
  "activity_serialise_partial a =
     drop hash_size (activity_header_bytes (act_header a)) @ act_content a"

text \<open>\<open>deserialise\<close> at an offset of a block; \<open>std::string::assign\<close> refuses a length above
  \<open>max_size\<close>.\<close>

definition string_max_size :: nat where "string_max_size = 2 ^ 63 - 1"

definition activity_deserialise :: "bytes \<Rightarrow> nat \<Rightarrow> activity result" where
  "activity_deserialise serial off =
     bindR (read_obj bytes_activity_header sizeof_activity_header serial off) (\<lambda>hdr.
       if string_max_size < unat (ah_msg_size hdr) then Inl (Throw Std_length_error)
       else bindR (read_mem serial (off + sizeof_activity_header) (unat (ah_msg_size hdr))) (\<lambda>msg.
         Inr \<lparr>act_header = hdr, act_content = msg\<rparr>))"

definition with_hash :: "bytes \<Rightarrow> activity \<Rightarrow> activity" where
  "with_hash d a = a\<lparr>act_header := (act_header a)\<lparr>ah_hash := d\<rparr>\<rparr>"

definition partial_hash :: "(bytes \<Rightarrow> bytes) \<Rightarrow> activity \<Rightarrow> activity" where
  "partial_hash sha a = with_hash (sha (activity_serialise_partial a)) a"

definition rehash :: "(bytes \<Rightarrow> bytes) \<Rightarrow> bytes \<Rightarrow> activity \<Rightarrow> activity" where
  "rehash sha salt a = with_hash (sha (activity_serialise (with_hash salt a))) a"

definition with_msg :: "activity_header \<Rightarrow> string \<Rightarrow> activity" where
  "with_msg hdr msg = \<lparr>act_header = hdr\<lparr>ah_msg_size := word_of_nat (length msg)\<rparr>, act_content = msg\<rparr>"

text \<open>The constructors. The one without content and salt keeps the header's \<open>msg_size\<close>.\<close>

definition activity_of_header :: "(bytes \<Rightarrow> bytes) \<Rightarrow> activity_header \<Rightarrow> activity" where
  "activity_of_header sha hdr = partial_hash sha \<lparr>act_header = hdr, act_content = []\<rparr>"

definition activity_of_content :: "(bytes \<Rightarrow> bytes) \<Rightarrow> activity_header \<Rightarrow> string \<Rightarrow> activity" where
  "activity_of_content sha hdr msg = partial_hash sha (with_msg hdr msg)"

definition activity_salted_content ::
  "(bytes \<Rightarrow> bytes) \<Rightarrow> activity_header \<Rightarrow> string \<Rightarrow> bytes \<Rightarrow> activity" where
  "activity_salted_content sha hdr msg salt = rehash sha salt (with_msg hdr msg)"

definition activity_salted :: "(bytes \<Rightarrow> bytes) \<Rightarrow> activity_header \<Rightarrow> bytes \<Rightarrow> activity" where
  "activity_salted sha hdr salt = rehash sha salt (with_msg hdr [])"

text \<open>\<open>get_timestamp\<close>: the clock's ticks in seconds. The ticks, and the numerator and denominator of
  the clock's period, are the platform's.\<close>

definition get_timestamp :: "int \<Rightarrow> int \<Rightarrow> int \<Rightarrow> int result" where
  "get_timestamp num den ticks =
     (let n = ticks * num in
      if n < - (2 ^ 63) \<or> 2 ^ 63 \<le> n then Inl (Undefined Signed_overflow) else Inr (n sdiv den))"

text \<open>With a period of the form 1/den the result is in range and counts whole seconds since 1970.\<close>

lemma get_timestamp_seconds:
  assumes "0 < den" "0 \<le> ticks" "ticks < 2 ^ 63"
  shows "\<exists>s. get_timestamp 1 den ticks = Inr s \<and> 0 \<le> s \<and> s * den \<le> ticks \<and> ticks < (s + 1) * den"
proof -
  have "get_timestamp 1 den ticks = Inr (ticks div den)"
    using assms by (simp add: get_timestamp_def signed_divide_int_def sgn_if)
  moreover have "ticks div den * den + ticks mod den = ticks" "0 \<le> ticks mod den" "ticks mod den < den"
    using assms(1) by simp_all
  then have "ticks div den * den \<le> ticks" "ticks < (ticks div den + 1) * den"
    unfolding distrib_right by linarith+
  ultimately show ?thesis using assms by (auto simp: pos_imp_zdiv_nonneg_iff)
qed

section \<open>Well-formed records\<close>

definition sha_ok :: "(bytes \<Rightarrow> bytes) \<Rightarrow> bool" where
  "sha_ok sha \<longleftrightarrow> (\<forall>x. length (sha x) = hash_size)"

definition header_wf :: "activity_header \<Rightarrow> bool" where
  "header_wf h \<longleftrightarrow> length (ah_hash h) = 64 \<and> length (ah_pad h) = 4 \<and> length (ah_signature h) = 256"

text \<open>The content has the length the header says.\<close>

definition activity_wf :: "activity \<Rightarrow> bool" where
  "activity_wf a \<longleftrightarrow> header_wf (act_header a) \<and> length (act_content a) = unat (ah_msg_size (act_header a))
     \<and> length (act_content a) \<le> string_max_size"

lemma length_activity_header_bytes [layout]:
  "header_wf h \<Longrightarrow> length (activity_header_bytes h) = sizeof_activity_header"
  by (simp add: header_wf_def activity_header_bytes_def sizeof_activity_header_def)

lemma bytes_activity_header_bytes: "header_wf h \<Longrightarrow> bytes_activity_header (activity_header_bytes h) = h"
  by (simp add: header_wf_def activity_header_bytes_def bytes_activity_header_def)

interpretation activity_header_codec: byte_codec activity_header_bytes bytes_activity_header
    sizeof_activity_header header_wf
  by unfold_locales (simp_all add: layout bytes_activity_header_bytes)

lemma header_wf_default: "length pad = 4 \<Longrightarrow> header_wf (activity_header_default pad)"
  by (simp add: header_wf_def activity_header_default_def)

lemma header_wf_msg_size [simp]: "header_wf (h\<lparr>ah_msg_size := z\<rparr>) = header_wf h"
  by (simp add: header_wf_def)

lemma with_hash_wf: "length d = hash_size \<Longrightarrow> activity_wf a \<Longrightarrow> activity_wf (with_hash d a)"
  by (simp add: activity_wf_def header_wf_def with_hash_def hash_size_def)

lemma with_msg_wf: "header_wf h \<Longrightarrow> length msg \<le> string_max_size \<Longrightarrow> activity_wf (with_msg h msg)"
  by (simp add: activity_wf_def with_msg_def string_max_size_def unat_of_nat)

lemma salted_wf:
  "sha_ok sha \<Longrightarrow> header_wf h \<Longrightarrow> length msg \<le> string_max_size \<Longrightarrow>
     activity_wf (activity_salted_content sha h msg salt)"
  "sha_ok sha \<Longrightarrow> header_wf h \<Longrightarrow> activity_wf (activity_salted sha h salt)"
  "sha_ok sha \<Longrightarrow> header_wf h \<Longrightarrow> length msg \<le> string_max_size \<Longrightarrow> activity_wf (activity_of_content sha h msg)"
  by (simp_all add: activity_salted_content_def activity_salted_def activity_of_content_def
      rehash_def partial_hash_def with_hash_wf with_msg_wf sha_ok_def)

lemma salted_nil: "activity_salted sha h salt = activity_salted_content sha h [] salt"
  by (simp add: activity_salted_def activity_salted_content_def)

section \<open>Serialisation\<close>

lemma length_activity_serialise: "activity_wf a \<Longrightarrow> length (activity_serialise a) = activity_size a"
  by (simp add: activity_serialise_def activity_size_def activity_wf_def layout)

lemma length_activity_serialise_partial:
  "activity_wf a \<Longrightarrow> length (activity_serialise_partial a) = activity_size_partial a"
  by (simp add: activity_serialise_partial_def activity_size_partial_def activity_size_def
      activity_wf_def layout sizeof_activity_header_def hash_size_def)

lemma activity_deserialise_at:
  assumes "activity_wf a"
  shows "activity_deserialise (pre @ activity_serialise a @ rest) (length pre) = Inr a"
proof -
  have h: "header_wf (act_header a)" "length (act_content a) = unat (ah_msg_size (act_header a))"
    using assms by (auto simp: activity_wf_def)
  have "read_obj bytes_activity_header sizeof_activity_header (pre @ activity_serialise a @ rest) (length pre)
      = Inr (act_header a)"
    using activity_header_codec.read_at [OF h(1), of pre "act_content a @ rest"]
    by (simp add: activity_serialise_def)
  moreover have "read_mem (pre @ activity_serialise a @ rest) (length pre + sizeof_activity_header)
      (unat (ah_msg_size (act_header a))) = Inr (act_content a)"
    using h by (simp add: activity_serialise_def layout)
  ultimately show ?thesis using assms by (simp add: activity_deserialise_def activity_wf_def)
qed

text \<open>Well-formed records are told apart by their bytes, also at the front of a longer block.\<close>

lemma activity_serialise_inject:
  assumes "activity_wf a" "activity_wf b" "activity_serialise a @ r = activity_serialise b @ s"
  shows "a = b \<and> r = s"
proof -
  have "Inr a = (Inr b :: activity result)"
    using activity_deserialise_at [OF assms(1), of "[]" r] activity_deserialise_at [OF assms(2), of "[]" s]
      assms(3) by simp
  then show ?thesis using assms(3) by simp
qed

lemma concat_serialise_inject:
  "list_all activity_wf xs \<Longrightarrow> list_all activity_wf ys \<Longrightarrow>
   concat (map activity_serialise xs) = concat (map activity_serialise ys) \<Longrightarrow> xs = ys"
proof (induction xs arbitrary: ys)
  case Nil
  then show ?case
    by (cases ys) (auto dest!: length_activity_serialise simp: activity_size_def sizeof_activity_header_def)
next
  case (Cons x xs)
  show ?case
  proof (cases ys)
    case Nil
    with Cons.prems show ?thesis
      by (auto dest!: length_activity_serialise simp: activity_size_def sizeof_activity_header_def)
  next
    case (Cons y zs)
    with Cons.prems activity_serialise_inject [of x y "concat (map activity_serialise xs)"
        "concat (map activity_serialise zs)"] Cons.IH [of zs]
    show ?thesis by simp
  qed
qed

text \<open>A header that announces content, given to the constructor without content: reading its
  bytes back runs past their end.\<close>

lemma of_header_overread:
  assumes "sha_ok sha" "header_wf h" "0 < unat (ah_msg_size h)" "unat (ah_msg_size h) \<le> string_max_size"
  shows "activity_deserialise (activity_serialise (activity_of_header sha h)) 0 = Inl (Undefined Oob_read)"
proof -
  let ?a = "activity_of_header sha h"
  have a: "act_content ?a = []" "ah_msg_size (act_header ?a) = ah_msg_size h" "header_wf (act_header ?a)"
    using assms(1,2) by (simp_all add: activity_of_header_def partial_hash_def with_hash_def
        header_wf_def sha_ok_def hash_size_def)
  have "read_obj bytes_activity_header sizeof_activity_header (activity_serialise ?a) 0 = Inr (act_header ?a)"
    using activity_header_codec.read_front [OF a(3), of "[]"] a(1) by (simp add: activity_serialise_def)
  moreover have "length (activity_serialise ?a) = sizeof_activity_header"
    using a by (simp add: activity_serialise_def layout)
  ultimately show ?thesis using assms(3,4) a(2) by (simp add: activity_deserialise_def)
qed

end
