(* ===== verification/Crypto.thy ===== *)
theory Crypto
  imports Activity Protocol_Common
begin

text \<open>
  \<open>shared/crypto.cpp\<close> and \<open>crypto.hpp\<close>. OpenSSL's SHA-512 is a parameter, its three functions over
  a context; \<open>hash_sha512\<close> hands it the given number of bytes of a block. \<open>sha_string\<close> prints a
  digest as a stream does it: each byte as a hexadecimal number, filled up to two places.
\<close>

record 'c sha512_lib =
  sha512_init :: 'c
  sha512_update :: "'c \<Rightarrow> bytes \<Rightarrow> 'c"
  sha512_final :: "'c \<Rightarrow> bytes"

definition hash_sha512 :: "'c sha512_lib \<Rightarrow> bytes \<Rightarrow> nat \<Rightarrow> bytes result" where
  "hash_sha512 lib data n = bindR (read_mem data 0 n) (\<lambda>d.
     Inr (sha512_final lib (sha512_update lib (sha512_init lib) d)))"

text \<open>\<open>std::hex\<close>, \<open>std::setw\<close> and \<open>std::setfill\<close> for one number.\<close>

fun hex_number :: "nat \<Rightarrow> string" where
  "hex_number n = (if n < 16 then [hex_char n] else hex_number (n div 16) @ [hex_char (n mod 16)])"

declare hex_number.simps [simp del]

definition padded :: "nat \<Rightarrow> char \<Rightarrow> string \<Rightarrow> string" where
  "padded w c s = replicate (w - length s) c @ s"

definition sha_string :: "bytes \<Rightarrow> string" where
  "sha_string hash = concat (map (\<lambda>ch. padded 2 CHR ''0'' (hex_number (of_char ch))) hash)"

section \<open>The digest of a block\<close>

text \<open>The parameter \<open>sha\<close> of the activity log is this function on whole blocks.\<close>

definition sha_of :: "'c sha512_lib \<Rightarrow> bytes \<Rightarrow> bytes" where
  "sha_of lib x = sha512_final lib (sha512_update lib (sha512_init lib) x)"

lemma hash_sha512_block: "hash_sha512 lib x (length x) = Inr (sha_of lib x)"
  by (simp add: hash_sha512_def sha_of_def)

lemma hash_sha512_overread: "length x < n \<Longrightarrow> hash_sha512 lib x n = Inl (Undefined Oob_read)"
  by (simp add: hash_sha512_def)

text \<open>A record's digest is that of its bytes without the digest: the size the code passes is theirs.\<close>

lemma partial_hash_digest: "activity_wf a \<Longrightarrow>
  hash_sha512 lib (activity_serialise_partial a) (activity_size_partial a) =
    Inr (ah_hash (act_header (partial_hash (sha_of lib) a)))"
  using length_activity_serialise_partial [of a] hash_sha512_block [of lib "activity_serialise_partial a"]
  by (simp add: partial_hash_def with_hash_def)

section \<open>The text of a digest\<close>

lemma padded_hex: "padded 2 CHR ''0'' (hex_number (of_char ch)) =
    [hex_char (of_char ch div 16), hex_char (of_char ch mod 16)]"
proof (cases "(of_char ch :: nat) < 16")
  case True
  have z: "CHR ''0'' = (char_of (48 :: nat) :: char)" by code_simp
  from True show ?thesis by (simp add: z padded_def hex_number.simps [of "of_char ch"] hex_char_def)
next
  case False
  have "of_char ch div 16 < (16 :: nat)" using nat_of_char_less_256 [of ch] by (simp add: less_mult_imp_div_less)
  with False show ?thesis
    by (simp add: padded_def hex_number.simps [of "of_char ch"] hex_number.simps [of "of_char ch div 16"])
qed

lemma sha_string_hex: "sha_string hash = hex_encode hash"
  by (induction hash) (simp_all add: sha_string_def padded_hex)

lemma length_sha_string: "length (sha_string hash) = 2 * length hash"
  by (simp add: sha_string_hex)

lemma sha_string_decodes: "stops_hex stk \<Longrightarrow> hex_loop stk (length hash) (sha_string hash) [] = Inr hash"
  using hex_loop_encode [of stk "[]" hash] by (simp add: sha_string_hex)

lemma sha_string_inject: "sha_string x = sha_string y \<longleftrightarrow> x = y"
proof
  assume eq: "sha_string x = sha_string y"
  then have "length x = length y" using length_sha_string by (metis nat_mult_eq_cancel1 zero_less_numeral)
  moreover have "stops_hex [NUL]" by (simp add: stops_hex_def hex_digit_def)
  ultimately show "x = y" using eq sha_string_decodes [of "[NUL]"] by (metis sum.inject(2))
qed simp

end
