(* ===== verification/Log_Segment.thy ===== *)
theory Log_Segment
  imports Activity
begin

text \<open>
  \<open>shared/activity/log_segment.cpp\<close> and \<open>log_utility.hpp\<close>: the header of a log and a segment of
  a log, the part that is sent to another node. \<open>num_records\<close> is a signed 32-bit counter.
\<close>

record log_header =
  num_records :: "32 word"
  lh_hash :: bytes

record log_segment =
  sg_header :: log_header
  sg_records :: "activity list"

definition sizeof_log_header :: nat where "sizeof_log_header = 68"

definition log_header_default :: log_header where
  "log_header_default = \<lparr>num_records = 0, lh_hash = replicate 64 NUL\<rparr>"

definition log_header_bytes :: "log_header \<Rightarrow> bytes" where
  "log_header_bytes h = word_bytes 4 (num_records h) @ lh_hash h"

definition bytes_log_header :: "bytes \<Rightarrow> log_header" where
  "bytes_log_header s = \<lparr>num_records = bytes_word (take 4 s), lh_hash = take 64 (drop 4 s)\<rparr>"

text \<open>The sum of the sizes of the records, and their bytes one after the other.\<close>

definition records_size :: "activity list \<Rightarrow> nat" where
  "records_size rs = sum_list (map activity_size rs)"

definition records_bytes :: "activity list \<Rightarrow> bytes" where
  "records_bytes rs = concat (map activity_serialise rs)"

definition log_segment_of :: "bytes \<Rightarrow> activity list \<Rightarrow> log_segment" where
  "log_segment_of hash segment =
     \<lparr>sg_header = \<lparr>num_records = word_of_nat (length segment), lh_hash = hash\<rparr>, sg_records = segment\<rparr>"

definition log_segment_copy :: "log_segment \<Rightarrow> log_segment" where
  "log_segment_copy orig = \<lparr>sg_header = sg_header orig, sg_records = sg_records orig\<rparr>"

definition segment_header :: "log_segment \<Rightarrow> log_header" where
  "segment_header s = sg_header s"

text \<open>The iterators, \<open>begin\<close> and \<open>cbegin\<close>, \<open>end\<close> and \<open>cend\<close>, as indices.\<close>

definition segment_begin :: "log_segment \<Rightarrow> nat" where
  "segment_begin s = 0"

definition segment_end :: "log_segment \<Rightarrow> nat" where
  "segment_end s = length (sg_records s)"

definition segment_log_size :: "log_segment \<Rightarrow> nat" where
  "segment_log_size s = sizeof_log_header + records_size (sg_records s)"

definition segment_size :: "log_segment \<Rightarrow> nat" where
  "segment_size s = length (sg_records s)"

definition segment_serialise :: "log_segment \<Rightarrow> bytes" where
  "segment_serialise s = log_header_bytes (sg_header s) @ records_bytes (sg_records s)"

text \<open>The records are read one after the other; a negative count reads none.\<close>

fun read_records :: "nat \<Rightarrow> bytes \<Rightarrow> nat \<Rightarrow> activity list \<Rightarrow> activity list result" where
  "read_records 0 serial off rs = Inr rs"
| "read_records (Suc k) serial off rs =
     bindR (activity_deserialise serial off) (\<lambda>a.
       read_records k serial (off + activity_size a) (rs @ [a]))"

definition log_segment_of_serial :: "bytes \<Rightarrow> log_segment result" where
  "log_segment_of_serial serial =
     bindR (read_obj bytes_log_header sizeof_log_header serial 0) (\<lambda>hdr.
     bindR (read_records (nat (sint (num_records hdr))) serial sizeof_log_header []) (\<lambda>rs.
       Inr \<lparr>sg_header = hdr, sg_records = rs\<rparr>))"

section \<open>The round trip\<close>

interpretation log_header_codec: byte_codec log_header_bytes bytes_log_header sizeof_log_header
    "\<lambda>h. length (lh_hash h) = 64"
  by unfold_locales (simp_all add: log_header_bytes_def bytes_log_header_def sizeof_log_header_def)

definition segment_wf :: "log_segment \<Rightarrow> bool" where
  "segment_wf s \<longleftrightarrow> length (lh_hash (sg_header s)) = 64 \<and> list_all activity_wf (sg_records s)
     \<and> sint (num_records (sg_header s)) = int (length (sg_records s))"

lemma records_bytes_simps [simp]:
  "records_bytes [] = []" "records_bytes (r # rs) = activity_serialise r @ records_bytes rs"
  "records_bytes (rs @ ss) = records_bytes rs @ records_bytes ss"
  by (simp_all add: records_bytes_def)

lemma records_size_simps [simp]:
  "records_size [] = 0" "records_size (r # rs) = activity_size r + records_size rs"
  by (simp_all add: records_size_def)

lemma length_records_bytes: "list_all activity_wf rs \<Longrightarrow> length (records_bytes rs) = records_size rs"
  by (induction rs) (simp_all add: length_activity_serialise)

lemma length_segment_serialise: "segment_wf s \<Longrightarrow> length (segment_serialise s) = segment_log_size s"
  by (simp add: segment_serialise_def segment_log_size_def segment_wf_def length_records_bytes
      log_header_codec.enc_length)

lemma read_records_bytes:
  "list_all activity_wf rs \<Longrightarrow>
   read_records (length rs) (pre @ records_bytes rs @ rest) (length pre) acc = Inr (acc @ rs)"
proof (induction rs arbitrary: pre acc)
  case (Cons r rs)
  then have r: "activity_wf r" "list_all activity_wf rs" by simp_all
  have "read_records (length rs) ((pre @ activity_serialise r) @ records_bytes rs @ rest)
      (length (pre @ activity_serialise r)) (acc @ [r]) = Inr ((acc @ [r]) @ rs)"
    by (rule Cons.IH [OF r(2)])
  then show ?case
    using activity_deserialise_at [OF r(1), of pre "records_bytes rs @ rest"]
    by (simp add: length_activity_serialise [OF r(1)])
qed simp

lemma segment_range: "map ((!) (sg_records s)) [segment_begin s..<segment_end s] = sg_records s"
  by (simp add: segment_begin_def segment_end_def map_nth)

lemma segment_roundtrip:
  assumes "segment_wf s"
  shows "log_segment_of_serial (segment_serialise s @ rest) = Inr s"
proof -
  have h: "length (lh_hash (sg_header s)) = 64" using assms by (simp add: segment_wf_def)
  have "read_records (length (sg_records s)) (log_header_bytes (sg_header s) @ records_bytes (sg_records s) @ rest)
      (length (log_header_bytes (sg_header s))) [] = Inr ([] @ sg_records s)"
    by (rule read_records_bytes) (use assms in \<open>simp add: segment_wf_def\<close>)
  then show ?thesis
    using log_header_codec.read_front [OF h] assms
    by (simp add: log_segment_of_serial_def segment_serialise_def segment_wf_def
        log_header_codec.enc_length h)
qed

lemma sint_small: "n < 2 ^ 31 \<Longrightarrow> sint (word_of_nat n :: 32 word) = int n"
  by (simp add: signed_of_nat signed_take_bit_int_eq_self)

lemma log_segment_of_wf:
  "length h = 64 \<Longrightarrow> list_all activity_wf rs \<Longrightarrow> length rs < 2 ^ 31 \<Longrightarrow> segment_wf (log_segment_of h rs)"
  by (simp add: segment_wf_def log_segment_of_def sint_small)

section \<open>Properties\<close>

definition sample_sha :: "bytes \<Rightarrow> bytes" where
  "sample_sha x = take 64 (x @ replicate 64 NUL)"

lemma sample_sha_ok: "sha_ok sample_sha"
  by (simp add: sha_ok_def sample_sha_def hash_size_def min_def)

definition sample_ah :: activity_header where
  "sample_ah = activity_header_default (replicate 4 NUL)"

lemma sample_ah_wf: "header_wf sample_ah"
  unfolding sample_ah_def by (rule header_wf_default) simp

definition sample_record :: "string \<Rightarrow> activity" where
  "sample_record msg = activity_of_content sample_sha sample_ah msg"

lemma sample_record_wf: "length msg \<le> string_max_size \<Longrightarrow> activity_wf (sample_record msg)"
  unfolding sample_record_def by (rule salted_wf(3) [OF sample_sha_ok sample_ah_wf])

text \<open>C39: A segment whose header counts its records, with records whose headers give the length of
  their contents, serialises to \<open>log_size()\<close> bytes, and reading those bytes back, whatever follows
  them, gives the segment: header, number of records and every record.\<close>

theorem segment_serial_roundtrip:
  assumes "segment_wf s"
  shows "length (segment_serialise s) = segment_log_size s
    \<and> log_segment_of_serial (segment_serialise s @ rest) = Inr s"
  using length_segment_serialise [OF assms] segment_roundtrip [OF assms] by simp

theorem segment_serial_roundtrip_witness:
  "log_segment_of_serial (segment_serialise (log_segment_of (replicate 64 NUL) [sample_record ''a'', sample_record ''b''])
     @ ''x'') = Inr (log_segment_of (replicate 64 NUL) [sample_record ''a'', sample_record ''b''])"
proof -
  have "segment_wf (log_segment_of (replicate 64 NUL) [sample_record ''a'', sample_record ''b''])"
    by (rule log_segment_of_wf) (simp_all add: sample_record_wf string_max_size_def)
  from segment_serial_roundtrip [OF this] show ?thesis by simp
qed

end
