(* ===== verification/Log_Transaction.thy ===== *)
theory Log_Transaction
  imports Log_Segment
begin

text \<open>
  \<open>shared/activity/log_transaction.cpp\<close>: reading and writing a log through a transaction. The
  object holds references to the log's records and header and the flag \<open>m_valid\<close>; every operation
  is modelled as a function of the flag and the log. Beginning, moving and ending a transaction
  are in \<open>Activity_Log\<close>.
\<close>

record activity_log =
  al_header :: log_header
  al_records :: "activity list"
  al_transacting :: bool
  al_locked :: bool

abbreviation rec_hash :: "activity \<Rightarrow> bytes" where "rec_hash r \<equiv> ah_hash (act_header r)"

definition is_valid :: "bool \<Rightarrow> 'a result \<Rightarrow> 'a result" where
  "is_valid v m = (if v then m else Inl (Throw Transaction_invalid_state))"

section \<open>Reading\<close>

definition tx_header :: "bool \<Rightarrow> activity_log \<Rightarrow> log_header result" where
  "tx_header v l = is_valid v (Inr (al_header l))"

definition tx_size :: "bool \<Rightarrow> activity_log \<Rightarrow> nat result" where
  "tx_size v l = is_valid v (Inr (length (al_records l)))"

definition tx_back :: "bool \<Rightarrow> activity_log \<Rightarrow> activity result" where
  "tx_back v l = is_valid v (if al_records l = [] then Inl (Undefined Empty_container)
     else Inr (last (al_records l)))"

definition tx_front :: "bool \<Rightarrow> activity_log \<Rightarrow> activity result" where
  "tx_front v l = is_valid v (if al_records l = [] then Inl (Undefined Empty_container)
     else Inr (hd (al_records l)))"

text \<open>Iterators are indices; making one checks the flag.\<close>

definition tx_cbegin :: "bool \<Rightarrow> activity_log \<Rightarrow> nat result" where
  "tx_cbegin v l = is_valid v (Inr 0)"

definition tx_begin :: "bool \<Rightarrow> activity_log \<Rightarrow> nat result" where
  "tx_begin v l = is_valid v (Inr 0)"

definition tx_cend :: "bool \<Rightarrow> activity_log \<Rightarrow> nat result" where
  "tx_cend v l = is_valid v (Inr (length (al_records l)))"

definition tx_end :: "bool \<Rightarrow> activity_log \<Rightarrow> nat result" where
  "tx_end v l = is_valid v (Inr (length (al_records l)))"

definition read_record :: "bool \<Rightarrow> bytes \<Rightarrow> activity_log \<Rightarrow> activity result" where
  "read_record v hash l = is_valid v (case List.find (\<lambda>act. rec_hash act = hash) (al_records l) of
     Some act \<Rightarrow> Inr act
   | None \<Rightarrow> Inl (Throw (Transaction_read_fail ''Record does not exist'')))"

definition log_size :: "bool \<Rightarrow> activity_log \<Rightarrow> nat result" where
  "log_size v l = is_valid v (Inr (sizeof_log_header + records_size (al_records l)))"

definition log_size_partial :: "bool \<Rightarrow> activity_log \<Rightarrow> nat result" where
  "log_size_partial v l = is_valid v (Inr (records_size (al_records l)))"

definition tx_serialise :: "bool \<Rightarrow> activity_log \<Rightarrow> bytes result" where
  "tx_serialise v l = is_valid v (Inr (log_header_bytes (al_header l) @ records_bytes (al_records l)))"

definition tx_serialise_partial :: "bool \<Rightarrow> activity_log \<Rightarrow> bytes result" where
  "tx_serialise_partial v l = is_valid v (Inr (records_bytes (al_records l)))"

definition log_hash :: "(bytes \<Rightarrow> bytes) \<Rightarrow> bool \<Rightarrow> activity_log \<Rightarrow> bytes result" where
  "log_hash sha v l = is_valid v (bindR (tx_serialise_partial v l) (\<lambda>serial. Inr (sha serial)))"

definition log_verification :: "(bytes \<Rightarrow> bytes) \<Rightarrow> bool \<Rightarrow> activity_log \<Rightarrow> bool result" where
  "log_verification sha v l = is_valid v (bindR (log_hash sha v l) (\<lambda>hash.
     Inr (hash = lh_hash (al_header l))))"

definition head_verification ::
  "(bytes \<Rightarrow> bytes) \<Rightarrow> bool \<Rightarrow> activity \<Rightarrow> activity_log \<Rightarrow> bool result" where
  "head_verification sha v r l = is_valid v (bindR (tx_back v l) (\<lambda>back.
     let check = activity_salted_content sha (act_header r) (act_content r) (rec_hash back) in
     Inr (rec_hash check = rec_hash r)))"

section \<open>Generating\<close>

definition tx_generate_header :: "bytes \<Rightarrow> bool \<Rightarrow> activity_header result" where
  "tx_generate_header pad v = is_valid v (Inr (activity_header_default pad))"

definition generate_record ::
  "(bytes \<Rightarrow> bytes) \<Rightarrow> bool \<Rightarrow> activity_header \<Rightarrow> activity_log \<Rightarrow> activity result" where
  "generate_record sha v hdr l = is_valid v (bindR (tx_size v l) (\<lambda>n.
     if n = 0 then Inr (activity_of_header sha hdr)
     else bindR (tx_back v l) (\<lambda>back. Inr (activity_salted sha hdr (rec_hash back)))))"

definition generate_record_content ::
  "(bytes \<Rightarrow> bytes) \<Rightarrow> bool \<Rightarrow> activity_header \<Rightarrow> string \<Rightarrow> activity_log \<Rightarrow> activity result" where
  "generate_record_content sha v hdr content l = is_valid v (bindR (tx_size v l) (\<lambda>n.
     if n = 0 then Inr (activity_of_content sha hdr content)
     else bindR (tx_back v l) (\<lambda>back.
       Inr (activity_salted_content sha hdr content (rec_hash back)))))"

section \<open>Writing\<close>

definition push_record :: "activity \<Rightarrow> activity_log \<Rightarrow> activity_log" where
  "push_record r l = l\<lparr>al_records := al_records l @ [r]\<rparr>"

definition count_record :: "activity_log \<Rightarrow> activity_log result" where
  "count_record l = (let h = al_header l in
     if sint (num_records h) = 2 ^ 31 - 1 then Inl (Undefined Signed_overflow)
     else Inr (l\<lparr>al_header := h\<lparr>num_records := num_records h + 1\<rparr>\<rparr>))"

definition rewrite_log_hash :: "(bytes \<Rightarrow> bytes) \<Rightarrow> bool \<Rightarrow> activity_log \<Rightarrow> activity_log result" where
  "rewrite_log_hash sha v l = bindR (log_hash sha v l) (\<lambda>hash.
     Inr (l\<lparr>al_header := (al_header l)\<lparr>lh_hash := hash\<rparr>\<rparr>))"

definition write_record ::
  "(bytes \<Rightarrow> bytes) \<Rightarrow> bool \<Rightarrow> activity \<Rightarrow> activity_log \<Rightarrow> activity_log result" where
  "write_record sha v r l = is_valid v (
     bindR (rewrite_log_hash sha v (push_record r l)) count_record)"

fun write_records :: "activity list \<Rightarrow> activity_log \<Rightarrow> activity_log result" where
  "write_records [] l = Inr l"
| "write_records (r # rs) l = bindR (count_record (push_record r l)) (write_records rs)"

definition write_segment ::
  "(bytes \<Rightarrow> bytes) \<Rightarrow> bool \<Rightarrow> log_segment \<Rightarrow> activity_log \<Rightarrow> activity_log result" where
  "write_segment sha v segment l = is_valid v (
     bindR (write_records (sg_records segment) l) (rewrite_log_hash sha v))"

text \<open>The records after the first one with the hash; the flag says that it was there.\<close>

fun collect_from :: "bytes \<Rightarrow> activity list \<Rightarrow> bool \<Rightarrow> activity list \<Rightarrow> activity list \<times> bool" where
  "collect_from hash [] inc c = (c, inc)"
| "collect_from hash (r # rs) inc c =
     collect_from hash rs (rec_hash r = hash \<or> inc) (if inc then c @ [r] else c)"

definition segment_from :: "bool \<Rightarrow> bytes \<Rightarrow> activity_log \<Rightarrow> log_segment result" where
  "segment_from v hash l = is_valid v (case collect_from hash (al_records l) False [] of (c, inc) \<Rightarrow>
     if \<not> inc then Inl (Throw (Transaction_read_fail ''Record does not exist''))
     else Inr (log_segment_of (lh_hash (al_header l)) c))"

section \<open>The invariant of a log\<close>

text \<open>The count and the digest in the header are those of the records; the digest of a log that
  was never written to is still zero.\<close>

definition log_inv :: "(bytes \<Rightarrow> bytes) \<Rightarrow> activity_log \<Rightarrow> bool" where
  "log_inv sha l \<longleftrightarrow> list_all activity_wf (al_records l) \<and> length (lh_hash (al_header l)) = 64
     \<and> sint (num_records (al_header l)) = int (length (al_records l))
     \<and> (al_records l = [] \<or> lh_hash (al_header l) = sha (records_bytes (al_records l)))"

lemma is_valid_simps [simp]: "is_valid True m = m" "is_valid False m = Inl (Throw Transaction_invalid_state)"
  by (simp_all add: is_valid_def)

text \<open>A loop from \<open>begin()\<close> to \<open>end()\<close> meets the records in their order, and an invalid transaction
  stops it before the first.\<close>

lemma tx_range: "bindR (tx_begin v l) (\<lambda>i. bindR (tx_end v l) (\<lambda>j. Inr (map ((!) (al_records l)) [i..<j]))) =
    is_valid v (Inr (al_records l))"
  by (cases v) (simp_all add: tx_begin_def tx_end_def map_nth)

lemma tx_const_range: "tx_cbegin = tx_begin" "tx_cend = tx_end"
  by (simp_all add: fun_eq_iff tx_cbegin_def tx_begin_def tx_cend_def tx_end_def)

lemma log_hash_eq [simp]: "log_hash sha True l = Inr (sha (records_bytes (al_records l)))"
  by (simp add: log_hash_def tx_serialise_partial_def)

lemma log_verification_eq: "log_verification sha True l =
    Inr (sha (records_bytes (al_records l)) = lh_hash (al_header l))"
  by (simp add: log_verification_def)

lemma sint_inc: "sint (w :: 32 word) \<noteq> 2 ^ 31 - 1 \<Longrightarrow> sint (w + 1) = sint w + 1"
proof -
  assume "sint w \<noteq> 2 ^ 31 - 1"
  moreover have "sint w < 2 ^ 31" "- (2 ^ 31) \<le> sint w"
    using sint_lt [of w] sint_ge [of w] by simp_all
  ultimately have "signed_take_bit 31 (sint w + 1) = sint w + 1"
    by (intro signed_take_bit_int_eq_self) simp_all
  moreover have "sint (w + 1) = signed_take_bit 31 (sint w + 1)"
    using sint_word_add [of w 1] by simp
  ultimately show ?thesis by simp
qed

lemma count_record_ok: "sint (num_records (al_header l)) < 2 ^ 31 - 1 \<Longrightarrow>
  \<exists>h. count_record l = Inr (l\<lparr>al_header := h\<rparr>) \<and> lh_hash h = lh_hash (al_header l)
    \<and> sint (num_records h) = sint (num_records (al_header l)) + 1"
  by (rule exI [of _ "(al_header l)\<lparr>num_records := num_records (al_header l) + 1\<rparr>"])
    (simp add: count_record_def Let_def sint_inc)

lemma push_record_simps [simp]: "al_records (push_record r l) = al_records l @ [r]"
  "al_header (push_record r l) = al_header l"
  by (simp_all add: push_record_def)

lemma sha_ok_length [simp]: "sha_ok sha \<Longrightarrow> length (sha x) = 64"
  by (simp add: sha_ok_def hash_size_def)

text \<open>Writing appends, and the log verifies.\<close>

lemma write_record_ok:
  assumes "sha_ok sha" "log_inv sha l" "activity_wf r" "length (al_records l) < 2 ^ 31 - 1"
  shows "\<exists>l'. write_record sha True r l = Inr l' \<and> al_records l' = al_records l @ [r]
    \<and> log_inv sha l' \<and> log_verification sha True l' = Inr True
    \<and> al_transacting l' = al_transacting l \<and> al_locked l' = al_locked l"
proof -
  let ?l = "push_record r l"
  let ?h = "(al_header ?l)\<lparr>lh_hash := sha (records_bytes (al_records ?l))\<rparr>"
  have "rewrite_log_hash sha True ?l = Inr (?l\<lparr>al_header := ?h\<rparr>)"
    by (simp add: rewrite_log_hash_def)
  moreover have "sint (num_records (al_header (?l\<lparr>al_header := ?h\<rparr>))) < 2 ^ 31 - 1"
    using assms(2,4) by (simp add: log_inv_def)
  ultimately show ?thesis
    using count_record_ok [of "?l\<lparr>al_header := ?h\<rparr>"] assms
    by (auto simp: write_record_def log_inv_def log_verification_eq) (auto simp: push_record_def)
qed

text \<open>The counter overflows after 2^31 - 1 records.\<close>

lemma write_record_overflow:
  "log_inv sha l \<Longrightarrow> length (al_records l) = 2 ^ 31 - 1 \<Longrightarrow>
   write_record sha True r l = Inl (Undefined Signed_overflow)"
  by (simp add: write_record_def rewrite_log_hash_def log_inv_def count_record_def Let_def)

lemma write_records_ok:
  "int (length rs) + sint (num_records (al_header l)) < 2 ^ 31 \<Longrightarrow>
   \<exists>l'. write_records rs l = Inr l' \<and> al_records l' = al_records l @ rs
     \<and> lh_hash (al_header l') = lh_hash (al_header l)
     \<and> sint (num_records (al_header l')) = sint (num_records (al_header l)) + int (length rs)
     \<and> al_transacting l' = al_transacting l \<and> al_locked l' = al_locked l"
proof (induction rs arbitrary: l)
  case (Cons r rs)
  then have "sint (num_records (al_header (push_record r l))) < 2 ^ 31 - 1" by simp
  from count_record_ok [OF this] obtain h where
    h: "count_record (push_record r l) = Inr ((push_record r l)\<lparr>al_header := h\<rparr>)"
      "lh_hash h = lh_hash (al_header l)" "sint (num_records h) = sint (num_records (al_header l)) + 1"
    by auto
  have "int (length rs) + sint (num_records (al_header ((push_record r l)\<lparr>al_header := h\<rparr>))) < 2 ^ 31"
    using Cons.prems h(3) by simp
  from Cons.IH [OF this] show ?case using h by (auto simp: push_record_def)
qed simp

lemma count_record_Inr: "count_record l = Inr l' \<Longrightarrow>
  \<exists>h. l' = l\<lparr>al_header := h\<rparr> \<and> lh_hash h = lh_hash (al_header l)
    \<and> sint (num_records h) = sint (num_records (al_header l)) + 1"
  using sint_inc by (fastforce simp: count_record_def Let_def split: if_splits)

lemma write_records_Inr:
  "write_records rs l = Inr l' \<Longrightarrow> al_records l' = al_records l @ rs
     \<and> lh_hash (al_header l') = lh_hash (al_header l)
     \<and> sint (num_records (al_header l')) = sint (num_records (al_header l)) + int (length rs)
     \<and> al_transacting l' = al_transacting l \<and> al_locked l' = al_locked l"
proof (induction rs arbitrary: l)
  case (Cons r rs)
  then obtain m where m: "count_record (push_record r l) = Inr m" "write_records rs m = Inr l'"
    by (auto simp: bindR_eq_Inr)
  then show ?case using count_record_Inr [OF m(1)] Cons.IH [OF m(2)] by (auto simp: push_record_def)
qed simp

text \<open>Whatever a write returns without a fault keeps the invariant and leaves the lock alone.\<close>

lemma write_record_Inr:
  assumes "sha_ok sha" "log_inv sha l" "activity_wf r" "write_record sha v r l = Inr l'"
  shows "log_inv sha l' \<and> al_transacting l' = al_transacting l \<and> al_locked l' = al_locked l"
proof -
  have v: v using assms(4) by (cases v) (simp_all add: write_record_def)
  obtain m where m: "rewrite_log_hash sha True (push_record r l) = Inr m" "count_record m = Inr l'"
    using assms(4) v by (auto simp: write_record_def bindR_eq_Inr)
  then show ?thesis using count_record_Inr [OF m(2)] assms(1-3)
    by (auto simp: rewrite_log_hash_def log_inv_def push_record_def)
qed

lemma write_segment_Inr:
  assumes "sha_ok sha" "log_inv sha l" "list_all activity_wf (sg_records g)"
    "write_segment sha v g l = Inr l'"
  shows "log_inv sha l' \<and> al_transacting l' = al_transacting l \<and> al_locked l' = al_locked l"
proof -
  have v: v using assms(4) by (cases v) (simp_all add: write_segment_def)
  obtain m where m: "write_records (sg_records g) l = Inr m" "rewrite_log_hash sha True m = Inr l'"
    using assms(4) v by (auto simp: write_segment_def bindR_eq_Inr)
  then show ?thesis using write_records_Inr [OF m(1)] assms(1-3)
    by (auto simp: rewrite_log_hash_def log_inv_def)
qed

lemma write_segment_ok:
  assumes "sha_ok sha" "log_inv sha l" "list_all activity_wf (sg_records g)"
    "length (al_records l) + length (sg_records g) < 2 ^ 31"
  shows "\<exists>l'. write_segment sha True g l = Inr l' \<and> al_records l' = al_records l @ sg_records g
    \<and> log_inv sha l' \<and> log_verification sha True l' = Inr True
    \<and> al_transacting l' = al_transacting l \<and> al_locked l' = al_locked l"
proof -
  have "int (length (sg_records g)) + sint (num_records (al_header l)) < 2 ^ 31"
    using assms(2,4) by (simp add: log_inv_def)
  from write_records_ok [OF this] assms show ?thesis
    by (auto simp: write_segment_def rewrite_log_hash_def log_inv_def log_verification_eq)
qed

section \<open>The chain of records\<close>

text \<open>Every record after the first carries the digest of its bytes with the digest of the record
  before in place of its own.\<close>

definition linked :: "(bytes \<Rightarrow> bytes) \<Rightarrow> activity \<Rightarrow> activity \<Rightarrow> bool" where
  "linked sha prev r \<longleftrightarrow> rec_hash r = sha (activity_serialise (with_hash (rec_hash prev) r))"

fun chained :: "(bytes \<Rightarrow> bytes) \<Rightarrow> activity list \<Rightarrow> bool" where
  "chained sha (a # b # rs) \<longleftrightarrow> linked sha a b \<and> chained sha (b # rs)"
| "chained sha _ \<longleftrightarrow> True"

lemma chained_snoc: "chained sha (rs @ [r]) \<longleftrightarrow> chained sha rs \<and> (rs = [] \<or> linked sha (last rs) r)"
  by (induction sha rs rule: chained.induct) auto

lemma rec_hash_rehash: "rec_hash (rehash sha salt a) = sha (activity_serialise (with_hash salt a))"
  by (simp add: rehash_def with_hash_def)

lemma with_hash_twice [simp]: "with_hash d (with_hash e a) = with_hash d a"
  "with_hash d (rehash sha salt a) = with_hash d a"
  by (simp_all add: with_hash_def rehash_def)

lemma with_msg_self: "activity_wf r \<Longrightarrow> with_msg (act_header r) (act_content r) = r"
  by (simp add: with_msg_def activity_wf_def)

text \<open>What \<open>head_verification\<close> decides is that the record continues the chain.\<close>

lemma head_verification_eq:
  "activity_wf r \<Longrightarrow> al_records l \<noteq> [] \<Longrightarrow>
   head_verification sha True r l = Inr (linked sha (last (al_records l)) r)"
  by (auto simp: head_verification_def tx_back_def activity_salted_content_def rec_hash_rehash
      with_msg_self linked_def)

lemma generate_record_content_eq:
  "generate_record_content sha True h msg l = Inr (if al_records l = [] then activity_of_content sha h msg
     else activity_salted_content sha h msg (rec_hash (last (al_records l))))"
  by (simp add: generate_record_content_def tx_size_def tx_back_def)

lemma generated_linked: "linked sha prev (activity_salted_content sha h msg (rec_hash prev))"
  by (simp add: linked_def activity_salted_content_def rec_hash_rehash)

text \<open>The first record carries the digest of its own bytes.\<close>

definition rooted :: "(bytes \<Rightarrow> bytes) \<Rightarrow> activity \<Rightarrow> bool" where
  "rooted sha r \<longleftrightarrow> rec_hash r = sha (activity_serialise_partial r)"

definition whole_chain :: "(bytes \<Rightarrow> bytes) \<Rightarrow> activity list \<Rightarrow> bool" where
  "whole_chain sha rs \<longleftrightarrow> chained sha rs \<and> (rs = [] \<or> rooted sha (hd rs))"

lemma whole_chain_snoc:
  "whole_chain sha (rs @ [r]) \<longleftrightarrow> whole_chain sha rs \<and> (if rs = [] then rooted sha r else linked sha (last rs) r)"
  by (auto simp: whole_chain_def chained_snoc hd_append)

lemma serialise_partial_with_hash:
  "length d = 64 \<Longrightarrow> header_wf (act_header a) \<Longrightarrow>
   activity_serialise_partial (with_hash d a) = activity_serialise_partial a"
  by (simp add: activity_serialise_partial_def with_hash_def activity_header_bytes_def header_wf_def hash_size_def)

lemma generated_rooted: "sha_ok sha \<Longrightarrow> header_wf h \<Longrightarrow> rooted sha (activity_of_content sha h msg)"
  using serialise_partial_with_hash [of "sha (activity_serialise_partial (with_msg h msg))" "with_msg h msg"]
  by (simp add: rooted_def activity_of_content_def partial_hash_def)
    (simp add: with_hash_def with_msg_def)

lemma generate_write:
  assumes "sha_ok sha" "log_inv sha l" "whole_chain sha (al_records l)" "header_wf h"
    "length msg \<le> string_max_size" "length (al_records l) < 2 ^ 31 - 1"
  shows "\<exists>r l'. generate_record_content sha True h msg l = Inr r
    \<and> (al_records l \<noteq> [] \<longrightarrow> head_verification sha True r l = Inr True)
    \<and> write_record sha True r l = Inr l' \<and> al_records l' = al_records l @ [r]
    \<and> log_inv sha l' \<and> whole_chain sha (al_records l') \<and> log_verification sha True l' = Inr True"
proof -
  obtain r where r: "generate_record_content sha True h msg l = Inr r" "activity_wf r"
      "if al_records l = [] then rooted sha r else linked sha (last (al_records l)) r"
    using assms(1,4,5) generated_linked [of sha "last (al_records l)" h msg] generated_rooted [OF assms(1,4)]
    by (auto simp: generate_record_content_eq salted_wf)
  note w = write_record_ok [OF assms(1,2) r(2) assms(6)]
  have "whole_chain sha (al_records l @ [r])" using assms(3) r(3) by (simp add: whole_chain_snoc)
  with w head_verification_eq [OF r(2)] r(1,3) show ?thesis by auto
qed

lemma head_verification_empty:
  "al_records l = [] \<Longrightarrow> head_verification sha True r l = Inl (Undefined Empty_container)"
  by (simp add: head_verification_def tx_back_def)

section \<open>Tampering\<close>

text \<open>Two logs whose headers carry the same digest and that both verify are the same, or their
  bytes are two texts with one SHA-512 digest.\<close>

lemma digest_binds:
  assumes "list_all activity_wf (al_records l)" "list_all activity_wf (al_records l')"
    "log_verification sha True l = Inr True" "log_verification sha True l' = Inr True"
    "lh_hash (al_header l) = lh_hash (al_header l')" "al_records l \<noteq> al_records l'"
  shows "records_bytes (al_records l) \<noteq> records_bytes (al_records l')
    \<and> sha (records_bytes (al_records l)) = sha (records_bytes (al_records l'))"
  using assms concat_serialise_inject [OF assms(1,2)]
  by (auto simp: log_verification_eq records_bytes_def)

text \<open>The texts hashed along a chain.\<close>

fun chain_texts :: "activity list \<Rightarrow> bytes list" where
  "chain_texts (a # b # rs) = activity_serialise (with_hash (rec_hash a) b) # chain_texts (b # rs)"
| "chain_texts _ = []"

lemma chain_texts_snoc:
  "rs \<noteq> [] \<Longrightarrow> chain_texts (rs @ [r]) = chain_texts rs @ [activity_serialise (with_hash (rec_hash (last rs)) r)]"
  by (induction rs rule: chain_texts.induct) auto

lemma length_chain_texts: "length (chain_texts rs) = length rs - 1"
  by (induction rs rule: chain_texts.induct) auto

lemma same_link:
  assumes "activity_wf r" "activity_wf s" "length d = hash_size" "length e = hash_size" "rec_hash r = rec_hash s"
    "activity_serialise (with_hash d r) = activity_serialise (with_hash e s)"
  shows "r = s \<and> d = e"
proof -
  have "with_hash d r = with_hash e s"
    using activity_serialise_inject [of "with_hash d r" "with_hash e s" "[]" "[]"] assms
    by (simp add: with_hash_wf)
  then show ?thesis using assms(5)
    by (cases r; cases s; cases "act_header r"; cases "act_header s") (auto simp: with_hash_def)
qed

text \<open>Two chains of one length that end in one digest: all records but the first are the same, and
  the first ones have the same digest, or somewhere along the chains two different texts have the
  same digest.\<close>

lemma chains_agree:
  assumes "length xs = length ys" "xs \<noteq> []" "chained sha xs" "chained sha ys"
    "list_all activity_wf xs" "list_all activity_wf ys" "rec_hash (last xs) = rec_hash (last ys)"
    "\<And>i. i < length (chain_texts xs) \<Longrightarrow> sha (chain_texts xs ! i) = sha (chain_texts ys ! i) \<Longrightarrow>
      chain_texts xs ! i = chain_texts ys ! i"
  shows "tl xs = tl ys \<and> rec_hash (hd xs) = rec_hash (hd ys)"
  using assms
proof (induction xs arbitrary: ys rule: rev_induct)
  case (snoc x xs)
  then obtain y zs where ys: "ys = zs @ [y]" by (cases ys rule: rev_cases) auto
  show ?case
  proof (cases "xs = []")
    case True
    with snoc.prems ys show ?thesis by simp
  next
    case False
    with snoc.prems(1) ys have zs: "zs \<noteq> []" "length xs = length zs" by auto
    let ?t = "activity_serialise (with_hash (rec_hash (last xs)) x)"
    let ?u = "activity_serialise (with_hash (rec_hash (last zs)) y)"
    have tx: "chain_texts (xs @ [x]) = chain_texts xs @ [?t]" "chain_texts ys = chain_texts zs @ [?u]"
      using False zs(1) ys by (simp_all add: chain_texts_snoc)
    have n: "length (chain_texts xs) = length (chain_texts zs)" by (simp add: length_chain_texts zs(2))
    have link: "linked sha (last xs) x" "linked sha (last zs) y"
      using snoc.prems(3,4) ys False zs(1) by (simp_all add: chained_snoc)
    have eq: "rec_hash x = rec_hash y" using snoc.prems(7) ys by simp
    then have "sha ?t = sha ?u" using link by (simp add: linked_def)
    then have tu: "?t = ?u" using snoc.prems(8) [of "length (chain_texts xs)"] tx n by (simp add: nth_append)
    have wf: "list_all activity_wf xs" "list_all activity_wf zs" "activity_wf x" "activity_wf y"
      using snoc.prems(5,6) ys by simp_all
    then have "activity_wf (last xs)" "activity_wf (last zs)"
      using False zs(1) by (simp_all add: list_all_iff)
    then have "length (rec_hash (last xs)) = hash_size" "length (rec_hash (last zs)) = hash_size"
      by (simp_all add: activity_wf_def header_wf_def hash_size_def)
    from same_link [OF wf(3,4) this eq tu] have xy: "x = y" "rec_hash (last xs) = rec_hash (last zs)" by auto
    have "tl xs = tl zs \<and> rec_hash (hd xs) = rec_hash (hd zs)"
    proof (rule snoc.IH)
      fix i assume "i < length (chain_texts xs)" "sha (chain_texts xs ! i) = sha (chain_texts zs ! i)"
      then show "chain_texts xs ! i = chain_texts zs ! i"
        using snoc.prems(8) [of i] tx n by (simp add: nth_append)
    qed (use snoc.prems(3,4) ys zs False wf xy in \<open>simp_all add: chained_snoc\<close>)
    then show ?thesis using xy ys False zs(1) by simp
  qed
qed simp

text \<open>The text of the first record, too, which holds everything but its digest.\<close>

definition hashed_texts :: "activity list \<Rightarrow> bytes list" where
  "hashed_texts rs = (case rs of [] \<Rightarrow> [] | r # _ \<Rightarrow> activity_serialise_partial r # chain_texts rs)"

lemma length_hashed_texts: "length (hashed_texts rs) = length rs"
  by (cases rs) (simp_all add: hashed_texts_def length_chain_texts)

lemma same_root:
  assumes "activity_wf r" "activity_wf s" "rec_hash r = rec_hash s"
    "activity_serialise_partial r = activity_serialise_partial s"
  shows "r = s"
proof -
  have "activity_serialise x = rec_hash x @ activity_serialise_partial x" if "activity_wf x" for x
    using that by (simp add: activity_serialise_def activity_serialise_partial_def activity_wf_def header_wf_def
        activity_header_bytes_def hash_size_def)
  with activity_serialise_inject [OF assms(1,2), of "[]" "[]"] assms show ?thesis by simp
qed

lemma whole_chains_agree:
  assumes "length xs = length ys" "xs \<noteq> []" "whole_chain sha xs" "whole_chain sha ys"
    "list_all activity_wf xs" "list_all activity_wf ys" "rec_hash (last xs) = rec_hash (last ys)"
    and free: "\<And>i. i < length (hashed_texts xs) \<Longrightarrow>
      sha (hashed_texts xs ! i) = sha (hashed_texts ys ! i) \<Longrightarrow> hashed_texts xs ! i = hashed_texts ys ! i"
  shows "xs = ys"
proof -
  obtain x xs' y ys' where xy: "xs = x # xs'" "ys = y # ys'"
    using assms(1,2) by (cases xs; cases ys) auto
  have t: "hashed_texts xs = activity_serialise_partial x # chain_texts xs"
    "hashed_texts ys = activity_serialise_partial y # chain_texts ys" by (simp_all add: hashed_texts_def xy)
  have agree: "tl xs = tl ys \<and> rec_hash (hd xs) = rec_hash (hd ys)"
  proof (rule chains_agree [OF assms(1,2) _ _ assms(5-7)])
    fix i assume "i < length (chain_texts xs)" "sha (chain_texts xs ! i) = sha (chain_texts ys ! i)"
    then show "chain_texts xs ! i = chain_texts ys ! i" using free [of "Suc i"] t by simp
  qed (use assms(3,4) in \<open>simp_all add: whole_chain_def\<close>)
  then have h: "rec_hash x = rec_hash y" by (simp add: xy)
  then have "sha (activity_serialise_partial x) = sha (activity_serialise_partial y)"
    using assms(3,4) by (simp add: whole_chain_def rooted_def xy)
  then have "activity_serialise_partial x = activity_serialise_partial y" using free [of 0] t by simp
  then have "x = y" using assms(5,6) h by (intro same_root) (simp_all add: xy)
  with agree show ?thesis by (simp add: xy)
qed

section \<open>Segments\<close>

lemma collect_from_inc: "collect_from h rs True c = (c @ rs, True)"
  by (induction rs arbitrary: c) auto

lemma collect_from_miss: "h \<notin> rec_hash ` set xs \<Longrightarrow> collect_from h (xs @ rs) False c = collect_from h rs False c"
  by (induction xs) auto

lemma segment_from_hit:
  "al_records l = xs @ r # ys \<Longrightarrow> rec_hash r \<notin> rec_hash ` set xs \<Longrightarrow>
   segment_from True (rec_hash r) l = Inr (log_segment_of (lh_hash (al_header l)) ys)"
  by (simp add: segment_from_def collect_from_miss collect_from_inc)

lemma segment_from_miss:
  "h \<notin> rec_hash ` set (al_records l) \<Longrightarrow>
   segment_from True h l = Inl (Throw (Transaction_read_fail ''Record does not exist''))"
  using collect_from_miss [of h "al_records l" "[]" "[]"] by (simp add: segment_from_def)

lemma read_record_eq:
  "read_record True h l = (if h \<in> rec_hash ` set (al_records l)
     then Inr (hd (dropWhile (\<lambda>r. rec_hash r \<noteq> h) (al_records l)))
     else Inl (Throw (Transaction_read_fail ''Record does not exist'')))"
proof -
  have "(case List.find (\<lambda>r. rec_hash r = h) rs of Some r \<Rightarrow> Inr r | None \<Rightarrow> e) =
      (if h \<in> rec_hash ` set rs then Inr (hd (dropWhile (\<lambda>r. rec_hash r \<noteq> h) rs)) else e)" for rs and e :: "activity result"
    by (induction rs) auto
  then show ?thesis by (simp add: read_record_def)
qed

text \<open>Bringing another log up to date: the segment from its last record on, sent as bytes and
  written at its end, makes it a copy, header and all.\<close>

lemma segment_transfer:
  assumes "sha_ok sha" "log_inv sha l" "log_inv sha k" "length (al_records l) < 2 ^ 31"
    "al_records l = xs @ r # ys" "al_records k = xs @ [r]" "rec_hash r \<notin> rec_hash ` set xs"
  shows "\<exists>g k'. segment_from True (rec_hash r) l = Inr g
    \<and> log_segment_of_serial (segment_serialise g @ rest) = Inr g
    \<and> write_segment sha True g k = Inr k' \<and> al_records k' = al_records l \<and> al_header k' = al_header l"
proof -
  let ?g = "log_segment_of (lh_hash (al_header l)) ys"
  have wf: "list_all activity_wf ys" "length ys < 2 ^ 31" "length (lh_hash (al_header l)) = 64"
    using assms(1,2,4,5) by (simp_all add: log_inv_def)
  have "segment_wf ?g" using wf by (intro log_segment_of_wf)
  then have rt: "log_segment_of_serial (segment_serialise ?g @ rest) = Inr ?g" by (rule segment_roundtrip)
  have recs: "sg_records ?g = ys" by (simp add: log_segment_of_def)
  obtain k' where k': "write_segment sha True ?g k = Inr k'" "al_records k' = al_records l" "log_inv sha k'"
    using write_segment_ok [OF assms(1,3), of ?g] wf recs assms(4,5,6) by auto
  have "sint (num_records (al_header k')) = sint (num_records (al_header l))"
    "lh_hash (al_header k') = lh_hash (al_header l)"
    using k'(2,3) assms(2,5) by (auto simp: log_inv_def)
  then have "al_header k' = al_header l"
    by (intro log_header.equality) (simp_all add: signed_word_eqI)
  with segment_from_hit [OF assms(5,7)] rt k' show ?thesis by blast
qed

text \<open>A serialised log reads back as a segment.\<close>

lemma log_snapshot:
  assumes "log_inv sha l" "tx_serialise True l = Inr s"
  shows "log_segment_of_serial (s @ rest) = Inr \<lparr>sg_header = al_header l, sg_records = al_records l\<rparr>
    \<and> log_size True l = Inr (length s)"
proof -
  let ?g = "\<lparr>sg_header = al_header l, sg_records = al_records l\<rparr>"
  have w: "segment_wf ?g" using assms(1) by (simp add: segment_wf_def log_inv_def)
  have s: "s = segment_serialise ?g" using assms(2) by (simp add: tx_serialise_def segment_serialise_def)
  show ?thesis
    using segment_roundtrip [OF w] length_segment_serialise [OF w] s
    by (simp add: log_size_def segment_log_size_def)
qed

section \<open>Properties\<close>

lemma log_inv_empty: "length d = 64 \<Longrightarrow> log_inv sha \<lparr>al_header = \<lparr>num_records = 0, lh_hash = d\<rparr>,
    al_records = [], al_transacting = b, al_locked = c\<rparr>"
  by (simp add: log_inv_def)

definition sample_log :: activity_log where
  "sample_log = \<lparr>al_header = log_header_default, al_records = [], al_transacting = True, al_locked = True\<rparr>"

lemma sample_log_inv: "log_inv sha sample_log"
  by (simp add: sample_log_def log_header_default_def log_inv_empty)

text \<open>C23: Take a log of fewer than 2^31 - 1 records that counts its records, carries their digest and is a chain.
  Generating a record with content on it and writing it appends exactly that record; the log afterwards counts its records, carries the digest of all its bytes, verifies, and is still a chain in
  which the first record carries the digest of its own bytes and every other one's digest includes the
  one before. The record verifies against the log it was generated for, unless that log was empty:
  there \<open>head_verification\<close> takes the last record of an empty list, which is undefined behaviour.\<close>

theorem generated_record_extends_chain:
  assumes "sha_ok sha" "log_inv sha l" "whole_chain sha (al_records l)" "header_wf h"
    "length msg \<le> string_max_size" "length (al_records l) < 2 ^ 31 - 1"
  shows "\<exists>r l'. generate_record_content sha True h msg l = Inr r
    \<and> head_verification sha True r l = (if al_records l = [] then Inl (Undefined Empty_container) else Inr True)
    \<and> write_record sha True r l = Inr l' \<and> al_records l' = al_records l @ [r] \<and> log_inv sha l'
    \<and> whole_chain sha (al_records l') \<and> log_verification sha True l' = Inr True"
  using generate_write [OF assms] head_verification_empty [of l sha] by (metis (full_types))

text \<open>On an empty log, and on the log of one record that this gives.\<close>

theorem generated_record_extends_chain_witness:
  "\<exists>r1 l1 r2 l2. generate_record_content sample_sha True sample_ah ''hello'' sample_log = Inr r1
    \<and> head_verification sample_sha True r1 sample_log = Inl (Undefined Empty_container)
    \<and> write_record sample_sha True r1 sample_log = Inr l1
    \<and> generate_record_content sample_sha True sample_ah ''again'' l1 = Inr r2
    \<and> head_verification sample_sha True r2 l1 = Inr True
    \<and> write_record sample_sha True r2 l1 = Inr l2 \<and> al_records l2 = [r1, r2]
    \<and> log_verification sample_sha True l2 = Inr True"
proof -
  have e: "al_records sample_log = []" "whole_chain sample_sha []" by (simp_all add: sample_log_def whole_chain_def)
  obtain r1 l1 where x1: "generate_record_content sample_sha True sample_ah ''hello'' sample_log = Inr r1"
      "head_verification sample_sha True r1 sample_log = Inl (Undefined Empty_container)"
      "write_record sample_sha True r1 sample_log = Inr l1" "al_records l1 = [r1]"
      "log_inv sample_sha l1" "whole_chain sample_sha (al_records l1)"
    using generated_record_extends_chain [OF sample_sha_ok sample_log_inv _ sample_ah_wf, of "''hello''"] e
    by (fastforce simp: string_max_size_def)
  have "length ''again'' \<le> string_max_size" "length (al_records l1) < 2 ^ 31 - 1"
    by (simp_all add: string_max_size_def x1(4))
  from generated_record_extends_chain [OF sample_sha_ok x1(5,6) sample_ah_wf this] x1(1-4) show ?thesis
    by fastforce
qed

text \<open>C27: The digest in the header binds the log: two logs of well-formed records that both verify
  and carry the same digest hold the same records, or their serialised bytes are two different texts
  with the same SHA-512 digest.\<close>

theorem log_digest_binds:
  assumes "list_all activity_wf (al_records l)" "list_all activity_wf (al_records l')"
    "log_verification sha True l = Inr True" "log_verification sha True l' = Inr True"
    "lh_hash (al_header l) = lh_hash (al_header l')"
  shows "al_records l = al_records l' \<or>
    (records_bytes (al_records l) \<noteq> records_bytes (al_records l')
      \<and> sha (records_bytes (al_records l)) = sha (records_bytes (al_records l')))"
  using digest_binds [OF assms] by blast

definition written_log :: "string \<Rightarrow> activity_log" where
  "written_log msg = \<lparr>al_header = \<lparr>num_records = 1, lh_hash = sample_sha (activity_serialise (sample_record msg))\<rparr>,
     al_records = [sample_record msg], al_transacting = True, al_locked = True\<rparr>"

text \<open>A digest that never differs shows the second case.\<close>

definition weak_sha :: "bytes \<Rightarrow> bytes" where
  "weak_sha x = replicate 64 NUL"

definition weak_record :: "string \<Rightarrow> activity" where
  "weak_record msg = activity_of_content weak_sha sample_ah msg"

definition weak_log :: "string \<Rightarrow> activity_log" where
  "weak_log msg = \<lparr>al_header = \<lparr>num_records = 2, lh_hash = replicate 64 NUL\<rparr>,
     al_records = [weak_record ''first'', weak_record msg], al_transacting = True, al_locked = True\<rparr>"

lemma weak_record_wf: "length msg \<le> string_max_size \<Longrightarrow> activity_wf (weak_record msg)"
  unfolding weak_record_def
  by (rule salted_wf(3) [OF _ sample_ah_wf]) (simp_all add: sha_ok_def weak_sha_def hash_size_def)

lemma weak_record_simps [simp]: "rec_hash (weak_record msg) = replicate 64 NUL" "act_content (weak_record msg) = msg"
  by (simp_all add: weak_record_def activity_of_content_def partial_hash_def with_hash_def weak_sha_def with_msg_def)

lemma weak_log_wf: "length msg < 1000 \<Longrightarrow> list_all activity_wf (al_records (weak_log msg))"
  by (simp add: weak_log_def weak_record_wf string_max_size_def)

lemma weak_record_inject: "weak_record a = weak_record b \<longleftrightarrow> a = b"
  by (metis weak_record_simps(2))

theorem log_digest_binds_witness:
  "\<not> records_bytes (al_records (weak_log ''a'')) = records_bytes (al_records (weak_log ''b''))"
  using log_digest_binds [OF weak_log_wf weak_log_wf, of "''a''" "''b''" weak_sha]
  by (simp add: log_verification_eq weak_sha_def) (simp add: weak_log_def weak_record_inject)

text \<open>C26: The digest of the last record binds the whole history: two chains of well-formed records,
  each begun by a record that carries the digest of its own bytes and continued as the log does, that
  have one length and end in the same digest are equal record for record, or at one place along them
  two different texts were hashed to the same SHA-512 digest.\<close>

theorem chain_digest_binds:
  assumes "length xs = length ys" "xs \<noteq> []" "whole_chain sha xs" "whole_chain sha ys"
    "list_all activity_wf xs" "list_all activity_wf ys" "rec_hash (last xs) = rec_hash (last ys)"
  shows "xs = ys \<or> (\<exists>i < length xs. hashed_texts xs ! i \<noteq> hashed_texts ys ! i
      \<and> sha (hashed_texts xs ! i) = sha (hashed_texts ys ! i))"
  using whole_chains_agree [OF assms] length_hashed_texts [of xs] by metis

theorem chain_digest_binds_witness:
  "\<exists>i. i < 2 \<and> hashed_texts (al_records (weak_log ''a'')) ! i \<noteq> hashed_texts (al_records (weak_log ''b'')) ! i"
proof -
  have c: "whole_chain weak_sha (al_records (weak_log m))" for m
    by (simp add: weak_log_def whole_chain_def rooted_def linked_def weak_sha_def)
  have "al_records (weak_log ''a'') \<noteq> al_records (weak_log ''b'')"
    by (simp add: weak_log_def weak_record_inject)
  with chain_digest_binds [OF _ _ c c weak_log_wf weak_log_wf, of "''a''" "''b''"] show ?thesis
    by (auto simp: weak_log_def numeral_2_eq_2)
qed

text \<open>C24: A log that holds the records up to some record is brought up to date with the segment of
  another log from that record on: the segment survives the way through its bytes, and writing it
  makes the log equal to the other one, records, count and digest.\<close>

theorem segment_brings_up_to_date:
  assumes "sha_ok sha" "log_inv sha l" "log_inv sha k" "length (al_records l) < 2 ^ 31"
    "al_records l = xs @ r # ys" "al_records k = xs @ [r]" "rec_hash r \<notin> rec_hash ` set xs"
  shows "\<exists>g k'. segment_from True (rec_hash r) l = Inr g
    \<and> log_segment_of_serial (segment_serialise g @ rest) = Inr g
    \<and> write_segment sha True g k = Inr k' \<and> al_records k' = al_records l \<and> al_header k' = al_header l"
  by (rule segment_transfer [OF assms])

lemma written_log_inv: "length msg < 1000 \<Longrightarrow> log_inv sample_sha (written_log msg)"
  using sample_record_wf [of msg] sample_sha_ok by (simp add: log_inv_def written_log_def string_max_size_def)

theorem segment_brings_up_to_date_witness:
  "\<exists>l g k'. write_record sample_sha True (sample_record ''b'') (written_log ''a'') = Inr l
    \<and> segment_from True (rec_hash (sample_record ''a'')) l = Inr g
    \<and> log_segment_of_serial (segment_serialise g @ []) = Inr g
    \<and> write_segment sample_sha True g (written_log ''a'') = Inr k'
    \<and> al_records k' = [sample_record ''a'', sample_record ''b''] \<and> al_header k' = al_header l"
proof -
  have w: "log_inv sample_sha (written_log ''a'')" by (rule written_log_inv) simp
  obtain l where l: "write_record sample_sha True (sample_record ''b'') (written_log ''a'') = Inr l"
      "al_records l = [sample_record ''a'', sample_record ''b'']" "log_inv sample_sha l"
    using write_record_ok [OF sample_sha_ok w, of "sample_record ''b''"] sample_record_wf [of "''b''"]
    by (auto simp: written_log_def string_max_size_def)
  from segment_brings_up_to_date [OF sample_sha_ok l(3) w, of "[]" "sample_record ''a''" "[sample_record ''b'']" "[]"] l
  show ?thesis by (simp add: written_log_def)
qed

end
