(* ===== verification/Activity_Log.thy ===== *)
theory Activity_Log
  imports Log_Transaction
begin

text \<open>
  \<open>shared/activity/activity_log.cpp\<close> and the life of the transaction objects of
  \<open>log_transaction.cpp\<close>: beginning (which locks the log's mutex), moving, assigning, destroying.
  Logs and transaction objects are named by numbers. A program is a sequence of operations in any
  order; \<open>begin_transaction\<close> on a locked log makes no step, since its thread blocks.
\<close>

record log_transaction =
  m_base :: nat
  m_valid :: bool

record log_store =
  logs :: "nat \<Rightarrow> activity_log"
  txs :: "nat \<rightharpoonup> log_transaction"

definition activity_log_default :: activity_log where
  "activity_log_default = \<lparr>al_header = log_header_default, al_records = [],
     al_transacting = False, al_locked = False\<rparr>"

definition transacting :: "activity_log \<Rightarrow> bool" where
  "transacting l = al_transacting l"

definition store_init :: log_store where
  "store_init = \<lparr>logs = (\<lambda>_. activity_log_default), txs = Map.empty\<rparr>"

definition set_log :: "nat \<Rightarrow> activity_log \<Rightarrow> log_store \<Rightarrow> log_store" where
  "set_log k l s = s\<lparr>logs := (logs s)(k := l)\<rparr>"

definition set_tx :: "nat \<Rightarrow> log_transaction option \<Rightarrow> log_store \<Rightarrow> log_store" where
  "set_tx t x s = s\<lparr>txs := (txs s)(t := x)\<rparr>"

section \<open>Operations\<close>

text \<open>A transaction refers to its log, to the log's records and to its header.\<close>

definition log_transaction_of :: "nat \<Rightarrow> log_transaction" where
  [simp]: "log_transaction_of base = \<lparr>m_base = base, m_valid = True\<rparr>"

definition begin_transaction :: "nat \<Rightarrow> nat \<Rightarrow> log_store \<Rightarrow> log_store" where
  "begin_transaction k t s =
     set_tx t (Some (log_transaction_of k))
       (set_log k ((logs s k)\<lparr>al_locked := True, al_transacting := True\<rparr>) s)"

text \<open>Unlocking a mutex that is not locked is undefined.\<close>

definition end_transaction :: "nat \<Rightarrow> log_store \<Rightarrow> log_store result" where
  "end_transaction k s =
     (if al_locked (logs s k) then
        Inr (set_log k ((logs s k)\<lparr>al_transacting := False, al_locked := False\<rparr>) s)
      else Inl (Undefined Bad_unlock))"

definition tx_move :: "nat \<Rightarrow> nat \<Rightarrow> log_transaction \<Rightarrow> log_store \<Rightarrow> log_store" where
  "tx_move t' t orig s =
     set_tx t (Some (orig\<lparr>m_valid := False\<rparr>))
       (set_tx t' (Some \<lparr>m_base = m_base orig, m_valid = True\<rparr>) s)"

text \<open>The references cannot be rebound: assigning copies the records and the header from one log
  to the other, and the base class, which has no state.\<close>

definition tx_assign :: "nat \<Rightarrow> log_transaction \<Rightarrow> nat \<Rightarrow> log_transaction \<Rightarrow> log_store \<Rightarrow> log_store" where
  "tx_assign t' this t orig s =
     (let s1 = set_tx t (Some (orig\<lparr>m_valid := False\<rparr>)) s;
          s2 = set_log (m_base this) ((logs s1 (m_base this))
            \<lparr>al_records := al_records (logs s1 (m_base orig)), al_header := al_header (logs s1 (m_base orig))\<rparr>) s1 in
      set_tx t' (Some (this\<lparr>m_valid := True\<rparr>)) s2)"

definition tx_destroy :: "nat \<Rightarrow> log_transaction \<Rightarrow> log_store \<Rightarrow> log_store result" where
  "tx_destroy t this s =
     bindR (if m_valid this then end_transaction (m_base this) s else Inr s) (\<lambda>s'.
       Inr (set_tx t None s'))"

datatype log_op = Begin nat nat | Move nat nat | Assign nat nat | Destroy nat
  | Write nat activity | Write_seg nat log_segment

definition on_log :: "log_transaction \<Rightarrow> (bool \<Rightarrow> activity_log \<Rightarrow> activity_log result)
    \<Rightarrow> log_store \<Rightarrow> log_store result" where
  "on_log x f s = bindR (f (m_valid x) (logs s (m_base x))) (\<lambda>l. Inr (set_log (m_base x) l s))"

fun log_step :: "(bytes \<Rightarrow> bytes) \<Rightarrow> log_op \<Rightarrow> log_store \<Rightarrow> log_store result option" where
  "log_step sha (Begin k t) s =
     (if al_locked (logs s k) \<or> txs s t \<noteq> None then None else Some (Inr (begin_transaction k t s)))"
| "log_step sha (Move t' t) s = (case txs s t of None \<Rightarrow> None
     | Some orig \<Rightarrow> if txs s t' \<noteq> None then None else Some (Inr (tx_move t' t orig s)))"
| "log_step sha (Assign t' t) s = (case txs s t' of None \<Rightarrow> None
     | Some this \<Rightarrow> (case txs s t of None \<Rightarrow> None
       | Some orig \<Rightarrow> Some (Inr (tx_assign t' this t orig s))))"
| "log_step sha (Destroy t) s = (case txs s t of None \<Rightarrow> None
     | Some this \<Rightarrow> Some (tx_destroy t this s))"
| "log_step sha (Write t r) s = (case txs s t of None \<Rightarrow> None
     | Some x \<Rightarrow> Some (on_log x (\<lambda>v. write_record sha v r) s))"
| "log_step sha (Write_seg t g) s = (case txs s t of None \<Rightarrow> None
     | Some x \<Rightarrow> Some (on_log x (\<lambda>v. write_segment sha v g) s))"

inductive steps :: "(bytes \<Rightarrow> bytes) \<Rightarrow> log_store \<Rightarrow> log_op list \<Rightarrow> log_store \<Rightarrow> bool" for sha where
  none: "steps sha s [] s"
| step: "steps sha s ops s' \<Longrightarrow> log_step sha e s' = Some (Inr s'') \<Longrightarrow> steps sha s (ops @ [e]) s''"

section \<open>The lock\<close>

definition holds_log :: "log_store \<Rightarrow> nat \<Rightarrow> nat \<Rightarrow> bool" where
  "holds_log s t k \<longleftrightarrow> (\<exists>x. txs s t = Some x \<and> m_valid x \<and> m_base x = k)"

text \<open>A log is locked exactly while one valid transaction object refers to it, and never more
  than one.\<close>

definition owned_by :: "log_store \<Rightarrow> (nat \<Rightarrow> nat option) \<Rightarrow> bool" where
  "owned_by s owner \<longleftrightarrow> (\<forall>k t. holds_log s t k \<longleftrightarrow> owner k = Some t)
     \<and> (\<forall>k. al_locked (logs s k) = (owner k \<noteq> None) \<and> al_transacting (logs s k) = (owner k \<noteq> None))"

definition lock_inv :: "log_store \<Rightarrow> bool" where
  "lock_inv s \<longleftrightarrow> (\<exists>owner. owned_by s owner)"

definition store_inv :: "(bytes \<Rightarrow> bytes) \<Rightarrow> log_store \<Rightarrow> bool" where
  "store_inv sha s \<longleftrightarrow> lock_inv s \<and> (\<forall>k. log_inv sha (logs s k))"

text \<open>Use that keeps it: no assignment of transactions, moves from valid objects only, and
  well-formed records.\<close>

fun disciplined :: "log_store \<Rightarrow> log_op \<Rightarrow> bool" where
  "disciplined s (Assign t' t) = False"
| "disciplined s (Move t' t) = (\<forall>x. txs s t = Some x \<longrightarrow> m_valid x)"
| "disciplined s (Write t r) = activity_wf r"
| "disciplined s (Write_seg t g) = list_all activity_wf (sg_records g)"
| "disciplined s _ = True"

lemma set_simps [simp]:
  "logs (set_log k l s) = (logs s)(k := l)" "txs (set_log k l s) = txs s"
  "logs (set_tx t x s) = logs s" "txs (set_tx t x s) = (txs s)(t := x)"
  by (simp_all add: set_log_def set_tx_def)

lemma holds_simps [simp]:
  "holds_log (set_log k l s) t j = holds_log s t j"
  "holds_log (set_tx t' x s) t j =
     (if t = t' then (\<exists>y. x = Some y \<and> m_valid y \<and> m_base y = j) else holds_log s t j)"
  by (simp_all add: holds_log_def)

lemma owned_fresh: "owned_by s owner \<Longrightarrow> txs s t = None \<Longrightarrow> owner k \<noteq> Some t"
  by (metis holds_log_def option.distinct(1) owned_by_def)

lemma owned_begin:
  assumes "owned_by s owner" "\<not> al_locked (logs s k)" "txs s t = None"
  shows "owned_by (begin_transaction k t s) (owner(k := Some t))"
proof -
  have o: "owner k = None" using assms(1,2) by (simp add: owned_by_def)
  have "\<not> holds_log s t j" for j using assms(3) by (simp add: holds_log_def)
  then have "owner j \<noteq> Some t" for j using assms(1) by (simp add: owned_by_def)
  with o show ?thesis using assms(1) by (auto simp: owned_by_def begin_transaction_def)
qed

lemma owned_holds: "owned_by s owner \<Longrightarrow> txs s t = Some x \<Longrightarrow> m_valid x \<Longrightarrow> owner k = Some t \<longleftrightarrow> k = m_base x"
  unfolding owned_by_def holds_log_def by (metis option.inject)

lemma owned_move:
  assumes "owned_by s owner" "txs s t = Some x" "m_valid x" "txs s t' = None"
  shows "owned_by (tx_move t' t x s) (owner(m_base x := Some t'))"
proof -
  have o: "owner k = Some t \<longleftrightarrow> k = m_base x" for k by (rule owned_holds [OF assms(1-3)])
  have o': "owner j \<noteq> Some t'" for j by (rule owned_fresh [OF assms(1,4)])
  have "t \<noteq> t'" using assms(2,4) by auto
  have "holds_log (tx_move t' t x s) u k \<longleftrightarrow> (owner(m_base x := Some t')) k = Some u" for u k
  proof (cases "u = t \<or> u = t'")
    case True
    then show ?thesis using o [of k] o' [of k] \<open>t \<noteq> t'\<close> by (auto simp: tx_move_def)
  next
    case False
    moreover have "holds_log s u k \<longleftrightarrow> owner k = Some u" using assms(1) by (simp add: owned_by_def)
    moreover have "owner (m_base x) = Some t" using o by simp
    ultimately show ?thesis by (auto simp: tx_move_def)
  qed
  then show ?thesis using assms(1) o [of "m_base x"] by (auto simp: tx_move_def owned_by_def)
qed

lemma owned_destroy:
  assumes "owned_by s owner" "txs s t = Some x"
  shows "\<exists>s'. tx_destroy t x s = Inr s' \<and> owned_by s' (if m_valid x then owner(m_base x := None) else owner)
    \<and> (\<forall>k. al_records (logs s' k) = al_records (logs s k) \<and> al_header (logs s' k) = al_header (logs s k))"
proof (cases "m_valid x")
  case True
  have o: "owner k = Some t \<longleftrightarrow> k = m_base x" for k by (rule owned_holds [OF assms True])
  then have l: "al_locked (logs s (m_base x))" using assms(1) by (auto simp: owned_by_def)
  let ?s = "set_tx t None (set_log (m_base x)
      ((logs s (m_base x))\<lparr>al_transacting := False, al_locked := False\<rparr>) s)"
  have "holds_log ?s u k \<longleftrightarrow> (owner(m_base x := None)) k = Some u" for u k
  proof (cases "u = t")
    case True
    then show ?thesis using o [of k] by simp
  next
    case False
    moreover have "holds_log s u k \<longleftrightarrow> owner k = Some u" using assms(1) by (simp add: owned_by_def)
    moreover have "owner (m_base x) = Some t" using o by simp
    ultimately show ?thesis by auto
  qed
  then have "owned_by ?s (owner(m_base x := None))" using assms(1) by (simp add: owned_by_def)
  moreover have "tx_destroy t x s = Inr ?s" using True l by (simp add: tx_destroy_def end_transaction_def)
  ultimately show ?thesis using True by auto
next
  case False
  have "\<not> holds_log s t k" for k using False assms(2) by (simp add: holds_log_def)
  then have "owner k \<noteq> Some t" for k using assms(1) by (simp add: owned_by_def)
  then have "owned_by (set_tx t None s) owner" using assms(1) by (auto simp: owned_by_def)
  then show ?thesis using False by (simp add: tx_destroy_def)
qed

lemma owned_set_log: "owned_by s owner \<Longrightarrow> al_transacting l = al_transacting (logs s k) \<Longrightarrow>
  al_locked l = al_locked (logs s k) \<Longrightarrow> owned_by (set_log k l s) owner"
  by (simp add: owned_by_def)

lemma store_invI: "owned_by s owner \<Longrightarrow> (\<And>k. log_inv sha (logs s k)) \<Longrightarrow> store_inv sha s"
  by (auto simp: store_inv_def lock_inv_def)

lemma log_inv_flags: "log_inv sha (l\<lparr>al_transacting := a\<rparr>) = log_inv sha l"
  "log_inv sha (l\<lparr>al_locked := a\<rparr>) = log_inv sha l"
  by (simp_all add: log_inv_def)

lemma store_inv_init: "store_inv sha store_init"
proof -
  have "owned_by store_init (\<lambda>_. None)"
    by (simp add: owned_by_def store_init_def holds_log_def activity_log_default_def)
  then show ?thesis
    by (auto simp: store_inv_def lock_inv_def store_init_def log_inv_def activity_log_default_def
        log_header_default_def)
qed

text \<open>No disciplined operation but a write faults, and none breaks the invariant.\<close>

lemma disciplined_step:
  assumes "sha_ok sha" "store_inv sha s" "disciplined s e" "log_step sha e s = Some r"
  shows "(\<exists>s'. r = Inr s' \<and> store_inv sha s') \<or> (\<exists>f t x. r = Inl f \<and> (e = Write t x \<or> (\<exists>g. e = Write_seg t g)))"
proof -
  obtain owner where o: "owned_by s owner" and c: "log_inv sha (logs s k)" for k
    using assms(2) by (auto simp: store_inv_def lock_inv_def)
  show ?thesis
  proof (cases e)
    case (Begin k t)
    with assms(4) have "r = Inr (begin_transaction k t s)" "\<not> al_locked (logs s k)" "txs s t = None"
      by (auto split: if_splits)
    moreover from this have "store_inv sha (begin_transaction k t s)"
      by (intro store_invI [OF owned_begin [OF o]]) (simp_all add: begin_transaction_def log_inv_flags c)
    ultimately show ?thesis by blast
  next
    case (Move t' t)
    with assms(3,4) obtain x where "r = Inr (tx_move t' t x s)" "txs s t = Some x" "m_valid x" "txs s t' = None"
      by (auto split: if_splits option.splits)
    moreover from this have "store_inv sha (tx_move t' t x s)"
      by (intro store_invI [OF owned_move [OF o]]) (simp_all add: tx_move_def c)
    ultimately show ?thesis by blast
  next
    case (Assign t' t)
    with assms(3) show ?thesis by simp
  next
    case (Destroy t)
    with assms(4) obtain x where x: "r = tx_destroy t x s" "txs s t = Some x"
      by (auto split: option.splits)
    from owned_destroy [OF o x(2)] obtain s' owner' where s': "tx_destroy t x s = Inr s'" "owned_by s' owner'"
        "\<And>k. al_records (logs s' k) = al_records (logs s k) \<and> al_header (logs s' k) = al_header (logs s k)"
      by blast
    then have "store_inv sha s'" using c by (intro store_invI [OF s'(2)]) (simp add: log_inv_def)
    with x(1) s'(1) show ?thesis by blast
  next
    case (Write t a)
    with assms(4) obtain x where x: "r = on_log x (\<lambda>v. write_record sha v a) s"
      by (auto split: option.splits)
    show ?thesis
    proof (cases "write_record sha (m_valid x) a (logs s (m_base x))")
      case (Inr l)
      from write_record_Inr [OF assms(1) c _ Inr] assms(3) Write
      have "log_inv sha l" "al_transacting l = al_transacting (logs s (m_base x))"
        "al_locked l = al_locked (logs s (m_base x))" by auto
      then have "store_inv sha (set_log (m_base x) l s)"
        by (intro store_invI [OF owned_set_log [OF o]]) (simp_all add: c)
      then show ?thesis using x Inr by (simp add: on_log_def)
    qed (use x Write in \<open>simp add: on_log_def\<close>)
  next
    case (Write_seg t g)
    with assms(4) obtain x where x: "r = on_log x (\<lambda>v. write_segment sha v g) s"
      by (auto split: option.splits)
    show ?thesis
    proof (cases "write_segment sha (m_valid x) g (logs s (m_base x))")
      case (Inr l)
      from write_segment_Inr [OF assms(1) c _ Inr] assms(3) Write_seg
      have "log_inv sha l" "al_transacting l = al_transacting (logs s (m_base x))"
        "al_locked l = al_locked (logs s (m_base x))" by auto
      then have "store_inv sha (set_log (m_base x) l s)"
        by (intro store_invI [OF owned_set_log [OF o]]) (simp_all add: c)
      then show ?thesis using x Inr by (simp add: on_log_def)
    qed (use x Write_seg in \<open>simp add: on_log_def\<close>)
  qed
qed

section \<open>A lock that is lost\<close>

definition unreferenced :: "nat \<Rightarrow> log_store \<Rightarrow> bool" where
  "unreferenced k s \<longleftrightarrow> (\<forall>t x. txs s t = Some x \<longrightarrow> m_base x \<noteq> k)"

text \<open>Without an object that refers to it, a locked log stays locked, whatever the program does.\<close>

lemma lost_lock_step:
  assumes "al_locked (logs s k)" "unreferenced k s" "log_step sha e s = Some (Inr s')"
  shows "al_locked (logs s' k) \<and> unreferenced k s'"
proof (cases e)
  case (Begin j t)
  with assms have "\<not> al_locked (logs s j)" "s' = begin_transaction j t s"
    by (auto split: if_splits)
  moreover from this have "j \<noteq> k" using assms(1) by auto
  ultimately show ?thesis using assms(1,2) by (simp add: unreferenced_def begin_transaction_def)
next
  case (Move t' t)
  with assms(3) obtain x where x: "txs s t = Some x" "s' = tx_move t' t x s"
    by (auto split: if_splits option.splits)
  then have "m_base x \<noteq> k" using assms(2) by (auto simp: unreferenced_def)
  with x assms(1,2) show ?thesis by (simp add: unreferenced_def tx_move_def)
next
  case (Assign t' t)
  with assms(3) obtain x y where x: "txs s t' = Some x" "txs s t = Some y" "s' = tx_assign t' x t y s"
    by (auto split: option.splits)
  then have "m_base x \<noteq> k" "m_base y \<noteq> k" using assms(2) by (auto simp: unreferenced_def)
  with x assms(1,2) show ?thesis by (auto simp: unreferenced_def tx_assign_def Let_def)
next
  case (Destroy t)
  with assms(3) obtain x where x: "txs s t = Some x" "tx_destroy t x s = Inr s'"
    by (auto split: option.splits)
  then have "m_base x \<noteq> k" using assms(2) by (auto simp: unreferenced_def)
  moreover have "unreferenced k (set_tx t None s)" using assms(2) by (simp add: unreferenced_def)
  moreover have "unreferenced k (set_tx t None (set_log j l s))" for j l
    using assms(2) by (simp add: unreferenced_def)
  ultimately show ?thesis using x(2) assms(1)
    by (auto simp: tx_destroy_def end_transaction_def bindR_eq_Inr split: if_splits)
next
  case (Write t a)
  with assms(3) obtain x l where x: "txs s t = Some x" "s' = set_log (m_base x) l s"
    by (auto simp: on_log_def bindR_eq_Inr split: option.splits)
  then have "m_base x \<noteq> k" using assms(2) by (auto simp: unreferenced_def)
  with x assms(1,2) show ?thesis by (auto simp: unreferenced_def)
next
  case (Write_seg t g)
  with assms(3) obtain x l where x: "txs s t = Some x" "s' = set_log (m_base x) l s"
    by (auto simp: on_log_def bindR_eq_Inr split: option.splits)
  then have "m_base x \<noteq> k" using assms(2) by (auto simp: unreferenced_def)
  with x assms(1,2) show ?thesis by (auto simp: unreferenced_def)
qed

lemma lost_lock: "steps sha s ops s' \<Longrightarrow> al_locked (logs s k) \<Longrightarrow> unreferenced k s \<Longrightarrow>
  al_locked (logs s' k) \<and> unreferenced k s'"
  by (induction rule: steps.induct) (auto dest: lost_lock_step)

section \<open>Properties\<close>

inductive disciplined_steps :: "(bytes \<Rightarrow> bytes) \<Rightarrow> log_store \<Rightarrow> log_op list \<Rightarrow> log_store \<Rightarrow> bool" for sha where
  none: "disciplined_steps sha s [] s"
| step: "disciplined_steps sha s ops s' \<Longrightarrow> disciplined s' e \<Longrightarrow> log_step sha e s' = Some (Inr s'') \<Longrightarrow>
    disciplined_steps sha s (ops @ [e]) s''"

lemma disciplined_steps_inv:
  "disciplined_steps sha s ops s' \<Longrightarrow> sha_ok sha \<Longrightarrow> store_inv sha s \<Longrightarrow> store_inv sha s'"
  by (induction rule: disciplined_steps.induct) (auto dest: disciplined_step)

text \<open>C25: In every program that moves transactions only from valid objects, never assigns them and
  writes well-formed records, however its operations are ordered: a log is locked exactly while one
  valid transaction object refers to it, never two; every log counts its records and, once written
  to, verifies; and ending a transaction never unlocks a mutex that is not locked.\<close>

theorem transactions_exclude_each_other:
  assumes "disciplined_steps sha store_init ops s" "sha_ok sha"
  shows "(\<forall>k t t'. holds_log s t k \<and> holds_log s t' k \<longrightarrow> t = t')
    \<and> (\<forall>k. al_locked (logs s k) \<longleftrightarrow> (\<exists>t. holds_log s t k))
    \<and> (\<forall>k. al_records (logs s k) \<noteq> [] \<longrightarrow> log_verification sha True (logs s k) = Inr True)
    \<and> (\<forall>k. sint (num_records (al_header (logs s k))) = int (length (al_records (logs s k))))
    \<and> (\<forall>t f. log_step sha (Destroy t) s \<noteq> Some (Inl f))"
proof -
  have inv: "store_inv sha s" by (rule disciplined_steps_inv [OF assms store_inv_init])
  then obtain owner where o: "owned_by s owner" by (auto simp: store_inv_def lock_inv_def)
  have l: "log_inv sha (logs s k)" for k using inv by (simp add: store_inv_def)
  have "log_step sha (Destroy t) s \<noteq> Some (Inl f)" for t f
    using disciplined_step [OF assms(2) inv, of "Destroy t" "Inl f"] by auto
  moreover have "t = t'" if "holds_log s t k" "holds_log s t' k" for k t t'
    using o that by (simp add: owned_by_def)
  moreover have "al_locked (logs s k) \<longleftrightarrow> (\<exists>t. holds_log s t k)" for k
    using o by (simp add: owned_by_def)
  moreover have "log_verification sha True (logs s k) = Inr True" if "al_records (logs s k) \<noteq> []" for k
    using l [of k] that by (simp add: log_verification_eq log_inv_def)
  moreover have "sint (num_records (al_header (logs s k))) = int (length (al_records (logs s k)))" for k
    using l [of k] by (simp add: log_inv_def)
  ultimately show ?thesis by blast
qed

theorem transactions_exclude_each_other_witness:
  "\<exists>s. disciplined_steps sample_sha store_init [Begin 0 1] s \<and> al_locked (logs s 0)
    \<and> holds_log s 1 0 \<and> \<not> holds_log s 2 0"
proof -
  let ?s = "begin_transaction 0 1 store_init"
  have b: "log_step sample_sha (Begin 0 1) store_init = Some (Inr ?s)"
    by (simp add: store_init_def activity_log_default_def)
  have d: "disciplined_steps sample_sha store_init ([] @ [Begin 0 1]) ?s"
    by (rule disciplined_steps.step [OF disciplined_steps.none _ b]) simp
  have h: "holds_log ?s 1 0" by (simp add: begin_transaction_def)
  have "al_locked (logs ?s 0)" "\<not> holds_log ?s 2 0"
    using transactions_exclude_each_other [OF d sample_sha_ok] h by (blast, metis num.distinct(1) numeral_eq_one_iff)
  with d h show ?thesis by auto
qed

text \<open>C38: Assigning one transaction to another loses a lock. Take two valid transactions \<open>a\<close> and \<open>b\<close> on two
  different logs, in a state in which the holders of the locks are known, and let no third transaction object, not
  even one that was moved from, refer to the log of \<open>b\<close> (a moved-from object could be moved again and would
  then unlock it). After \<open>a = std::move(b)\<close> and the end of both objects, the log of \<open>b\<close> is locked, no
  object refers to it any more, and no later operation of the program, in whatever order, can begin a
  transaction on it.\<close>

theorem assigned_transaction_locks_forever:
  assumes "owned_by s owner" "txs s a = Some x" "txs s b = Some y" "m_valid x" "m_valid y"
    "m_base x \<noteq> m_base y" "\<forall>t z. t \<noteq> b \<longrightarrow> txs s t = Some z \<longrightarrow> m_base z \<noteq> m_base y"
  shows "\<exists>s'. steps sha s [Assign a b, Destroy b, Destroy a] s' \<and> al_locked (logs s' (m_base y))
    \<and> (\<forall>t z. txs s' t = Some z \<longrightarrow> m_base z \<noteq> m_base y)
    \<and> (\<forall>ops s'' t. steps sha s' ops s'' \<longrightarrow> log_step sha (Begin (m_base y) t) s'' = None)"
proof -
  have ab: "a \<noteq> b" using assms(2,3,6) by auto
  have lk: "al_locked (logs s (m_base x))" "al_locked (logs s (m_base y))"
    using assms(1-5) by (auto simp: owned_by_def holds_log_def)
  let ?s1 = "tx_assign a x b y s"
  let ?s2 = "set_tx b None ?s1"
  let ?s3 = "set_tx a None (set_log (m_base x) ((logs ?s2 (m_base x))\<lparr>al_transacting := False, al_locked := False\<rparr>) ?s2)"
  have e1: "log_step sha (Assign a b) s = Some (Inr ?s1)" using assms(2,3) by simp
  have t1: "txs ?s1 = (txs s)(b := Some (y\<lparr>m_valid := False\<rparr>), a := Some (x\<lparr>m_valid := True\<rparr>))"
    and l1: "al_locked (logs ?s1 k) = al_locked (logs s k)" for k
    by (simp_all add: tx_assign_def Let_def)
  have e2: "log_step sha (Destroy b) ?s1 = Some (Inr ?s2)"
    using ab by (simp add: t1 tx_destroy_def)
  have e3: "log_step sha (Destroy a) ?s2 = Some (Inr ?s3)"
    using ab lk(1) by (simp add: t1 tx_destroy_def end_transaction_def l1)
  have st: "steps sha s ((([] @ [Assign a b]) @ [Destroy b]) @ [Destroy a]) ?s3"
    by (rule steps.step [OF steps.step [OF steps.step [OF steps.none e1] e2] e3])
  have l3: "al_locked (logs ?s3 (m_base y))" using assms(6) lk(2) by (simp add: l1)
  have u3: "unreferenced (m_base y) ?s3"
    using assms(7) by (auto simp: unreferenced_def t1 split: if_splits)
  show ?thesis
  proof (intro exI [of _ ?s3] conjI allI impI)
    show "steps sha s [Assign a b, Destroy b, Destroy a] ?s3" using st by simp
    show "al_locked (logs ?s3 (m_base y))" by (rule l3)
    show "m_base z \<noteq> m_base y" if "txs ?s3 t = Some z" for t z using u3 that by (simp add: unreferenced_def)
    fix ops s'' t assume "steps sha ?s3 ops s''"
    from lost_lock [OF this l3 u3] show "log_step sha (Begin (m_base y) t) s'' = None" by simp
  qed
qed

definition two_open :: log_store where
  "two_open = begin_transaction 1 2 (begin_transaction 0 1 store_init)"

lemma two_open_owned: "owned_by two_open (\<lambda>k. if k = 0 then Some 1 else if k = 1 then Some 2 else None)"
  by (auto simp: two_open_def owned_by_def begin_transaction_def store_init_def activity_log_default_def holds_log_def)

lemma two_open_txs [simp]: "txs two_open t = (if t = 1 then Some \<lparr>m_base = 0, m_valid = True\<rparr>
    else if t = 2 then Some \<lparr>m_base = 1, m_valid = True\<rparr> else None)"
  by (simp add: two_open_def begin_transaction_def store_init_def)

theorem assigned_transaction_locks_forever_witness:
  "\<exists>s'. steps sample_sha two_open [Assign 1 2, Destroy 2, Destroy 1] s' \<and> al_locked (logs s' 1)"
proof -
  have h: "\<forall>t z. t \<noteq> 2 \<longrightarrow> txs two_open t = Some z \<longrightarrow> m_base z \<noteq> m_base \<lparr>m_base = 1, m_valid = True\<rparr>"
    by simp
  from assigned_transaction_locks_forever [OF two_open_owned _ _ _ _ _ h, of 1 "\<lparr>m_base = 0, m_valid = True\<rparr>" sample_sha]
  show ?thesis by (auto simp del: log_step.simps)
qed

text \<open>Moving from a transaction object that was moved from already makes a second valid object
  for the same log; when both are destroyed, the mutex is unlocked while nobody holds it.\<close>

lemma moved_twice_unlocks_twice:
  assumes "owned_by s owner" "txs s t = Some x" "m_valid x" "txs s u = None" "txs s v = None" "u \<noteq> v"
  shows "\<exists>s'. steps sha s [Move u t, Move v t, Destroy u] s' \<and> holds_log s' v (m_base x)
    \<and> log_step sha (Destroy v) s' = Some (Inl (Undefined Bad_unlock))"
proof -
  have ne: "t \<noteq> u" "t \<noteq> v" using assms(2,4,5) by auto
  have lk: "al_locked (logs s (m_base x))"
    using assms(1-3) by (auto simp: owned_by_def holds_log_def)
  let ?s1 = "tx_move u t x s"
  let ?s2 = "tx_move v t (x\<lparr>m_valid := False\<rparr>) ?s1"
  let ?s3 = "set_tx u None (set_log (m_base x) ((logs ?s2 (m_base x))\<lparr>al_transacting := False, al_locked := False\<rparr>) ?s2)"
  have e1: "log_step sha (Move u t) s = Some (Inr ?s1)" using assms(2,4) by simp
  have e2: "log_step sha (Move v t) ?s1 = Some (Inr ?s2)"
    using assms(5,6) ne by (simp add: tx_move_def)
  have e3: "log_step sha (Destroy u) ?s2 = Some (Inr ?s3)"
    using assms(6) ne lk by (simp add: tx_move_def tx_destroy_def end_transaction_def)
  have "steps sha s ((([] @ [Move u t]) @ [Move v t]) @ [Destroy u]) ?s3"
    by (rule steps.step [OF steps.step [OF steps.step [OF steps.none e1] e2] e3])
  moreover have "holds_log ?s3 v (m_base x)" using assms(6) ne by (simp add: tx_move_def)
  moreover have "log_step sha (Destroy v) ?s3 = Some (Inl (Undefined Bad_unlock))"
    using assms(6) ne by (simp add: tx_move_def tx_destroy_def end_transaction_def)
  ultimately show ?thesis by auto
qed

lemma moved_twice_unlocks_twice_example:
  "\<exists>s'. steps sample_sha two_open [Move 3 1, Move 4 1, Destroy 3] s'
    \<and> log_step sample_sha (Destroy 4) s' = Some (Inl (Undefined Bad_unlock))"
  using moved_twice_unlocks_twice [OF two_open_owned,
      of 1 "\<lparr>m_base = 0, m_valid = True\<rparr>" 3 4 sample_sha]
  by (auto simp del: log_step.simps)

end
