(* ===== verification/Send_Buffer.thy ===== *)
theory Send_Buffer
  imports Answers
begin

text \<open>
  The buffer of the UDP answer, \<open>resolution_service::receive\<close>: the answer stands in a block that a
  \<open>shared_ptr\<close> of the handler owns, and \<open>async_send_to\<close> is given its address only. Boost sends at
  once when the socket takes the datagram, and otherwise when the socket can be written again, by
  when the handler has returned and its \<open>shared_ptr\<close> has released the block. Which of the two happens is
  part of the event here; \<open>Services\<close> has every answer sent at once.
\<close>

section \<open>Sending\<close>

text \<open>A send that was not done at once keeps the address and the length.\<close>

type_synonym pending_send = "heap_ptr \<times> nat"

record sending_node =
  the_node :: node_state
  unsent :: "pending_send list"

text \<open>The last owner of a block goes.\<close>

fun release :: "heap_ptr \<Rightarrow> heap_ptr" where
  "release Null_ptr = Null_ptr"
| "release p = Dangling"

definition async_send_to :: "bool \<Rightarrow> heap_ptr \<Rightarrow> nat \<Rightarrow> (bytes option \<times> pending_send list) result" where
  "async_send_to at_once p n =
     (if at_once then bindR (read_ptr p 0 n) (\<lambda>b. Inr (Some b, []))
      else Inr (None, [(p, n)]))"

text \<open>The end of \<open>receive\<close>: the block of \<open>out_shr\<close>, the send, and the release when the handler returns.\<close>

definition send_reply :: "bool \<Rightarrow> bytes \<Rightarrow> (bytes option \<times> pending_send list) result" where
  "send_reply at_once s =
     (let out_shr = Live s in
      bindR (async_send_to at_once out_shr (length s)) (\<lambda>(b, ps).
        Inr (b, map (\<lambda>(p, n). (if p = out_shr then release p else p, n)) ps)))"

datatype send_event = Handle event bool | Writable

fun send_step :: "root_env \<Rightarrow> send_event \<Rightarrow> sending_node \<Rightarrow> (sending_node \<times> bytes option) result" where
  "send_step env (Handle (Udp ev) at_once) sn =
     bindR (node_handle env (Udp ev) (the_node sn)) (\<lambda>(s', r).
       case r of None \<Rightarrow> Inr (sn\<lparr>the_node := s'\<rparr>, None)
       | Some s \<Rightarrow> bindR (send_reply at_once s) (\<lambda>(b, ps).
           Inr (sn\<lparr>the_node := s', unsent := unsent sn @ ps\<rparr>, b)))"
| "send_step env (Handle e at_once) sn =
     bindR (node_handle env e (the_node sn)) (\<lambda>(s', r). Inr (sn\<lparr>the_node := s'\<rparr>, r))"
| "send_step env Writable sn =
     (case unsent sn of [] \<Rightarrow> Inr (sn, None)
      | (p, n) # ps \<Rightarrow> bindR (read_ptr p 0 n) (\<lambda>b. Inr (sn\<lparr>unsent := ps\<rparr>, Some b)))"

fun send_enabled :: "send_event \<Rightarrow> sending_node \<Rightarrow> bool" where
  "send_enabled (Handle e at_once) sn = enabled e (the_node sn)"
| "send_enabled Writable sn = (unsent sn \<noteq> [])"

fun run_sending :: "root_env \<Rightarrow> send_event list \<Rightarrow> sending_node \<Rightarrow> outcome + sending_node" where
  "run_sending env [] sn = Inr sn"
| "run_sending env (e # es) sn =
     (if send_enabled e sn then
        (case send_step env e sn of Inl f \<Rightarrow> Inl (main_catch f) | Inr (sn', _) \<Rightarrow> run_sending env es sn')
      else run_sending env es sn)"

section \<open>Answers sent at once\<close>

lemma send_reply_at_once [simp]: "send_reply True s = Inr (Some s, [])"
  by (simp add: send_reply_def async_send_to_def read_ptr_def read_mem_def Let_def)

lemma send_reply_late [simp]: "send_reply False s = Inr (None, [(Dangling, length s)])"
  by (simp add: send_reply_def async_send_to_def Let_def)

lemma send_step_at_once:
  "send_step env (Handle e True) sn =
     bindR (node_handle env e (the_node sn)) (\<lambda>(s', r). Inr (sn\<lparr>the_node := s'\<rparr>, r))"
proof (cases e)
  case (Udp ev)
  then show ?thesis
    by (cases "node_handle env (Udp ev) (the_node sn)")
      (auto split: option.splits simp del: node_handle.simps)
qed simp_all

lemma run_sending_at_once:
  "run_sending env (map (\<lambda>e. Handle e True) es) sn =
     (case run env es (the_node sn) of Inl x \<Rightarrow> Inl x | Inr s' \<Rightarrow> Inr (sn\<lparr>the_node := s'\<rparr>))"
proof (induction es arbitrary: sn)
  case (Cons e es)
  show ?case
    by (cases "node_handle env e (the_node sn)")
      (auto simp: Cons.IH send_step_at_once split: sum.splits simp del: send_step.simps node_handle.simps)
qed simp

section \<open>Answers sent late\<close>

text \<open>Every pending send refers to a released block, and has bytes to read.\<close>

definition unsent_inv :: "sending_node \<Rightarrow> bool" where
  "unsent_inv sn \<longleftrightarrow> list_all (\<lambda>(p, n). p = Dangling \<and> 0 < n) (unsent sn)"

lemma receive_answer_nonempty:
  "node_handle env (Udp ev) s = Inr (s', Some r) \<Longrightarrow> 0 < length r"
  by (cases ev) (auto simp: bindR_eq_Inr Let_def packet_size_def sizeof_header_def dest!: length_serialise)

lemma send_step_inv:
  assumes "unsent_inv sn" "send_step env e sn = Inr (sn', r)"
  shows "unsent_inv sn'"
proof (cases e)
  case (Handle ev at_once)
  show ?thesis
  proof (cases ev)
    case (Udp u)
    with Handle assms receive_answer_nonempty [of env u "the_node sn"] show ?thesis
      by (cases at_once) (auto simp: unsent_inv_def bindR_eq_Inr simp del: node_handle.simps split: option.splits)
  qed (use Handle assms in \<open>auto simp: unsent_inv_def bindR_eq_Inr simp del: node_handle.simps\<close>)
next
  case Writable
  with assms show ?thesis by (auto simp: unsent_inv_def bindR_eq_Inr split: list.splits)
qed

lemma run_sending_inv:
  "unsent_inv sn \<Longrightarrow> run_sending env es sn = Inr sn' \<Longrightarrow> unsent_inv sn'"
  by (induction es arbitrary: sn) (auto split: if_splits sum.splits simp del: send_step.simps dest: send_step_inv)

lemma run_sending_append:
  "run_sending env (fs @ gs) sn =
     (case run_sending env fs sn of Inl x \<Rightarrow> Inl x | Inr sn' \<Rightarrow> run_sending env gs sn')"
  by (induction fs arbitrary: sn) (auto split: sum.splits simp del: send_step.simps)

lemma writable_faults:
  "unsent_inv sn \<Longrightarrow> unsent sn \<noteq> [] \<Longrightarrow> send_step env Writable sn = Inl (Undefined Use_after_free)"
  by (cases "unsent sn") (auto simp: unsent_inv_def read_ptr_def)

section \<open>Properties\<close>

text \<open>C36: An answer that is not sent at once is read after it was released. As long as the socket takes
  every answer at once, the node behaves as in \<open>run\<close>; but after any run, from a node with no send
  pending, in which an answer had to wait, the socket's becoming writable makes the program read a block
  that its handler has deleted.\<close>

theorem late_answer_reads_freed_block:
  assumes "unsent sn = []"
  shows "run_sending env (map (\<lambda>e. Handle e True) es) sn =
      (case run env es (the_node sn) of Inl x \<Rightarrow> Inl x | Inr s' \<Rightarrow> Inr (sn\<lparr>the_node := s'\<rparr>))
    \<and> (run_sending env fs sn = Inr sn' \<longrightarrow> unsent sn' \<noteq> [] \<longrightarrow>
        run_sending env (fs @ Writable # gs) sn = Inl (Undefined_behaviour Use_after_free))"
proof -
  have "unsent_inv sn" using assms by (simp add: unsent_inv_def)
  then have "run_sending env (fs @ Writable # gs) sn = Inl (Undefined_behaviour Use_after_free)"
    if "run_sending env fs sn = Inr sn'" "unsent sn' \<noteq> []"
    using that run_sending_append [of env fs "Writable # gs" sn] run_sending_inv [of sn env fs sn']
      writable_faults [of sn' env] by simp
  then show ?thesis using run_sending_at_once by blast
qed

theorem late_answer_reads_freed_block_witness:
  "run_sending sample_env [Handle (Udp (Udp_datagram (header_bytes dvsp_header_default) sample_addr)) False, Writable]
     \<lparr>the_node = sample_start, unsent = []\<rparr> = Inl (Undefined_behaviour Use_after_free)"
proof -
  let ?e = "Udp (Udp_datagram (header_bytes dvsp_header_default) sample_addr)"
  have "serving_node sample_env sample_start"
    using sample_serving by (simp add: serving_node_def serving_def sample_start_simps table_inv_empty v4_table_def)
  moreover have "sane_event sample_env ?e" by code_simp
  ultimately obtain s' r where r: "node_handle sample_env ?e sample_start = Inr (s', Some r)"
    using sane_datagram by blast
  then have "run_sending sample_env [Handle ?e False] \<lparr>the_node = sample_start, unsent = []\<rparr> =
      Inr \<lparr>the_node = s', unsent = [(Dangling, length r)]\<rparr>"
    by (simp add: sample_start_simps del: node_handle.simps)
  then show ?thesis
    using late_answer_reads_freed_block [of "\<lparr>the_node = sample_start, unsent = []\<rparr>" sample_env "[]"
        "[Handle ?e False]" "\<lparr>the_node = s', unsent = [(Dangling, length r)]\<rparr>" "[]"]
    by simp
qed

end
