(* ===== verification/Tests_Shared.thy ===== *)
theory Tests_Shared
  imports Forge Crypto
begin

text \<open>
  The repository's tests of the library, \<open>testing/shared\<close> but for the activity log, run on the model:
  one lemma for each test case or section. Where the code gives something else than the section
  requires, the lemma has what the code gives and its text says what the section requires.
\<close>

section \<open>Free functions (\<open>mod_free_fn.cpp\<close>)\<close>

lemma test_ipv4_to_netspace_addr:
  "addr_string ref_asio (ipv4_to_netspace_addr (Ipv4 CHR 0xC0 CHR 0xA8 CHR 0x01 CHR 0x01)) = ''192.168.1.1''"
  by code_simp

lemma test_ipv4_to_string: "ipv4_to_string (Ipv4 CHR 0xC0 CHR 0xA8 CHR 0x01 CHR 0x01) = ''192.168.1.1''"
  by code_simp

lemma test_nodes_from_string:
  "nodes_from_string ref_asio ''SuId|hostname.com|192.168.1.1;'' =
     Inr [\<lparr>m_type = netnode_val Nt_undefined, m_addr = V4 (Ipv4 CHR 0xC0 CHR 0xA8 CHR 0x01 CHR 0x01),
       m_hostname = ''hostname.com'', m_proto = protocol_val Proto_dvsp, m_suid = ''SuId''\<rparr>]"
  by code_simp

section \<open>Nodes (\<open>mod_netnode.cpp\<close>)\<close>

text \<open>The default address of Boost is \<open>0.0.0.0\<close>.\<close>

lemma test_netnode_default:
  "node_type netspace_node_default = netnode_val Nt_undefined \<and> node_address netspace_node_default = addr_default
   \<and> node_hostname netspace_node_default = [] \<and> node_protocol netspace_node_default = protocol_val Proto_dvsp"
  by code_simp

lemma test_netnode_typed:
  "netspace_node_typed (netnode_val Nt_root) (protocol_val Proto_dvsp) =
     netspace_node_default\<lparr>m_type := netnode_val Nt_root\<rparr>"
  by code_simp

lemma test_netnode_text:
  "netspace_node_text ref_asio (netnode_val Nt_root) ''root_node'' ''192.168.1.1'' (protocol_val Proto_dvsp) =
     Inr \<lparr>m_type = netnode_val Nt_root, m_addr = V4 (Ipv4 CHR 0xC0 CHR 0xA8 CHR 0x01 CHR 0x01),
       m_hostname = ''root_node'', m_proto = protocol_val Proto_dvsp, m_suid = []\<rparr>"
  by code_simp

lemma test_netnode_addr:
  "bindR (parse_addr ref_asio ''192.168.1.1'') (\<lambda>a.
     Inr (netspace_node_addr (netnode_val Nt_root) ''root_node'' a (protocol_val Proto_http))) =
   netspace_node_text ref_asio (netnode_val Nt_root) ''root_node'' ''192.168.1.1'' (protocol_val Proto_http)"
  by code_simp

section \<open>Tables (\<open>mod_netspace_table.cpp\<close>)\<close>

lemma test_table_default: "table_size netspace_table_default = 0"
  by code_simp

lemma test_table_insertion:
  "table_size (add_node netspace_table_default netspace_node_default) = 1"
  "table_size (add_node (add_node netspace_table_default netspace_node_default) netspace_node_default) = 2"
  by code_simp+

lemma test_table_clear:
  "let t = add_node netspace_table_default netspace_node_default in \<not> table_empty t \<and> table_empty (table_clear t)"
  by code_simp

lemma test_table_at:
  "let t = add_node netspace_table_default (netspace_node_typed (netnode_val Nt_trusted) (protocol_val Proto_dvsp)) in
   bindR (table_at t 0) (\<lambda>n. Inr (node_type n)) = Inr (netnode_val Nt_trusted) \<and> table_at t 2 = Inl (Throw Std_out_of_range)"
  by code_simp

lemma test_table_iterator:
  "map node_type (fold (\<lambda>nt t. add_node t (netspace_node_typed nt (protocol_val Proto_dvsp)))
     [CHR 0x00, CHR 0x01, CHR 0x02] netspace_table_default) = [CHR 0x00, CHR 0x01, CHR 0x02]"
  by code_simp

text \<open>Nodes with the addresses \<open>192.168.1.1\<close>, \<open>192.168.1.2\<close> and so on.\<close>

fun numbered :: "nat \<Rightarrow> (netnode_type \<times> string) list \<Rightarrow> netspace_table" where
  "numbered i [] = netspace_table_default"
| "numbered i ((type, host) # ns) =
     netspace_node_addr (netnode_val type) host (V4 (Ipv4 CHR 0xC0 CHR 0xA8 CHR 0x01 (char_of i))) (protocol_val Proto_dvsp)
     # numbered (i + 1) ns"

lemma test_find_addr:
  "let t = numbered 1 [(Nt_org, ''org''), (Nt_org, ''org'')] in
   bindR (parse_addr ref_asio ''192.168.1.1'') (\<lambda>a. Inr (find_addr t a)) = Inr 0
   \<and> find_addr_text ref_asio t ''192.168.1.2'' = Inr 1
   \<and> bindR (parse_addr ref_asio ''192.168.1.3'') (\<lambda>a. Inr (find_addr t a)) = Inr (table_end t)
   \<and> find_addr_text ref_asio t ''192.168.1.3'' = Inr (table_end t)"
  by code_simp

lemma test_find_host:
  "let t = numbered 1 [(Nt_org, ''org_a''), (Nt_org, ''org_b'')] in
   find_host t ''org_b'' = 1 \<and> bindR (deref t 1) (\<lambda>n. Inr (node_hostname n)) = Inr ''org_b''
   \<and> find_host t ''org_c'' = table_end t"
  by code_simp

definition typed_table :: netspace_table where
  "typed_table = numbered 1 [(Nt_root, ''root_a''), (Nt_org, ''org_b''), (Nt_org, ''org_c''),
     (Nt_org, ''org_d''), (Nt_org, ''org_e''), (Nt_trusted, ''trusted_f'')]"

text \<open>The loop of the section: how many nodes of a type are found from an iterator on.\<close>

fun count_type :: "nat \<Rightarrow> netspace_table \<Rightarrow> char \<Rightarrow> nat \<Rightarrow> nat result" where
  "count_type 0 t nt it = Inr 0"
| "count_type (Suc k) t nt it =
     bindR (find_type_from t nt it) (\<lambda>it'.
       if it' = table_end t then Inr 0 else bindR (count_type k t nt (it' + 1)) (\<lambda>n. Inr (n + 1)))"

lemma test_find_type:
  "bindR (deref typed_table (find_type typed_table (netnode_val Nt_root))) (\<lambda>n. Inr (node_hostname n)) = Inr ''root_a''"
  "count_type 7 typed_table (netnode_val Nt_org) (table_begin typed_table) = Inr 4"
  "find_type typed_table (netnode_val Nt_georoot) = table_end typed_table"
  by code_simp+

section \<open>The GSN database (\<open>mod_metaspace_gsn.cpp\<close>, \<open>mocks/data.sql\<close>)\<close>

lemma test_has_outcode:
  "map has_outcode [''ZY44'', ''ZY44 U88'', ''ZY44U88'', ''zy44'', ''Zy44'', ''zY44'', ''zY44u88''] =
     replicate 7 (True, ''zy44'')"
  "map has_outcode [''ZYT42'', ''hello ZY44 U88''] = replicate 2 (False, [])"
  by code_simp+

lemma test_gsn_resolution:
  "resolve_gsn sample_db [] = Inl (Throw (Metaspace_query_fail ''Empty query''))"
  "resolve_gsn sample_db ''tn37'' = Inr ''esusx''"
  "resolve_gsn sample_db ''zy44'' = Inr []"
  "resolve_gsn sample_db ''East Sussex'' = Inr ''esusx''"
  "resolve_gsn sample_db ''Dorset'' = Inr []"
  by code_simp+

section \<open>URLs (\<open>mod_netspace_url.cpp\<close>)\<close>

text \<open>The parts of a URL the sections look at.\<close>

definition url_parts :: "string \<Rightarrow> (string list \<times> string \<times> string \<times> string \<times> string) result" where
  "url_parts s = bindR (netspace_url_of s) (\<lambda>u. bindR (top_network u) (\<lambda>top.
     Inr (m_gsn u, m_glq u, m_res u, m_spq u, top)))"

lemma test_url_ctors:
  "netspace_url_of ''srp://org.nn'' = Inl (Throw Netspace_malformed_url)"
  "netspace_url_of [] = Inl (Throw Netspace_malformed_url)"
  "url_parts ''spring://org.nn'' = Inr ([''org'', ''nn''], [], [], [], ''nn'')"
  "url_parts ''spring://org.nn:gsquery'' = Inr ([''org'', ''nn''], ''gsquery'', [], [], ''nn'')"
  "url_parts ''spring://org.gsn.nn/resource'' = Inr ([''org'', ''gsn'', ''nn''], [], ''resource'', [], ''nn'')"
  "url_parts ''spring://org.gsn.nn?query'' = Inr ([''org'', ''gsn'', ''nn''], [], [], ''query'', ''nn'')"
  "url_parts ''spring://org.gsn.nn:glq?query'' = Inr ([''org'', ''gsn'', ''nn''], ''glq'', [], ''query'', ''nn'')"
  "url_parts ''spring://org.gsn.nn:glq/resource'' = Inr ([''org'', ''gsn'', ''nn''], ''glq'', ''resource'', [], ''nn'')"
  "url_parts ''spring://org.gsn.nn:glq/resource?query'' =
     Inr ([''org'', ''gsn'', ''nn''], ''glq'', ''resource'', ''query'', ''nn'')"
  by code_simp+

definition changed_url :: "(netspace_url \<Rightarrow> netspace_url) \<Rightarrow> string result" where
  "changed_url f = bindR (netspace_url_of ''spring://org.gsn.nn:glq/resource?query'') (\<lambda>u.
     Inr (fst (url_to_string (f u))))"

lemma test_url_reconstruction:
  "changed_url (\<lambda>u. u) = Inr ''spring://org.gsn.nn:glq/resource?query''"
  "changed_url (in_static_route butlast) = Inr ''spring://org.gsn:glq/resource?query''"
  "changed_url (in_static_route (butlast \<circ> butlast)) = Inr ''spring://org:glq/resource?query''"
  "changed_url (in_static_route (\<lambda>r. butlast (butlast r) @ [''esusx''])) =
     Inr ''spring://org.esusx:glq/resource?query''"
  "changed_url (in_static_route (\<lambda>_. [])) = Inr ''spring://:glq/resource?query''"
  "changed_url (in_geosub_query (\<lambda>_. [])) = Inr ''spring://org.gsn.nn/resource?query''"
  "changed_url (in_geosub_query (\<lambda>_. ''foobar'')) = Inr ''spring://org.gsn.nn:foobar/resource?query''"
  "changed_url (in_resource (\<lambda>_. [])) = Inr ''spring://org.gsn.nn:glq?query''"
  "changed_url (in_resource (\<lambda>_. ''barfoo'')) = Inr ''spring://org.gsn.nn:glq/barfoo?query''"
  "changed_url (in_query (\<lambda>_. [])) = Inr ''spring://org.gsn.nn:glq/resource''"
  "changed_url (in_query (\<lambda>_. ''farboo'')) = Inr ''spring://org.gsn.nn:glq/resource?farboo''"
  by code_simp+

section \<open>Packets (\<open>mod_dvsp_packet.cpp\<close>)\<close>

lemma test_ns_ipv4_str: "ns_ipv4_str (Ipv4 CHR 0xAC CHR 0xA8 CHR 0x01 CHR 0x01) = ''172.168.1.1''"
  by code_simp

lemma test_packet_default:
  "hdr_type (packet_header packet_default) = msgtype_val Mt_undefined" "hdr_size (packet_header packet_default) = 0"
  "addr_orig (packet_header packet_default) = ipv4_zero" "addr_dest (packet_header packet_default) = ipv4_zero"
  "packet_size packet_default = sizeof_header"
  by code_simp+

definition modified :: dvsp_header where
  "modified = dvsp_header_default\<lparr>addr_dest := Ipv4 CHR 0xC0 CHR 0xA8 CHR 0x00 CHR 0x01,
     addr_orig := Ipv4 CHR 0xC0 CHR 0xA8 CHR 0x00 CHR 0x02, hdr_type := msgtype_val Mt_gsn_request\<rparr>"

lemma test_packet_modified:
  "bindR (str_content ''Foo'' (in_header (\<lambda>_. modified\<lparr>hdr_size := 3\<rparr>) packet_default)) (\<lambda>p.
     bindR (packet_to_string p 0) (\<lambda>s. Inr (packet_header p, s, packet_size p)))
   = Inr (modified\<lparr>hdr_size := 3\<rparr>, ''Foo'', sizeof_header + 3)"
  by code_simp

text \<open>Any binary content, read back with any layout that fits it: the test's structure is one.\<close>

lemma test_packet_binary:
  assumes "byte_codec enc dec n ok" "ok x" "0 < n" "n < 2 ^ 32"
  shows "\<exists>p. copy_content (enc x) packet_default = Inr p \<and> 0 < hdr_size (m_header p)
    \<and> content_as dec n p 0 = Inr x \<and> packet_size p = sizeof_header + n"
proof -
  let ?p = "reply dvsp_header_default (enc x)"
  have l: "length (enc x) = n" using assms(1,2) by (rule byte_codec.enc_length)
  have w: "packet_wf ?p" using l assms(4) by (intro reply_wf) simp
  have s: "unat (hdr_size (m_header ?p)) = n" using length_packet_data [OF w] l by simp
  have "copy_content (enc x) packet_default = Inr ?p"
    using copy_content_null [of packet_default "enc x"] by (simp add: packet_default_def)
  moreover have "content_as dec n ?p 0 = Inr x"
    using content_as_ok [OF w, of 0 n dec] s l byte_codec.dec_enc [OF assms(1,2)] by simp
  moreover have "0 < hdr_size (m_header ?p)" using s assms(3) by (metis unat_gt_0 word_neq_0_conv)
  ultimately show ?thesis using s by (auto simp: packet_size_def)
qed

lemma test_packet_empty:
  "packet_content packet_default = Inl (Throw Dvsp_empty_content)"
  "packet_to_string packet_default 0 = Inl (Throw Dvsp_empty_content)"
  "let p = packet_default\<lparr>m_header := dvsp_header_default\<lparr>hdr_size := 1024\<rparr>\<rparr> in
   serialise p = Inl (Throw Dvsp_empty_content) \<and> packet_content p = Inl (Throw Dvsp_empty_content)
   \<and> packet_to_string p 0 = Inl (Throw Dvsp_empty_content)"
  by (simp_all add: packet_default_def dvsp_header_default_def packet_content_def packet_to_string_def
      no_content_def serialise_def Let_def)

lemma test_packet_serialise:
  "bindR (str_content ''Foo'' (in_header (\<lambda>_. modified) packet_default)) (\<lambda>p. bindR (serialise p) (\<lambda>s.
     bindR (packet_of_serial s) (\<lambda>d. bindR (packet_to_string p 0) (\<lambda>t. Inr (packet_header d, t)))))
   = Inr (modified\<lparr>hdr_size := 3\<rparr>, ''Foo'')"
  by code_simp

section \<open>SHA-512 (\<open>mod_crypto.cpp\<close>)\<close>

definition sha512_control :: string where
  "sha512_control = ''8ae6ae71a75d3fb2e0225deeb004faf95d816a0a58093eb4cb5a3aa0f197050d7a4dc0a2d5c6fbae5fb5b0d536a0a9e6b686369fa57a027687c3630321547596''"

text \<open>With an SHA-512 that gives the test's digest for \<open>HelloWorld\<close>, the bytes the hexadecimal text
  stands for, the digest's text is the one the test requires.\<close>

fun unhex :: "string \<Rightarrow> bytes" where
  "unhex (a # b # s) = (case (hex_digit a, hex_digit b) of
     (Some x, Some y) \<Rightarrow> char_of (16 * x + y) # unhex s | _ \<Rightarrow> [])"
| "unhex _ = []"

definition lower_hex :: "char \<Rightarrow> bool" where
  "lower_hex c \<longleftrightarrow> hex_digit c \<noteq> None \<and> \<not> (65 \<le> (of_char c :: nat) \<and> (of_char c :: nat) \<le> 70)"

lemma hex_char_digit: "lower_hex c \<Longrightarrow> hex_digit c = Some x \<Longrightarrow> x < 16 \<and> hex_char x = c"
  by (auto simp: lower_hex_def hex_digit_def hex_char_def Let_def split: if_splits)

lemma hex_encode_unhex:
  "list_all lower_hex s \<Longrightarrow> even (length s) \<Longrightarrow> hex_encode (unhex s) = s \<and> length (unhex s) = length s div 2"
proof (induction s rule: unhex.induct)
  case (1 a b s)
  then obtain x y where "hex_digit a = Some x" "hex_digit b = Some y" by (auto simp: lower_hex_def)
  with 1 hex_char_digit [of a x] hex_char_digit [of b y] show ?case by auto
qed auto

lemma test_sha512:
  assumes "sha_of lib ''HelloWorld'' = unhex sha512_control"
  shows "bindR (hash_sha512 lib (''HelloWorld'' @ [NUL]) 10) (\<lambda>hash. Inr (length hash, sha_string hash)) =
    Inr (64, sha512_control)"
proof -
  have "list_all lower_hex sha512_control" by code_simp
  moreover have "length sha512_control = 128" by (simp add: sha512_control_def)
  ultimately have "length (unhex sha512_control) = 64" "sha_string (unhex sha512_control) = sha512_control"
    using hex_encode_unhex [of sha512_control] by (simp_all add: sha_string_hex)
  moreover have "hash_sha512 lib (''HelloWorld'' @ [NUL]) 10 = Inr (unhex sha512_control)"
    using assms by (simp add: hash_sha512_def read_mem_def sha_of_def)
  ultimately show ?thesis by simp
qed

end
