(* ===== verification/Tests_Handler.thy ===== *)
theory Tests_Handler
  imports Forge_Queries
begin

text \<open>
  The repository's tests of the protocol handler, \<open>testing/nodes/root/mod_root_protocol.cpp\<close>, run on the
  model: one lemma for each test case, with what the model gives for each section. Where the code
  gives something else than the section requires, the lemma has what the code gives and its text
  says what the section requires.
\<close>

section \<open>The fixtures\<close>

text \<open>\<open>packet_of\<close>, the database of \<open>mocks/data.sql\<close>, and the addresses \<open>192.168.1.n\<close>.\<close>

definition lan :: "char \<Rightarrow> netspace_ipv4" where
  "lan n = Ipv4 CHR 0xC0 CHR 0xA8 CHR 0x01 n"

definition packet_of :: "dvsp_msgtype \<Rightarrow> string \<Rightarrow> dvsp_packet result" where
  "packet_of type content =
     str_content content (packet_default\<lparr>m_header := dvsp_header_default
       \<lparr>addr_dest := lan CHR 0x01, addr_orig := lan CHR 0x02, hdr_type := msgtype_val type\<rparr>\<rparr>)"

definition mock_db :: gsn_db where
  "mock_db = table_db [(''tn37'', ''East Sussex'', ''esusx''), (''tn34'', ''East Sussex'', ''esusx''),
     (''tn29'', ''Kent'', ''kent'')]"

definition test_env :: root_env where
  "test_env = \<lparr>env_asio = ref_asio, env_gsn = mock_db, env_net = (\<lambda>_ _ _. Net_failed),
     env_stk = [NUL], env_junk = replicate 125 NUL\<rparr>"

text \<open>A node as the tests add them, the nodes of a table, a request handled on a table, and what came of
  it: the type of the answer, its content, and the table.\<close>

definition test_node :: "netnode_type \<Rightarrow> string \<Rightarrow> string \<Rightarrow> service_protocol \<Rightarrow> netspace_node result" where
  "test_node type host address proto =
     netspace_node_text ref_asio (netnode_val type) host address (protocol_val proto)"

fun test_table :: "netspace_node result list \<Rightarrow> netspace_table result" where
  "test_table [] = Inr []"
| "test_table (m # ms) = bindR m (\<lambda>n. bindR (test_table ms) (\<lambda>t. Inr (n # t)))"

definition handled ::
  "netspace_table result \<Rightarrow> dvsp_packet result \<Rightarrow> string \<Rightarrow> (dvsp_packet \<times> netspace_table) result" where
  "handled t p inbound =
     bindR t (\<lambda>t. bindR p (\<lambda>p. bindR (parse_addr ref_asio inbound) (\<lambda>a.
     bindR (process_packet test_env p a \<lparr>nstable = t, outbox = []\<rparr>) (\<lambda>(out, st). Inr (out, nstable st)))))"

text \<open>The two values nearly every section looks at.\<close>

definition out_type_code :: "dvsp_packet \<Rightarrow> (char \<times> 32 word) result" where
  "out_type_code out = bindR (content_as bytes_response_code sizeof_response_code out 0)
     (\<lambda>c. Inr (hdr_type (m_header out), c))"

definition answered_code :: "netspace_table result \<Rightarrow> dvsp_packet result \<Rightarrow> string \<Rightarrow> (char \<times> 32 word) result" where
  "answered_code t p inbound = bindR (handled t p inbound) (\<lambda>(out, _). out_type_code out)"

definition test_header :: "dvsp_msgtype \<Rightarrow> dvsp_header" where
  "test_header type = dvsp_header_default
     \<lparr>addr_dest := lan CHR 0x01, addr_orig := lan CHR 0x02, hdr_type := msgtype_val type\<rparr>"

lemma packet_of_eq: "packet_of type content = Inr (reply (test_header type) content)"
  by (simp add: packet_of_def test_header_def filled_def reply_def)

lemma refill: "copy_content d (reply h []) = Inr (reply h d)"
  by (simp add: reply_def copy_content_def reset_def write_ptr_def)

section \<open>Invalid message type\<close>

lemma test_invalid_msgtype:
  "answered_code (Inr []) (bindR (packet_of Mt_undefined [])
      (\<lambda>p. Inr (p\<lparr>m_header := (m_header p)\<lparr>hdr_type := CHR 0x65\<rparr>\<rparr>))) ''192.168.1.2''
    = Inr (msgtype_val Mt_gsn_response, rcode_val Rc_malformed_content)"
  by code_simp

section \<open>Registration\<close>

text \<open>The frame's array is not initialised, so the test is run with any contents of it.\<close>

definition register_packet :: "bytes \<Rightarrow> char \<Rightarrow> dvsp_packet result" where
  "register_packet junk type =
     bindR (construct_frame_register junk type ''dvs.test'' (protocol_val Proto_dvsp)) (\<lambda>fr.
     bindR (packet_of Mt_gsn_register_host []) (copy_content (register_bytes fr)))"

definition test_registered :: "char \<Rightarrow> netspace_addr \<Rightarrow> netspace_node" where
  "test_registered type a = \<lparr>m_type = type, m_addr = a, m_hostname = ''dvs.test'',
     m_proto = protocol_val Proto_dvsp, m_suid = ''dvs.test''\<rparr>"

lemma registration_reads:
  fixes h junk :: string and type proto :: char and hd :: dvsp_header
  defines "p \<equiv> reply hd (register_bytes \<lparr>fr_type = type, fr_len = char_of (length h), fr_protocol = proto,
    fr_hostname = h @ drop (length h) junk\<rparr>)"
  assumes "length h \<le> 125" "length junk = 125"
  shows "readable_request p" "requested_node p a = \<lparr>m_type = type, m_addr = a, m_hostname = fst (name_parts h),
    m_proto = proto, m_suid = snd (name_parts h)\<rparr>"
proof -
  let ?f = "\<lparr>fr_type = type, fr_len = char_of (length h), fr_protocol = proto,
    fr_hostname = h @ drop (length h) junk\<rparr>"
  have l: "length (fr_hostname ?f) = 125" using assms(2,3) by simp
  then have n: "length (register_bytes ?f) = 128" using register_codec.enc_length [of ?f] by (simp add: frame_sizes)
  have d: "request_frame p = ?f"
    using n register_codec.dec_enc [OF l] by (simp add: p_def request_frame_def frame_sizes)
  have "packet_wf p" unfolding p_def using n by (intro reply_wf) simp
  then show "readable_request p"
    using n assms(2) by (simp add: readable_request_def d frame_sizes schar_char_of) (simp add: p_def)
  have "request_name p = h" using assms(2) by (simp add: request_name_def d schar_char_of)
  then show "requested_node p a = \<lparr>m_type = type, m_addr = a, m_hostname = fst (name_parts h),
      m_proto = proto, m_suid = snd (name_parts h)\<rparr>"
    by (simp add: requested_node_def d)
qed

lemma register_packet_reads:
  assumes "length junk = 125"
  obtains p where "register_packet junk type = Inr p" "readable_request p"
    "hdr_type (m_header p) = msgtype_val Mt_gsn_register_host" "requested_node p a = test_registered type a"
proof
  let ?h = "''dvs.test''"
  let ?p = "reply (test_header Mt_gsn_register_host) (register_bytes \<lparr>fr_type = type, fr_len = char_of (length ?h),
    fr_protocol = protocol_val Proto_dvsp, fr_hostname = ?h @ drop (length ?h) junk\<rparr>)"
  have l: "length ?h \<le> 125" by simp
  show "register_packet junk type = Inr ?p"
    by (simp add: register_packet_def construct_frame_register_def hostname_size_def packet_of_eq refill)
  show "readable_request ?p" by (rule registration_reads [OF l assms])
  show "requested_node ?p a = test_registered type a"
    unfolding registration_reads(2) [OF l assms] by (simp add: test_registered_def name_parts_def)
qed (simp add: test_header_def)

lemma handled_register:
  assumes "length junk = 125" "parse_addr ref_asio s = Inr a"
  shows "handled (Inr t) (register_packet junk type) s =
    (let n = test_registered type a in
     if 5 \<le> schar type then Inr (code_reply Rc_malformed_content, t)
     else if name_taken n t then Inr (code_reply Rc_netspace_duplicate, t)
     else Inr (code_reply Rc_ok, t @ [n]))"
proof -
  obtain p where p: "register_packet junk type = Inr p" "readable_request p"
      "hdr_type (m_header p) = msgtype_val Mt_gsn_register_host" "requested_node p a = test_registered type a"
    using register_packet_reads [OF assms(1)] .
  have "asio_ok (env_asio test_env)" by (simp add: test_env_def asio_ok_ref)
  from register_host_eq [OF p(2) this] p(4) have "register_host (env_asio test_env) p a t =
      (let n = test_registered type a in
       if 5 \<le> schar type then Inr (code_reply Rc_malformed_content, t)
       else if name_taken n t then Inr (code_reply Rc_netspace_duplicate, t)
       else Inr (code_reply Rc_ok, t @ [n]))"
    by (simp add: name_taken_def test_registered_def Let_def)
  moreover have "enum_of msgtype_val (hdr_type (m_header p)) = Some Mt_gsn_register_host"
    unfolding p(3) by (rule msgtype_enum.enum_of_val)
  ultimately show ?thesis
    by (simp add: handled_def p(1) assms(2) process_packet_def Let_def)
qed

lemma inbound_2: "parse_addr ref_asio ''192.168.1.2'' = Inr (V4 (lan CHR 0x02))"
  by code_simp

lemma out_code_reply: "out_type_code (code_reply c) = Inr (msgtype_val Mt_gsn_response, rcode_val c)"
  by (simp add: out_type_code_def content_as_def read_ptr_def code_reply_def reply_def frame_sizes typed_packet_def
      response_code_bytes_def bytes_response_code_def length_greater_0_conv [symmetric] del: length_greater_0_conv)

lemma test_register_success:
  assumes "length junk = 125"
  shows "bindR (handled (Inr []) (register_packet junk (netnode_val Nt_org)) ''192.168.1.2'') (\<lambda>(out, t).
     bindR (out_type_code out) (\<lambda>tc. bindR (find_addr_text ref_asio t ''192.168.1.2'') (\<lambda>it.
     bindR (deref t it) (\<lambda>n. Inr (tc, table_size t, m_hostname n, m_type n)))))
    = Inr ((msgtype_val Mt_gsn_response, rcode_val Rc_ok), 1, ''dvs.test'', netnode_val Nt_org)"
proof -
  have "find_addr_text ref_asio [test_registered type (V4 (lan CHR 0x02))] ''192.168.1.2'' = Inr 0" for type
    by (simp add: find_addr_text_def inbound_2 noexcept_call_def find_addr_def test_registered_def)
  then show ?thesis
    by (simp add: handled_register [OF assms inbound_2] out_code_reply name_taken_def schar_def deref_def
        table_size_def) (simp add: test_registered_def)
qed

text \<open>The section requires \<open>netspace_error\<close>.\<close>

lemma test_register_existing:
  assumes "length junk = 125"
  shows "bindR (handled (Inr []) (register_packet junk (netnode_val Nt_org)) ''192.168.1.2'') (\<lambda>(_, t).
     answered_code (Inr t) (register_packet junk (netnode_val Nt_org)) ''192.168.1.2'')
    = Inr (msgtype_val Mt_gsn_response, rcode_val Rc_netspace_duplicate)"
  by (simp add: answered_code_def handled_register [OF assms inbound_2] out_code_reply name_taken_def schar_def)

lemma test_register_bad_type:
  assumes "length junk = 125"
  shows "answered_code (Inr []) (register_packet junk CHR 0x64) ''192.168.1.2''
    = Inr (msgtype_val Mt_gsn_response, rcode_val Rc_malformed_content)"
  by (simp add: answered_code_def handled_register [OF assms inbound_2] out_code_reply schar_def)

section \<open>Unregistration\<close>

definition unregister_table :: "netspace_table result" where
  "unregister_table = test_table [test_node Nt_org ''dvs.test'' ''192.168.1.2'' Proto_dvsp,
     test_node Nt_org ''dvs.test2'' ''192.168.1.3'' Proto_dvsp]"

lemma test_unregister_success:
  "bindR (handled unregister_table (packet_of Mt_gsn_unregister_host []) ''192.168.1.2'') (\<lambda>(out, t).
     bindR (out_type_code out) (\<lambda>tc. bindR (find_addr_text ref_asio t ''192.168.1.2'') (\<lambda>i.
     bindR (find_addr_text ref_asio t ''192.168.1.3'') (\<lambda>j.
       Inr (tc, table_size t, i = table_end t, j = table_end t)))))
    = Inr ((msgtype_val Mt_gsn_response, rcode_val Rc_ok), 1, True, False)"
  by code_simp

lemma test_unregister_bad_host:
  "answered_code unregister_table (packet_of Mt_gsn_unregister_host []) ''192.168.1.10''
    = Inr (msgtype_val Mt_gsn_response, rcode_val Rc_netspace_error)"
  by code_simp

section \<open>Resolution\<close>

definition resolution_table :: "service_protocol \<Rightarrow> netspace_table result" where
  "resolution_table proto = test_table [test_node Nt_root ''esusx'' ''192.168.1.3'' Proto_dvsp,
     test_node Nt_org ''tst'' ''192.168.1.4'' proto]"

lemma test_resolution_invalid:
  "answered_code (resolution_table Proto_http) (packet_of Mt_gsn_resolution ''spring://tst.dvon.uk'') ''192.168.1.2''
    = Inr (msgtype_val Mt_gsn_response, rcode_val Rc_netspace_error)"
  by code_simp

lemma test_resolution_first_hop:
  "bindR (handled (resolution_table Proto_http) (packet_of Mt_gsn_resolution ''spring://tst.esusx.uk'') ''192.168.1.2'') (\<lambda>(out, _).
     bindR (packet_to_string out 0) (\<lambda>s. Inr (hdr_type (m_header out), addr_dest (m_header out), s)))
    = Inr (msgtype_val Mt_gsn_resolution, lan CHR 0x03, ''spring://tst.esusx'')"
  by code_simp

lemma test_resolution_last_hop:
  "bindR (handled (resolution_table Proto_http) (packet_of Mt_gsn_resolution ''spring://tst.esusx'') ''192.168.1.2'') (\<lambda>(out, _).
     bindR (content_as bytes_address sizeof_address out 0) (\<lambda>f. Inr (hdr_type (m_header out), f)))
    = Inr (msgtype_val Mt_gsn_response,
        \<lparr>fa_response = rcode_val Rc_ok, fa_protocol = protocol_val Proto_http, fa_addr = lan CHR 0x04\<rparr>)"
  by code_simp

text \<open>The section requires \<open>netspace_error\<close>; the code asks an empty route for its last label.\<close>

lemma test_resolution_final_hop_invalid:
  "answered_code (resolution_table Proto_http) (packet_of Mt_gsn_resolution ''spring://inv'') ''192.168.1.2''
    = Inl (Undefined Empty_container)"
  by code_simp

lemma test_geosub_success:
  "bindR (handled (resolution_table Proto_dvsp) (packet_of Mt_gsn_resolution ''spring://uk:tn37'') ''192.168.1.2'') (\<lambda>(out, _).
     bindR (content_as bytes_address sizeof_address out 0) (\<lambda>f.
       Inr (hdr_type (m_header out), fa_response f, fa_addr f)))
    = Inr (msgtype_val Mt_gsn_response, rcode_val Rc_ok, lan CHR 0x03)"
  by code_simp

text \<open>The code answers with the error the section requires, but the section reads a whole
  \<open>frame_address\<close> from the four bytes of the answer.\<close>

lemma test_geosub_failed:
  "answered_code (resolution_table Proto_dvsp) (packet_of Mt_gsn_resolution ''spring://uk:tn98'') ''192.168.1.2''
      = Inr (msgtype_val Mt_gsn_response, rcode_val Rc_netspace_error)"
  "bindR (handled (resolution_table Proto_dvsp) (packet_of Mt_gsn_resolution ''spring://uk:tn98'') ''192.168.1.2'') (\<lambda>(out, _).
     content_as bytes_address sizeof_address out 0) = Inl (Undefined Oob_read)"
  by code_simp+

section \<open>Lists of nodes\<close>

definition network_table :: "service_protocol \<Rightarrow> netspace_table result" where
  "network_table proto = test_table [test_node Nt_root ''root'' ''192.168.1.1'' Proto_dvsp,
     test_node Nt_org ''org1'' ''192.168.1.6'' Proto_dvsp, test_node Nt_org ''org2'' ''192.168.1.7'' proto,
     test_node Nt_org ''org3'' ''192.168.1.8'' Proto_dvsp]"

text \<open>Both sections require a \<open>frame_network\<close> with the code \<open>ok\<close>, the number of nodes and their
  addresses; the code answers with a text.\<close>

definition listed :: "netspace_table result \<Rightarrow> dvsp_msgtype \<Rightarrow> (char \<times> string) result" where
  "listed t type = bindR (handled t (packet_of type []) ''192.168.1.2'') (\<lambda>(out, _).
     bindR (packet_to_string out 0) (\<lambda>s. Inr (hdr_type (m_header out), s)))"

lemma test_local_area:
  "listed (network_table Proto_dvsp) Mt_gsn_local_area =
     Inr (msgtype_val Mt_gsn_response, ''org1||192.168.1.6;org2||192.168.1.7;org3||192.168.1.8;'')"
  by code_simp

lemma test_root_nodes:
  "listed (network_table Proto_dvsp) Mt_gtn_root_nodes =
     Inr (msgtype_val Mt_gsn_response, ''root||192.168.1.1;'')"
  by code_simp

lemma test_lists_misread:
  "fn_response (bytes_network ''org1||192.168.1.6;org2||192.168.1.7;org3||192.168.1.8;'') \<noteq> rcode_val Rc_ok"
  "fn_response (bytes_network ''root||192.168.1.1;'') \<noteq> rcode_val Rc_ok"
  by (simp_all add: bytes_network_def bytes_word_def)

section \<open>Host names\<close>

definition hostname_packet :: "char \<Rightarrow> dvsp_packet result" where
  "hostname_packet n = bindR (packet_of Mt_gsn_hostname []) (copy_content (ipv4_bytes (lan n)))"

lemma hostname_packet_eq:
  "hostname_packet n = Inr (reply (test_header Mt_gsn_hostname) (ipv4_bytes (lan n)))"
  by (simp add: hostname_packet_def packet_of_eq refill)

definition org2 :: netspace_node where
  "org2 = \<lparr>m_type = netnode_val Nt_org, m_addr = V4 (lan CHR 0x07), m_hostname = ''org2'',
     m_proto = protocol_val Proto_http, m_suid = []\<rparr>"

definition network_nodes :: netspace_table where
  "network_nodes = [org2\<lparr>m_type := netnode_val Nt_root, m_addr := V4 (lan CHR 0x01), m_hostname := ''root'', m_proto := CHR 0x00\<rparr>,
     org2\<lparr>m_addr := V4 (lan CHR 0x06), m_hostname := ''org1'', m_proto := CHR 0x00\<rparr>, org2,
     org2\<lparr>m_addr := V4 (lan CHR 0x08), m_hostname := ''org3'', m_proto := CHR 0x00\<rparr>]"

lemma network_table_http: "network_table Proto_http = Inr network_nodes"
  by code_simp

lemma handled_hostname:
  "handled (network_table Proto_http) (hostname_packet n) ''192.168.1.2'' =
    Inr (case by_key m_addr network_nodes (V4 (lan n)) of None \<Rightarrow> code_reply Rc_netspace_error
       | Some x \<Rightarrow> reply (m_header (typed_packet Mt_gsn_response)) (hostname_bytes (hostname_reply (replicate 125 NUL) x)),
      network_nodes)"
proof -
  let ?p = "reply (test_header Mt_gsn_hostname) (ipv4_bytes (lan n))"
  have w: "packet_wf ?p" by (rule reply_wf) simp
  have l: "list_all (\<lambda>n. length (m_hostname n) \<le> 125) network_nodes"
    by (simp add: network_nodes_def org2_def)
  have "4 \<le> length (packet_data ?p)" by simp
  note h = hostname_handler_names [OF w this l, of "replicate 125 NUL"]
  have "process_packet test_env ?p a st = bindR (hostname_handler (env_junk test_env) ?p (nstable st)) (\<lambda>r. Inr (r, st))" for a st
    by (rule process_hostname) (simp add: test_header_def)
  then show ?thesis
    using h by (simp add: handled_def network_table_http hostname_packet_eq inbound_2 test_env_def split: option.split)
qed

lemma test_hostname_success:
  "bindR (handled (network_table Proto_http) (hostname_packet CHR 0x07) ''192.168.1.2'') (\<lambda>(out, _).
     bindR (content_as bytes_hostname sizeof_hostname out 0) (\<lambda>f.
       Inr (fh_response f, fh_protocol f, schar (fh_len f), take (nat (schar (fh_len f))) (fh_hostname f))))
    = Inr (rcode_val Rc_ok, protocol_val Proto_http, 4, ''org2'')"
proof -
  have "by_key m_addr network_nodes (V4 (lan CHR 0x07)) = Some org2" by code_simp
  moreover have "length (m_hostname org2) \<le> 125" "length (replicate 125 NUL) = 125" by (simp_all add: org2_def)
  ultimately show ?thesis
    by (simp add: handled_hostname hostname_reply_reads schar_char_of del: rcode_val.simps protocol_val.simps)
      (simp add: hostname_reply_def org2_def schar_char_of del: rcode_val.simps)
qed

text \<open>The code answers with the error the section requires, but the section reads a whole
  \<open>frame_hostname\<close> from the four bytes of the answer.\<close>

lemma test_hostname_unknown:
  "answered_code (network_table Proto_http) (hostname_packet CHR 0x32) ''192.168.1.2''
      = Inr (msgtype_val Mt_gsn_response, rcode_val Rc_netspace_error)"
  "bindR (handled (network_table Proto_http) (hostname_packet CHR 0x32) ''192.168.1.2'') (\<lambda>(out, _).
     content_as bytes_hostname sizeof_hostname out 0) = Inl (Undefined Oob_read)"
proof -
  have "by_key m_addr network_nodes (V4 (lan CHR 0x32)) = None" by code_simp
  moreover have "content_as bytes_hostname sizeof_hostname (code_reply Rc_netspace_error) 0 = Inl (Undefined Oob_read)"
    by code_simp
  ultimately show "answered_code (network_table Proto_http) (hostname_packet CHR 0x32) ''192.168.1.2''
      = Inr (msgtype_val Mt_gsn_response, rcode_val Rc_netspace_error)"
    "bindR (handled (network_table Proto_http) (hostname_packet CHR 0x32) ''192.168.1.2'') (\<lambda>(out, _).
       content_as bytes_hostname sizeof_hostname out 0) = Inl (Undefined Oob_read)"
    by (simp_all add: answered_code_def handled_hostname out_code_reply)
qed

end
