(* ===== verification/Tests_Activity.thy ===== *)
theory Tests_Activity
  imports Activity_Log
begin

text \<open>
  The repository's tests of the activity log, \<open>testing/shared/mod_activity.cpp\<close> and
  \<open>mod_activity_log.cpp\<close> with their mocks, run on the model. SHA-512 stays a parameter: where a section
  requires two digests to differ, the lemma says which texts they are the digests of. The clock's
  value, the padding and the contents the mocks take from memory are any.
\<close>

section \<open>Records (\<open>mod_activity.cpp\<close>)\<close>

text \<open>\<open>activity_header_m\<close>, over the digest of \<open>HelloWorld\<close>, with the clock's value.\<close>

definition mock_header :: "(bytes \<Rightarrow> bytes) \<Rightarrow> 64 word \<Rightarrow> bytes \<Rightarrow> activity_header" where
  "mock_header sha now pad = (activity_header_default pad)\<lparr>ah_hash := sha ''HelloWorld'', ah_timestamp := now,
     ah_signature := (replicate 256 NUL)[4 := CHR 0x15], ah_msg_size := 0,
     ah_type := activity_type_val At_root_verify\<rparr>"

text \<open>\<open>activity_m\<close>.\<close>

definition mock_activity :: "(bytes \<Rightarrow> bytes) \<Rightarrow> 64 word \<Rightarrow> bytes \<Rightarrow> activity" where
  "mock_activity sha now pad = partial_hash sha (with_msg (mock_header sha now pad) ''foobar'')"

lemma mock_header_wf: "sha_ok sha \<Longrightarrow> length pad = 4 \<Longrightarrow> header_wf (mock_header sha now pad)"
  by (simp add: mock_header_def activity_header_default_def header_wf_def)

lemma mock_activity_wf: "sha_ok sha \<Longrightarrow> length pad = 4 \<Longrightarrow> activity_wf (mock_activity sha now pad)"
  unfolding mock_activity_def activity_of_content_def [symmetric]
  by (rule salted_wf(3)) (simp_all add: mock_header_wf string_max_size_def)

lemma test_activity_header_default:
  "ah_hash (activity_header_default pad) ! 6 = NUL" "ah_timestamp (activity_header_default pad) = 0"
  "ah_signature (activity_header_default pad) ! 253 = NUL"
  "ah_type (activity_header_default pad) = activity_type_val At_undefined"
  by (simp_all add: activity_header_default_def)

lemma test_activity_default:
  "activity_size (activity_default pad) = sizeof_activity_header"
  "activity_size_partial (activity_default pad) = sizeof_activity_header - hash_size"
  "activity_content (activity_default pad) = []" "ah_hash (activity_head (activity_default pad)) = replicate 64 NUL"
  by (simp_all add: activity_head_def activity_content_def activity_size_def activity_size_partial_def activity_default_def activity_header_default_def)

text \<open>What every section with a mock header requires of a header but for the digest.\<close>

definition as_mocked :: "64 word \<Rightarrow> activity_header \<Rightarrow> bool" where
  "as_mocked now h \<longleftrightarrow> ah_timestamp h = now \<and> ah_signature h ! 4 = CHR 0x15
     \<and> ah_type h = activity_type_val At_root_verify"

lemma as_mocked_simps [simp]:
  "as_mocked now (mock_header sha now pad)"
  "as_mocked now (h\<lparr>ah_hash := d\<rparr>) = as_mocked now h" "as_mocked now (h\<lparr>ah_msg_size := n\<rparr>) = as_mocked now h"
  by (simp_all add: activity_head_def activity_content_def as_mocked_def mock_header_def)

lemma test_activity_supplied_header:
  "as_mocked now (activity_head (activity_of_header sha (mock_header sha now pad)))"
  "ah_hash (activity_head (activity_of_header sha (mock_header sha now pad))) =
     sha (drop hash_size (activity_header_bytes (mock_header sha now pad)))"
  by (simp_all add: activity_head_def activity_content_def activity_of_header_def partial_hash_def with_hash_def activity_serialise_partial_def)

lemma test_activity_content:
  "as_mocked now (activity_head (activity_of_content sha (mock_header sha now pad) ''foobar''))"
  "activity_content (activity_of_content sha (mock_header sha now pad) ''foobar'') = ''foobar''"
  by (simp_all add: activity_head_def activity_content_def activity_of_content_def partial_hash_def with_hash_def with_msg_def)

text \<open>A linked record: its digest differs from the one before unless the digests of two texts of
  different length agree.\<close>

lemma test_activity_link:
  fixes now :: "64 word"
  assumes "sha_ok sha" "length pad = 4"
  defines "previous \<equiv> activity_of_content sha (mock_header sha now pad) ''foobar''"
  defines "act \<equiv> activity_salted_content sha (mock_header sha now pad) ''foobar'' (rec_hash previous)"
  shows "\<exists>x y. rec_hash act = sha x \<and> rec_hash previous = sha y \<and> length x = length y + hash_size"
proof -
  let ?m = "with_msg (mock_header sha now pad) ''foobar''"
  have w: "activity_wf ?m" using mock_header_wf [OF assms(1,2)] by (simp add: with_msg_wf string_max_size_def)
  have w': "activity_wf (with_hash (rec_hash previous) ?m)"
    using with_hash_wf [OF _ w, of "rec_hash previous"] assms(1)
    by (simp add: previous_def activity_of_content_def partial_hash_def with_hash_def sha_ok_def)
  have "rec_hash act = sha (activity_serialise (with_hash (rec_hash previous) ?m))"
    by (simp add: act_def activity_salted_content_def rec_hash_rehash)
  moreover have "rec_hash previous = sha (activity_serialise_partial ?m)"
    by (simp add: previous_def activity_of_content_def partial_hash_def with_hash_def)
  moreover have "length (activity_serialise (with_hash (rec_hash previous) ?m)) =
      length (activity_serialise_partial ?m) + hash_size"
    unfolding length_activity_serialise [OF w'] length_activity_serialise_partial [OF w]
    by (simp add: activity_size_def activity_size_partial_def with_hash_def sizeof_activity_header_def hash_size_def)
  ultimately show ?thesis by blast
qed

lemma test_activity_serialise:
  assumes "sha_ok sha" "length pad = 4"
  shows "read_obj bytes_activity_header sizeof_activity_header (activity_serialise (mock_activity sha now pad)) 0 =
      Inr (act_header (mock_activity sha now pad))"
    "as_mocked now (act_header (mock_activity sha now pad))"
    "unat (ah_msg_size (act_header (mock_activity sha now pad))) = length (act_content (mock_activity sha now pad))"
  using activity_header_codec.read_front [of "act_header (mock_activity sha now pad)"
      "act_content (mock_activity sha now pad)"] mock_activity_wf [OF assms, of now]
  by (simp_all add: activity_serialise_def activity_wf_def mock_activity_def partial_hash_def with_hash_def with_msg_def)

lemma test_activity_deserialise:
  "sha_ok sha \<Longrightarrow> length pad = 4 \<Longrightarrow>
   activity_deserialise (activity_serialise (mock_activity sha now pad)) 0 = Inr (mock_activity sha now pad)"
  using activity_deserialise_at [of "mock_activity sha now pad" "[]" "[]"] mock_activity_wf by simp

lemma test_activity_rehash:
  "rec_hash (rehash sha (sha ''HelloWorld'') (mock_activity sha now pad)) =
     sha (activity_serialise (with_hash (sha ''HelloWorld'') (mock_activity sha now pad)))"
  by (rule rec_hash_rehash)

section \<open>Segments and transactions (\<open>mod_activity_log.cpp\<close>)\<close>

lemma test_segment_ctor:
  "let s = log_segment_of hash (replicate 5 a) in
   segment_size s = 5 \<and> lh_hash (segment_header s) = hash \<and> num_records (segment_header s) = 5"
  by (simp add: log_segment_of_def segment_size_def segment_header_def Let_def)

text \<open>A transaction in its scope, and after it.\<close>

lemma test_transaction_scope:
  "\<not> transacting (logs store_init 0)"
  "transacting (logs (begin_transaction 0 1 store_init) 0)"
  "\<exists>s. tx_destroy 1 \<lparr>m_base = 0, m_valid = True\<rparr> (begin_transaction 0 1 store_init) = Inr s
     \<and> \<not> transacting (logs s 0) \<and> txs s 1 = None"
  by (simp_all add: store_init_def activity_log_default_def transacting_def begin_transaction_def
      tx_destroy_def end_transaction_def)

text \<open>\<open>auto u = std::move(t); t.header()\<close>\<close>

lemma test_transaction_moved:
  "let s = begin_transaction 0 1 store_init; s' = tx_move 2 1 \<lparr>m_base = 0, m_valid = True\<rparr> s in
   map_option (\<lambda>t. tx_header (m_valid t) (logs s' (m_base t))) (txs s' 1) =
     Some (Inl (Throw Transaction_invalid_state))
   \<and> map_option (\<lambda>u. tx_header (m_valid u) (logs s' (m_base u))) (txs s' 2) = Some (Inr log_header_default)"
  by (simp add: begin_transaction_def tx_move_def store_init_def activity_log_default_def tx_header_def Let_def)

section \<open>Logs with records\<close>

text \<open>\<open>activity_log_m(num)\<close>: a record is generated and written for each content. The digest the mock
  puts into the header is written over, so the header is the same for all.\<close>

fun mock_log :: "(bytes \<Rightarrow> bytes) \<Rightarrow> activity_header \<Rightarrow> string list \<Rightarrow> activity_log \<Rightarrow> activity_log result" where
  "mock_log sha h [] l = Inr l"
| "mock_log sha h (msg # msgs) l =
     bindR (generate_record_content sha True h msg l) (\<lambda>act.
     bindR (write_record sha True act l) (mock_log sha h msgs))"

text \<open>\<open>activity_log_m(alog, to)\<close>: the first records of another log are written.\<close>

fun mock_copy :: "(bytes \<Rightarrow> bytes) \<Rightarrow> activity list \<Rightarrow> activity_log \<Rightarrow> activity_log result" where
  "mock_copy sha [] l = Inr l"
| "mock_copy sha (r # rs) l = bindR (write_record sha True r l) (mock_copy sha rs)"

text \<open>After every record the log verifies (\<open>Validate log hash\<close>), counts it (\<open>Add Record\<close>, \<open>Add Multiple
  Records\<close>) and is a chain.\<close>

lemma mock_log_ok:
  assumes "sha_ok sha" "header_wf h" "list_all (\<lambda>m. length m \<le> string_max_size) msgs" "log_inv sha l"
    "whole_chain sha (al_records l)" "length (al_records l) + length msgs < 2 ^ 31"
  shows "\<exists>l'. mock_log sha h msgs l = Inr l' \<and> log_inv sha l' \<and> whole_chain sha (al_records l')
    \<and> length (al_records l') = length (al_records l) + length msgs
    \<and> (msgs = [] \<or> log_verification sha True l' = Inr True)"
  using assms(3-6)
proof (induction msgs arbitrary: l)
  case (Cons msg msgs)
  have m: "length msg \<le> string_max_size" "length (al_records l) < 2 ^ 31 - 1" using Cons.prems by simp_all
  obtain r l1 where g: "generate_record_content sha True h msg l = Inr r" "write_record sha True r l = Inr l1"
      "al_records l1 = al_records l @ [r]" "log_inv sha l1" "whole_chain sha (al_records l1)"
      "log_verification sha True l1 = Inr True"
    using generate_write [OF assms(1) Cons.prems(2,3) assms(2) m] by blast
  have "length (al_records l1) + length msgs < 2 ^ 31" using Cons.prems(4) g(3) by simp
  with Cons.IH [OF _ g(4,5)] Cons.prems(1) obtain l' where "mock_log sha h msgs l1 = Inr l'" "log_inv sha l'"
      "whole_chain sha (al_records l')" "length (al_records l') = length (al_records l1) + length msgs"
      "msgs = [] \<or> log_verification sha True l' = Inr True"
    by auto
  with g show ?case by (cases "msgs = []") auto
qed simp

lemma mock_copy_ok:
  assumes "sha_ok sha" "list_all activity_wf rs" "log_inv sha l" "length (al_records l) + length rs < 2 ^ 31"
  shows "\<exists>l'. mock_copy sha rs l = Inr l' \<and> log_inv sha l' \<and> al_records l' = al_records l @ rs"
  using assms(2-4)
proof (induction rs arbitrary: l)
  case (Cons r rs)
  then have "activity_wf r" "length (al_records l) < 2 ^ 31 - 1" by simp_all
  from write_record_ok [OF assms(1) Cons.prems(2) this] obtain l1 where
    w: "write_record sha True r l = Inr l1" "al_records l1 = al_records l @ [r]" "log_inv sha l1"
    by auto
  with Cons.IH [OF _ w(3)] Cons.prems show ?case by auto
qed simp

lemma test_validate_log_hash:
  assumes "sha_ok sha" "header_wf h" "length a \<le> string_max_size" "length b \<le> string_max_size"
  shows "\<exists>l. mock_log sha h [a, b] (logs (begin_transaction 0 1 store_init) 0) = Inr l
    \<and> tx_size True l = Inr 2 \<and> log_verification sha True l = Inr True \<and> whole_chain sha (al_records l)"
proof -
  let ?l = "logs (begin_transaction 0 1 store_init) 0"
  have "log_inv sha ?l" "al_records ?l = []"
    by (simp_all add: begin_transaction_def store_init_def activity_log_default_def log_inv_def log_header_default_def)
  then show ?thesis
    using mock_log_ok [OF assms(1,2), of "[a, b]" ?l] assms(3,4) by (auto simp: tx_size_def whole_chain_def)
qed

text \<open>\<open>Test log segments\<close>: ten records, cut after the fifth. The digests of the records up to the cut
  have to be different, as the test takes for granted.\<close>

lemma test_log_segments:
  assumes "log_inv sha l" "length (al_records l) = 10" "distinct (map rec_hash (take 5 (al_records l)))"
  shows "\<exists>g. segment_from True (rec_hash (al_records l ! 4)) l = Inr g \<and> segment_size g = 5
    \<and> num_records (segment_header g) = 5 \<and> lh_hash (segment_header g) = lh_hash (al_header l)
    \<and> sg_records g = drop 5 (al_records l)
    \<and> log_segment_of_serial (segment_serialise g) = Inr g"
proof -
  let ?rs = "al_records l" and ?g = "log_segment_of (lh_hash (al_header l)) (drop 5 (al_records l))"
  have t: "take 5 ?rs = take 4 ?rs @ [?rs ! 4]" using assms(2) take_Suc_conv_app_nth [of 4 ?rs] by simp
  then have "?rs = take 4 ?rs @ ?rs ! 4 # drop 5 ?rs"
    using append_take_drop_id [of 5 ?rs] by simp
  moreover have "rec_hash (?rs ! 4) \<notin> rec_hash ` set (take 4 ?rs)" using assms(3) t by simp
  ultimately have "segment_from True (rec_hash (?rs ! 4)) l = Inr ?g" by (rule segment_from_hit)
  moreover have "segment_wf ?g"
    using assms(1,2) by (intro log_segment_of_wf) (auto simp: log_inv_def list_all_iff dest: in_set_dropD)
  then have "log_segment_of_serial (segment_serialise ?g) = Inr ?g" using segment_roundtrip [of ?g "[]"] by simp
  ultimately show ?thesis using assms(2) by (simp add: log_segment_of_def segment_size_def segment_header_def)
qed

text \<open>\<open>Test inserting segment\<close>: a log that has the first four of ten records, brought up to date.\<close>

lemma test_insert_segment:
  assumes "sha_ok sha" "log_inv sha c" "length (al_records c) = 10" "distinct (map rec_hash (take 4 (al_records c)))"
    "log_inv sha p0" "al_records p0 = []"
  shows "\<exists>p g p'. mock_copy sha (take 4 (al_records c)) p0 = Inr p
    \<and> tx_size True p = Inr 4 \<and> num_records (al_header p) = 4
    \<and> segment_from True (rec_hash (last (al_records p))) c = Inr g
    \<and> write_segment sha True g p = Inr p' \<and> al_header p' = al_header c \<and> al_records p' = al_records c
    \<and> lh_hash (al_header p') = lh_hash (segment_header g)"
proof -
  let ?rs = "al_records c"
  have t: "take 4 ?rs = take 3 ?rs @ [?rs ! 3]" using assms(3) take_Suc_conv_app_nth [of 3 ?rs] by simp
  then have split: "?rs = take 3 ?rs @ ?rs ! 3 # drop 4 ?rs" using append_take_drop_id [of 4 ?rs] by simp
  have "list_all activity_wf (take 4 ?rs)"
    using assms(2) by (auto simp: log_inv_def list_all_iff dest: in_set_takeD)
  from mock_copy_ok [OF assms(1) this assms(5)] assms(3,6) obtain p where
    p: "mock_copy sha (take 4 ?rs) p0 = Inr p" "log_inv sha p" "al_records p = take 4 ?rs"
    by auto
  have "sint (num_records (al_header p)) = sint (4 :: 32 word)" using p(2,3) assms(3) by (simp add: log_inv_def)
  then have n: "num_records (al_header p) = 4" by (rule signed_word_eqI)
  have d: "rec_hash (?rs ! 3) \<notin> rec_hash ` set (take 3 ?rs)" using assms(4) t by simp
  have "length ?rs < 2 ^ 31" using assms(3) by simp
  from segment_transfer [OF assms(1,2) p(2) this split p(3) [unfolded t] d, of "[]"]
  obtain g p' where g: "segment_from True (rec_hash (?rs ! 3)) c = Inr g" "write_segment sha True g p = Inr p'"
      "al_records p' = ?rs" "al_header p' = al_header c"
    by blast
  moreover have "lh_hash (segment_header g) = lh_hash (al_header c)"
    using segment_from_hit [OF split d] g(1) by (auto simp: segment_header_def log_segment_of_def)
  moreover have "rec_hash (last (al_records p)) = rec_hash (?rs ! 3)" by (simp add: p(3) t)
  ultimately show ?thesis using p(1,3) n assms(3) by (auto simp: tx_size_def)
qed

end
