(* ===== verification/Spec2Isabelle.thy ===== *)
theory Spec2Isabelle
  imports Network Forge_Queries Peers Startup Counter_Loop Metaspace_Handle Exceptions Crypto Activity_Log
    Send_Buffer Tests_Shared Tests_Handler Tests_Activity
begin

text \<open>
  A verification development for SpringDVS's root node (\<open>nodes/root\<close>), the library it stands on
  (\<open>shared\<close>) and the client \<open>clients/forge\<close>. The paths below are those of the repository.

  \<^bold>\<open>The program.\<close> A root node keeps a table of the nodes that registered with it. Requests reach it
  as DVSP packets, over UDP (\<open>resolution_service\<close>) or hexadecimal in the body of an HTTP request
  (\<open>http_service\<close>, \<open>http_session\<close>); both hand the packet to one \<open>protocol_handler\<close>, which registers
  and unregisters nodes, resolves \<open>spring://\<close> URLs label by label, lists nodes, tells a node's host
  name and forwards service queries to other nodes over HTTP. Geographic names come from an SQLite
  table (\<open>metaspace_gsn\<close>). Beside this, \<open>shared/activity\<close> holds a hash-chained activity log with
  transactions and segments for bringing another log up to date; no node uses it yet.

  \<^bold>\<open>The theories\<close>, in the order of their imports.
  \<^item> \<open>Prelude\<close>: the outcome of a call (a value, an exception, \<open>std::terminate\<close>, undefined behaviour),
    memory blocks, little-endian integers, the contracts \<open>byte_codec\<close> (object representations) and
    \<open>char_enum\<close> (enumerations over a byte), the string operations of the standard library.
  \<^item> \<open>Net_Common\<close>, \<open>Netnode\<close>, \<open>Netspace_Table\<close>, \<open>Netspace_Url\<close>, \<open>Metaspace_Gsn\<close>: the components of
    \<open>shared/infrastructure\<close>, one theory for each. The look-ups of the table share the contract
    \<open>node_index\<close>; its abstract view is the map \<open>by_key\<close>.
  \<^item> \<open>Dvsp_Packet\<close>, \<open>Protocol_Common\<close>, \<open>Http_Frame\<close>: \<open>shared/protocol\<close>. A packet's content is a pointer
    to a heap block that can be null, live or dangling, so that double frees are results of the model;
    the structures the code copies byte for byte have their layout as functions to and from bytes.
  \<^item> \<open>Protocol_Handler\<close>: \<open>nodes/root/protocol_handler.cpp\<close>, one definition for each handler and
    \<open>process_packet\<close> that dispatches to them; the state is the table and what was sent to other nodes.
  \<^item> \<open>Registry\<close>, \<open>Resolution\<close>, \<open>Query\<close>: what the handlers do. Registration on every branch, the
    invariant of the table and the refinement of the abstract registry (two maps, from host names and
    from identifiers); resolution on every branch and the walk from node to node that following its
    answers makes; the requests a query sends and the answer it puts together, and what a query
    without text does to the heap.
  \<^item> \<open>Services\<close>: the UDP and HTTP services and \<open>main\<close>. The event loop is a step relation over events
    (the completion of a pending operation), with the invariant of reachable states; \<open>run\<close> is the
    loop on a list of events together with the exception handler of \<open>main\<close>.
  \<^item> \<open>Startup\<close>: \<open>main\<close> as a whole (\<open>nodes/root/entry.cpp\<close>): the constructors, which of them can fail and
    where the failure goes, the event loop, the exit status.
  \<^item> \<open>Answers\<close>: what the handler returns can always be sent; exactly which requests are answered
    (\<open>sane_request\<close>); and that traffic of such requests never stops the node (\<open>sane_run\<close>).
  \<^item> \<open>Network\<close>: root nodes at every address, and the resolution of a name across them, datagram by datagram;
    it implements the walk over the tables of \<open>Resolution\<close>, after any traffic of answerable requests
    (\<open>net_step\<close>), and finds a name that was registered, over UDP, at a node that was itself registered.
  \<^item> \<open>Send_Buffer\<close>: when the socket takes the UDP answer, and what has become of its buffer by then.
  \<^item> \<open>Peers\<close>: the two ends of the HTTP framing against each other: an answer in the form of a session at
    the node that asked, and a request in the form \<open>send_frame\<close> writes at a session.
  \<^item> \<open>Forge\<close>, \<open>Forge_Queries\<close>: the client; its registration over the network, from the command to the
    table, its questions for a host name, for an area and to a service, from the command to the
    printed text.
  \<^item> \<open>Counter_Loop\<close>: the loops of \<open>netspace_url.cpp\<close> with their 32-bit counters, and when they end.
  \<^item> \<open>Metaspace_Handle\<close>: the database connections, their statements and the mutexes behind the answers of
    \<open>Metaspace_Gsn\<close>. \<open>Exceptions\<close>: the exception objects of \<open>exceptions.hpp\<close> and the strings they refer
    to. \<open>Crypto\<close>: \<open>hash_sha512\<close> over OpenSSL's functions, and the text of a digest.
  \<^item> \<open>Activity\<close>, \<open>Log_Segment\<close>, \<open>Log_Transaction\<close>, \<open>Activity_Log\<close>: \<open>shared/activity\<close>. Records with their
    layout and digests, segments, every operation of a transaction, and a store of logs and
    transaction objects in which operations happen in any order.
  \<^item> \<open>Tests_Shared\<close>, \<open>Tests_Handler\<close>, \<open>Tests_Activity\<close>: the repository's own tests (\<open>testing\<close>), every test
    case run on the model. Four sections of the handler's tests require something else than the code
    gives, and two more read a whole frame from an answer that is a bare code; the lemmas have what
    the code gives.

  \<^bold>\<open>What is a parameter.\<close> Code outside the repository: the text form of Boost's addresses (record
  \<open>asio\<close>, with the law \<open>asio_ok\<close> that parsing gives back what was printed, and \<open>ref_asio\<close> which has
  it), SQLite (\<open>gsn_db\<close>), the answers of the network (\<open>env_net\<close>, \<open>forge_udp\<close>), SHA-512 (\<open>sha\<close>, with the
  law that a digest has 64 bytes). So are the contents of memory the program reads without having
  written it: the stack after the digits of \<open>http_to_bin\<close>, partly initialised arrays, padding and old
  buffers. Integers have their width: sizes in headers are 32-bit words, positions in a string wrap
  at 2^64, \<open>num_records\<close> is a signed 32-bit counter whose overflow is undefined, \<open>char\<close> is signed.

  \<^bold>\<open>Loops and fuel.\<close> Every loop of the program runs over a text, a list or a count that is read first,
  so all definitions are total without fuel. The loops of the URL decoder and printer compare a
  32-bit counter with a 64-bit length; \<open>Counter_Loop\<close> has them as they are written
  (\<open>partial_function\<close>, \<open>None\<close> for a loop that goes on for ever) and shows that they end with the result
  of the total definitions on every text below 2^32 + 8 bytes, so on every text a packet can carry.
  Only \<open>follow\<close> and \<open>ask_around\<close>, which describe a requester and not code of the repository, take the
  number of exchanges; the theorems on them show that one for each label below the top one is enough.

  \<^bold>\<open>What is not modelled.\<close> Output of the node to the console, the file \<open>dump_frames\<close> writes (only the
  bytes it reads; the file is taken to open) and the unused macro \<open>DUMP_PACKET\<close>, some getters that only return a member
  (the other code reads it with the selector of the record), failing allocation, the mismatch of \<open>new[]\<close> with \<open>delete\<close>, what the client printed
  before an exception ended it, the clock (\<open>get_timestamp\<close> gets its ticks), \<open>hash_sha2048\<close>, which has no
  body, the test framework and build files.
\<close>

section \<open>Properties that span components\<close>

text \<open>The life of a name in the handler: after a successful registration from an IPv4 address that no node
  had, a resolution request for a URL that leaves just this name below its top label is answered with
  the sender's address and protocol; unregistering from the same address gives back the table as it was,
  and the request is answered with \<open>netspace_error\<close> again.\<close>

lemma registered_name_resolves:
  assumes "readable_request p" "asio_ok io" "table_inv t" "V4 ip \<notin> m_addr ` set t"
    "register_host io p (V4 ip) t = Inr (code_reply Rc_ok, t')"
    "carries q u" "butlast (m_gsn u) = [fst (name_parts (request_name p))]"
  shows "resolve_handler db q t' =
      Inr (reply (m_header (reply_to q)) (address_bytes (address_frame (requested_node p (V4 ip)) ip)))"
    "unregister_host io x (V4 ip) t' = Inr (code_reply Rc_ok, t)"
    "resolve_handler db q t = Inr (code_reply Rc_netspace_error)"
proof -
  let ?n = "requested_node p (V4 ip)"
  have n: "m_addr ?n = V4 ip" "m_hostname ?n = fst (name_parts (request_name p))"
    by (simp_all add: requested_node_def)
  from register_ok_table [OF assms(1,2,5)] have t': "t' = t @ [?n]"
    and fresh: "m_hostname ?n \<notin> m_hostname ` set t" by auto
  have k: "by_key m_hostname t' (m_hostname ?n) = Some ?n" "by_key m_hostname t (m_hostname ?n) = None"
    using by_key_fresh [OF fresh] fresh by (simp_all add: t' by_key_None)
  have "\<not> (\<exists>v \<in> set t. m_addr v = V4 ip)" using assms(4) by (metis image_eqI)
  then have "find_addr t' (V4 ip) = length t"
    using n(1) by (simp add: find_addr_def t' find_if_append)
  then show "unregister_host io x (V4 ip) t' = Inr (code_reply Rc_ok, t)"
    using unregister_host_eq [OF assms(2), of x "V4 ip" t'] t' by simp
  show "resolve_handler db q t' = Inr (reply (m_header (reply_to q)) (address_bytes (address_frame ?n ip)))"
    "resolve_handler db q t = Inr (code_reply Rc_netspace_error)"
    using resolve_handler_eq [OF assms(6), of db] assms(7) k n(2) address_reply_V4 [OF n(1), of q] by simp_all
qed

text \<open>C9: The life of a name, over UDP: a node that serves is sent a registration of a free name from an
  IPv4 address that no node has; then, by anybody, a resolution request for a URL that leaves just this
  name below its top label; then an unregistration from the same address; and the resolution request
  again. It goes on listening through all of them, and the datagrams it sends back are an \<open>ok\<close>, the
  address and protocol that were registered, an \<open>ok\<close>, and a \<open>netspace_error\<close>; at the end the table is as
  it was.\<close>

theorem name_lives_over_udp:
  assumes "serving_node env s" "V4 ip \<notin> m_addr ` set (nstable (root s))"
    "packet_of_serial d1 = Inr p" "packet_size p \<le> 1024" "hdr_type (m_header p) = msgtype_val Mt_gsn_register_host"
    "readable_request p" "schar (fr_type (request_frame p)) < 5"
    "\<not> name_taken (requested_node p (V4 ip)) (nstable (root s))"
    "packet_of_serial d2 = Inr q" "packet_size q \<le> 1024" "hdr_type (m_header q) = msgtype_val Mt_gsn_resolution"
    "carries q u" "butlast (m_gsn u) = [fst (name_parts (request_name p))]"
    "packet_of_serial d3 = Inr x" "packet_size x \<le> 1024" "hdr_type (m_header x) = msgtype_val Mt_gsn_unregister_host"
  shows "\<exists>s1 s2 s3 s4 ok found failed out.
      node_handle env (Udp (Udp_datagram d1 (V4 ip))) s = Inr (s1, Some ok)
    \<and> node_handle env (Udp (Udp_datagram d2 c)) s1 = Inr (s2, Some found)
    \<and> node_handle env (Udp (Udp_datagram d3 (V4 ip))) s2 = Inr (s3, Some ok)
    \<and> node_handle env (Udp (Udp_datagram d2 c')) s3 = Inr (s4, Some failed)
    \<and> packet_of_serial ok = Inr (code_reply Rc_ok) \<and> packet_of_serial failed = Inr (code_reply Rc_netspace_error)
    \<and> packet_of_serial found = Inr out \<and> content_as bytes_address sizeof_address out 0 =
        Inr \<lparr>fa_response = rcode_val Rc_ok, fa_protocol = fr_protocol (request_frame p), fa_addr = ip\<rparr>
    \<and> nstable (root s4) = nstable (root s) \<and> listening (udp s4)"
proof -
  let ?t = "nstable (root s)" and ?n = "requested_node p (V4 ip)"
  have io: "asio_ok (env_asio env)" and inv: "table_inv ?t" and buf: "length (m_recv (udp s)) = recv_size"
    using assms(1) by (simp_all add: serving_node_def serving_def)
  have reg: "register_host (env_asio env) p (V4 ip) ?t = Inr (code_reply Rc_ok, ?t @ [?n])"
    using register_host_eq [OF assms(6) io, of "V4 ip" ?t] assms(7,8)
    by (simp add: requested_node_def name_taken_def Let_def)
  note life = registered_name_resolves [OF assms(6) io inv assms(2) reg assms(12,13)]
  obtain ok where ok: "serialise (code_reply Rc_ok) = Inr ok" "packet_of_serial ok = Inr (code_reply Rc_ok)"
    using code_reply_read_back by blast
  obtain failed where failed: "serialise (code_reply Rc_netspace_error) = Inr failed"
      "packet_of_serial failed = Inr (code_reply Rc_netspace_error)"
    using code_reply_read_back by blast
  let ?out = "reply (m_header (reply_to q)) (address_bytes (address_frame ?n ip))"
  have "length (address_bytes (address_frame ?n ip)) < 2 ^ 32"
    using address_codec.enc_length [of "address_frame ?n ip"] by (simp add: frame_sizes)
  then obtain found where found: "serialise ?out = Inr found" "packet_of_serial found = Inr ?out"
    using reply_read_back by blast
  have content: "content_as bytes_address sizeof_address ?out 0 =
      Inr \<lparr>fa_response = rcode_val Rc_ok, fa_protocol = fr_protocol (request_frame p), fa_addr = ip\<rparr>"
    by (simp add: address_reply_reads) (simp add: address_frame_def requested_node_def)
  define svc where "svc d v = start_recv (v\<lparr>m_recv := deliver recv_size d (m_recv v), listening := False\<rparr>)" for d v
  have len: "length (m_recv (svc d v)) = recv_size" if "length (m_recv v) = recv_size" for d v
    using that by (simp add: svc_def start_recv_def length_deliver)
  note step = node_datagram [folded svc_def]
  have sizes: "packet_size p \<le> recv_size" "packet_size q \<le> recv_size" "packet_size x \<le> recv_size"
    using assms(4,10,15) by (simp_all add: recv_size_def)
  let ?s1 = "s\<lparr>udp := svc d1 (udp s), root := (root s)\<lparr>nstable := ?t @ [?n]\<rparr>\<rparr>"
  let ?s2 = "?s1\<lparr>udp := svc d2 (udp ?s1), root := root ?s1\<rparr>"
  let ?s3 = "?s2\<lparr>udp := svc d3 (udp ?s2), root := (root ?s2)\<lparr>nstable := ?t\<rparr>\<rparr>"
  let ?s4 = "?s3\<lparr>udp := svc d2 (udp ?s3), root := root ?s3\<rparr>"
  have "node_handle env (Udp (Udp_datagram d1 (V4 ip))) s = Inr (?s1, Some ok)"
    using reg ok(1) by (intro step [OF assms(3) sizes(1) buf]) (simp_all add: process_typed(1) [OF assms(5)])
  moreover have "node_handle env (Udp (Udp_datagram d2 c)) ?s1 = Inr (?s2, Some found)"
    using life(1) found(1) len [OF buf]
    by (intro step [OF assms(9) sizes(2)]) (simp_all add: process_typed(3) [OF assms(11)])
  moreover have "node_handle env (Udp (Udp_datagram d3 (V4 ip))) ?s2 = Inr (?s3, Some ok)"
    using life(2) ok(1) len [OF len [OF buf]]
    by (intro step [OF assms(14) sizes(3)]) (simp_all add: process_typed(2) [OF assms(16)])
  moreover have "node_handle env (Udp (Udp_datagram d2 c')) ?s3 = Inr (?s4, Some failed)"
    using life(3) failed(1) len [OF len [OF len [OF buf]]]
    by (intro step [OF assms(9) sizes(2)]) (simp_all add: process_typed(3) [OF assms(11)])
  moreover have "nstable (root ?s4) = ?t" "listening (udp ?s4)" by (simp_all add: svc_def start_recv_def)
  ultimately show ?thesis using ok(2) failed(2) found(2) content by blast
qed

theorem name_lives_over_udp_witness:
  "\<exists>d1 d2 s1 s2 ok found out.
      serialise (sample_request CHR 0x07 ''acme|a1'') = Inr d1
    \<and> serialise (sample_resolution (netspace_url_empty\<lparr>m_gsn := [''acme'', ''uk'']\<rparr>)) = Inr d2
    \<and> node_handle sample_env (Udp (Udp_datagram d1 sample_addr)) sample_start = Inr (s1, Some ok)
    \<and> node_handle sample_env (Udp (Udp_datagram d2 sample_addr)) s1 = Inr (s2, Some found)
    \<and> packet_of_serial ok = Inr (code_reply Rc_ok) \<and> packet_of_serial found = Inr out
    \<and> content_as bytes_address sizeof_address out 0 = Inr \<lparr>fa_response = rcode_val Rc_ok,
        fa_protocol = protocol_val Proto_http, fa_addr = Ipv4 CHR 0x0A CHR 0x00 CHR 0x00 CHR 0x01\<rparr>"
proof -
  let ?p = "sample_request CHR 0x07 ''acme|a1''" and ?u = "netspace_url_empty\<lparr>m_gsn := [''acme'', ''uk'']\<rparr>"
  let ?q = "sample_resolution ?u" and ?x = "reply (dvsp_header_default\<lparr>hdr_type := msgtype_val Mt_gsn_unregister_host\<rparr>) []"
  have w: "packet_wf ?p" using sample_requested(2) by (simp add: readable_request_def)
  have l: "length (packet_data ?p) = 128" by (simp add: sample_request_def register_bytes_def)
  obtain d1 where d1: "serialise ?p = Inr d1" "packet_of_serial d1 = Inr ?p"
    using reply_read_back [of "packet_data ?p"] l unfolding sample_request_def by fastforce
  have u: "url_wf ?u" "length (url_text ?u) = 16"
    by (simp_all add: netspace_url_empty_def url_wf_def url_text_def)
  then have c: "carries ?q ?u" by (intro sample_resolution_carries) simp_all
  obtain d2 where d2: "serialise ?q = Inr d2" "packet_of_serial d2 = Inr ?q"
    using reply_read_back [of "url_text ?u"] u(2) unfolding sample_resolution_def by fastforce
  obtain d3 where d3: "packet_of_serial d3 = Inr ?x" using reply_read_back [of "[]"] by auto
  have sizes: "packet_size ?p \<le> 1024" "packet_size ?q \<le> 1024" "packet_size ?x \<le> 1024"
    using l u(2) by (simp_all add: packet_size_def sample_resolution_def sample_request_def sizeof_header_def reply_def
        register_bytes_def)
  have types: "hdr_type (m_header ?p) = msgtype_val Mt_gsn_register_host"
    "hdr_type (m_header ?q) = msgtype_val Mt_gsn_resolution" "hdr_type (m_header ?x) = msgtype_val Mt_gsn_unregister_host"
    by (simp_all add: sample_request_def sample_resolution_def)
  have serving: "serving_node sample_env sample_start"
    using sample_serving by (simp add: serving_node_def serving_def sample_start_simps table_inv_empty v4_table_def)
  have n: "fst (name_parts (request_name ?p)) = ''acme''" "fr_protocol (request_frame ?p) = protocol_val Proto_http"
    "schar (fr_type (request_frame ?p)) < 5"
    using arg_cong [OF sample_requested(1), of m_hostname] arg_cong [OF sample_requested(1), of m_proto]
      arg_cong [OF sample_requested(1), of m_type]
    by (simp_all add: requested_node_def schar_def)
  have t: "butlast (m_gsn ?u) = [fst (name_parts (request_name ?p))]" by (simp add: n(1) netspace_url_empty_def)
  have free: "V4 (Ipv4 CHR 0x0A CHR 0x00 CHR 0x00 CHR 0x01) \<notin> m_addr ` set (nstable (root sample_start))"
    "\<not> name_taken (requested_node ?p (V4 (Ipv4 CHR 0x0A CHR 0x00 CHR 0x00 CHR 0x01))) (nstable (root sample_start))"
    by (simp_all add: sample_start_simps name_taken_def)
  from name_lives_over_udp [OF serving free(1) d1(2) sizes(1) types(1) sample_requested(2) n(3) free(2)
      d2(2) sizes(2) types(2) c t d3 sizes(3) types(3), of sample_addr sample_addr] d1(1) d2(1)
  show ?thesis unfolding n(2) by blast
qed

text \<open>C11: The whole program, from \<open>main\<close> on: started with a database whose statements compile and with
  its two ports free, the root node handles any run of connections, sessions and datagrams that bring
  whole packets with answerable requests other than queries from IPv4 senders, in any order; it is
  then still running, listening and accepting, and it answers the next such datagram with the bytes
  of a packet that answers its request.\<close>

theorem started_node_serves:
  assumes "sqlite_open w = Inr db" "db_compiles db" "udp_free w 55301" "tcp_free w 55380"
    "length (recv_memory w) = 1024" "asio_ok (env_asio env)" "list_all (sane_event env) es"
  shows "\<exists>s. root_main w env es = Inr s \<and> listening (udp s) \<and> accepting (http s)
    \<and> (\<forall>data a. sane_event env (Udp (Udp_datagram data a)) \<longrightarrow> (\<exists>s' r p out.
         node_handle (env\<lparr>env_gsn := db\<rparr>) (Udp (Udp_datagram data a)) s = Inr (s', Some r)
         \<and> packet_of_serial data = Inr p \<and> answers_to p out \<and> serialise out = Inr r))"
proof -
  let ?env = "env\<lparr>env_gsn := db\<rparr>" and ?s0 = "node_init (recv_memory w)"
  have e: "sane_event ?env = sane_event env"
  proof
    fix x show "sane_event ?env x = sane_event env x" by (cases "(env, x)" rule: sane_event.cases) simp_all
  qed
  have m: "root_main w env es = run ?env es ?s0"
    using assms(1,3,4) by (simp add: root_main_eq GSN_SERVICE_PORT_def HTTP_PORT_def)
  have "serving_node ?env ?s0"
    using assms(2,5,6) by (simp add: serving_node_def serving_def node_init_def start_recv_def recv_size_def
        table_inv_empty v4_table_def)
  from sane_run [OF this] assms(7) e obtain s where s: "run ?env es ?s0 = Inr s" "serving_node ?env s" by metis
  have "reachable ?env ?s0" using assms(5) by (intro reachable.start) (simp add: recv_size_def)
  from reachable_inv [OF run_reachable [OF this s(1)]] assms(6) have "accepting (http s)"
    by (simp add: node_inv_def)
  with s m sane_datagram [OF s(2)] e show ?thesis by (fastforce simp: serving_node_def)
qed

theorem started_node_serves_witness:
  "\<exists>s. root_main (sample_world\<lparr>tcp_free := (\<lambda>_. True)\<rparr>) sample_env [Accept False,
      Udp (Udp_datagram (header_bytes (dvsp_header_default\<lparr>hdr_type := CHR 0x04\<rparr>)) sample_addr)] = Inr s
    \<and> listening (udp s)"
proof -
  have "db_compiles sample_db" by (simp add: sample_db_def table_db_def db_compiles_def)
  moreover have "sane_event sample_env (Udp (Udp_datagram (header_bytes (dvsp_header_default\<lparr>hdr_type := CHR 0x04\<rparr>)) sample_addr))"
    by code_simp
  ultimately show ?thesis
    using started_node_serves [of "sample_world\<lparr>tcp_free := (\<lambda>_. True)\<rparr>" sample_db sample_env "[Accept False,
      Udp (Udp_datagram (header_bytes (dvsp_header_default\<lparr>hdr_type := CHR 0x04\<rparr>)) sample_addr)]"] sample_asio
    by (auto simp: sample_world_def simp del: sane_event.simps(4))
qed

end
